(* ===== verification/Prelude.thy ===== *)
theory Prelude
  imports Main "HOL-Library.Word" "HOL-Library.AList" "HOL-Library.Char_ord"
    "HOL-Library.List_Lexorder" "HOL-Library.Multiset"
begin

text \<open>
  Shared vocabulary of the development: the fact collections the component theories add to,
  generic lemmas on lists, association lists and sums, and the model of Go maps.

  A Go \<open>map[K]V\<close> is an association list with distinct keys, in the order in which a
  \<open>range\<close> loop visits it. Go leaves that order unspecified; a lemma that holds for every
  association list holds for every order.
\<close>

named_theorems go_simps \<open>evaluation rules of the modelled Go standard library\<close>
named_theorems char_class \<open>definitions of character classes\<close>
named_theorems store_defs \<open>definitions of the storage operations\<close>
named_theorems act_defs \<open>definitions of the primitive actions of the tunnel server\<close>
named_theorems world_defs \<open>definitions of the steps of the tunnel server\<close>

section \<open>Results\<close>

text \<open>A Go function that returns \<open>(T, error)\<close> returns \<open>'e + 'a\<close>: \<open>Inl\<close> the error.\<close>

fun is_ok :: "'e + 'a \<Rightarrow> bool" where
  "is_ok (Inl _) = False"
| "is_ok (Inr _) = True"

lemma is_ok_iff: "is_ok r \<longleftrightarrow> (\<exists>x. r = Inr x)"
  by (cases r) auto

section \<open>Lists\<close>

lemma list_all_concat: "list_all P (concat xss) \<longleftrightarrow> list_all (list_all P) xss"
  by (induction xss) auto

lemma list_all_nth_mod: "list_all P xs \<Longrightarrow> xs \<noteq> [] \<Longrightarrow> P (xs ! (n mod length xs))"
  by (simp add: list_all_length)

lemma hd_last_in_set:
  assumes "xs \<noteq> []"
  shows "hd xs \<in> set xs" and "last xs \<in> set xs"
  using assms by auto

lemma dropWhile_none: "list_all (\<lambda>x. \<not> P x) xs \<Longrightarrow> dropWhile P xs = xs"
  by (cases xs) auto

section \<open>Association lists as Go maps\<close>

abbreviation keys_of :: "('k \<times> 'v) list \<Rightarrow> 'k list" where
  "keys_of \<equiv> map fst"

lemma map_of_update [simp]:
  "map_of (AList.update k v m) k' = (if k' = k then Some v else map_of m k')"
  by (simp add: AList.update_conv')

lemma map_of_delete [simp]:
  "map_of (AList.delete k m) k' = (if k' = k then None else map_of m k')"
  by (simp add: AList.delete_conv')

lemma distinct_keys_update [simp]:
  "distinct (keys_of m) \<Longrightarrow> distinct (keys_of (AList.update k v m))"
  by (rule AList.distinct_update)

lemma distinct_keys_delete [simp]:
  "distinct (keys_of m) \<Longrightarrow> distinct (keys_of (AList.delete k m))"
  by (rule AList.distinct_delete)

lemma map_of_in_set: "map_of m k = Some v \<Longrightarrow> (k, v) \<in> set m"
  by (rule map_of_SomeD)

lemma in_set_map_of: "distinct (keys_of m) \<Longrightarrow> (k, v) \<in> set m \<longleftrightarrow> map_of m k = Some v"
  by (simp add: map_of_eq_Some_iff)

section \<open>Go time\<close>

text \<open>
  A \<open>time.Time\<close> is its number of nanoseconds since the Unix epoch, the zero value (1 January
  of year 1) included; a \<open>time.Duration\<close> is a number of nanoseconds.
\<close>

type_synonym time = int
type_synonym duration = int

definition second :: duration where
  "second = 1000000000"

definition zero_time :: time where
  "zero_time = - 62135596800 * 1000000000"

definition time_unix :: "int \<Rightarrow> time" where
  "time_unix s = s * 1000000000"

definition unix_seconds :: "time \<Rightarrow> int" where
  "unix_seconds t = t div 1000000000"

lemma unix_seconds_time_unix [simp]: "unix_seconds (time_unix s) = s"
  by (simp add: unix_seconds_def time_unix_def)

end
