(* ===== verification/Go_Strings.thy ===== *)
theory Go_Strings
  imports Prelude
begin

text \<open>
  The part of Go's \<open>strings\<close>, \<open>unicode/utf8\<close>, \<open>strconv\<close> and \<open>encoding/hex\<close> that tunnl uses.
  A Go string is a sequence of bytes: a HOL \<open>string\<close>, whose characters are 8-bit. Runes are
  natural numbers. The Unicode table behind \<open>unicode.ToLower\<close> for runes beyond ASCII is a
  parameter \<open>ul\<close> of the functions that need it; every lemma holds for every table.
\<close>

section \<open>Bytes and runes\<close>

type_synonym rune = nat

abbreviation ord :: "char \<Rightarrow> nat" where
  "ord c \<equiv> of_char c"

definition rune_error :: rune where
  "rune_error = 65533"

definition cont_byte :: "char \<Rightarrow> bool" where
  "cont_byte c \<longleftrightarrow> 128 \<le> ord c \<and> ord c \<le> 191"

definition in_range :: "nat \<Rightarrow> nat \<Rightarrow> char \<Rightarrow> bool" where
  "in_range lo hi c \<longleftrightarrow> lo \<le> ord c \<and> ord c \<le> hi"

text \<open>
  \<open>utf8.DecodeRuneInString\<close> on \<open>c # cs\<close>: the rune and the number of continuation bytes of
  \<open>cs\<close> that belong to it. An invalid sequence is \<open>rune_error\<close> of width one.
\<close>

definition second_range :: "nat \<Rightarrow> nat \<times> nat" where
  "second_range b =
     (if b = 224 then (160, 191) else if b = 237 then (128, 159)
      else if b = 240 then (144, 191) else if b = 244 then (128, 143) else (128, 191))"

definition decode_rune :: "char \<Rightarrow> string \<Rightarrow> rune \<times> nat" where
  "decode_rune c cs =
     (let b = ord c in
      if b < 128 then (b, 0)
      else if 194 \<le> b \<and> b \<le> 223 then
        (case cs of
           c1 # _ \<Rightarrow> if cont_byte c1 then (b mod 32 * 64 + ord c1 mod 64, 1) else (rune_error, 0)
         | [] \<Rightarrow> (rune_error, 0))
      else if 224 \<le> b \<and> b \<le> 239 then
        (case cs of
           c1 # c2 # _ \<Rightarrow>
             if in_range (fst (second_range b)) (snd (second_range b)) c1 \<and> cont_byte c2
             then (b mod 16 * 4096 + ord c1 mod 64 * 64 + ord c2 mod 64, 2) else (rune_error, 0)
         | _ \<Rightarrow> (rune_error, 0))
      else if 240 \<le> b \<and> b \<le> 244 then
        (case cs of
           c1 # c2 # c3 # _ \<Rightarrow>
             if in_range (fst (second_range b)) (snd (second_range b)) c1 \<and> cont_byte c2
               \<and> cont_byte c3
             then (b mod 8 * 262144 + ord c1 mod 64 * 4096 + ord c2 mod 64 * 64 + ord c3 mod 64, 3)
             else (rune_error, 0)
         | _ \<Rightarrow> (rune_error, 0))
      else (rune_error, 0))"

text \<open>A string as its runes, each with the bytes it was decoded from (a \<open>range\<close> loop).\<close>

fun chunks :: "string \<Rightarrow> (rune \<times> string) list" where
  "chunks [] = []"
| "chunks (c # cs) =
     (let d = decode_rune c cs in (fst d, c # take (snd d) cs) # chunks (drop (snd d) cs))"

definition runes :: "string \<Rightarrow> rune list" where
  "runes s = map fst (chunks s)"

text \<open>\<open>utf8.AppendRune\<close>.\<close>

definition encode_rune :: "rune \<Rightarrow> string" where
  "encode_rune r =
     (if r < 128 then [char_of r]
      else if r < 2048 then [char_of (192 + r div 64), char_of (128 + r mod 64)]
      else if 1114111 < r \<or> (55296 \<le> r \<and> r \<le> 57343)
        then [char_of (239::nat), char_of (191::nat), char_of (189::nat)]
      else if r < 65536 then
        [char_of (224 + r div 4096), char_of (128 + r div 64 mod 64), char_of (128 + r mod 64)]
      else [char_of (240 + r div 262144), char_of (128 + r div 4096 mod 64),
            char_of (128 + r div 64 mod 64), char_of (128 + r mod 64)])"

section \<open>Case and white space\<close>

definition lower_rune :: "(rune \<Rightarrow> rune) \<Rightarrow> rune \<Rightarrow> rune" where
  "lower_rune ul r = (if r < 128 then (if 65 \<le> r \<and> r \<le> 90 then r + 32 else r) else ul r)"

text \<open>\<open>strings.ToLower\<close>: invalid bytes are replaced by the encoding of \<open>rune_error\<close>.\<close>

definition to_lower :: "(rune \<Rightarrow> rune) \<Rightarrow> string \<Rightarrow> string" where
  "to_lower ul s = concat (map (\<lambda>r. encode_rune (lower_rune ul r)) (runes s))"

text \<open>\<open>unicode.IsSpace\<close> and \<open>unicode.IsControl\<close>.\<close>

definition is_space :: "rune \<Rightarrow> bool" where
  [char_class]: "is_space r \<longleftrightarrow>
     (9 \<le> r \<and> r \<le> 13) \<or> r = 32 \<or> r = 133 \<or> r = 160 \<or> r = 5760 \<or> (8192 \<le> r \<and> r \<le> 8202)
     \<or> r = 8232 \<or> r = 8233 \<or> r = 8239 \<or> r = 8287 \<or> r = 12288"

definition is_control :: "rune \<Rightarrow> bool" where
  [char_class]: "is_control r \<longleftrightarrow> r < 32 \<or> (127 \<le> r \<and> r \<le> 159)"

definition trim_space :: "string \<Rightarrow> string" where
  "trim_space s =
     concat (map snd (rev (dropWhile (is_space \<circ> fst)
       (rev (dropWhile (is_space \<circ> fst) (chunks s))))))"

section \<open>Substrings\<close>

definition has_prefix :: "string \<Rightarrow> string \<Rightarrow> bool" where
  "has_prefix s p \<longleftrightarrow> take (length p) s = p"

definition has_suffix :: "string \<Rightarrow> string \<Rightarrow> bool" where
  "has_suffix s p \<longleftrightarrow> length p \<le> length s \<and> drop (length s - length p) s = p"

definition trim_prefix :: "string \<Rightarrow> string \<Rightarrow> string" where
  "trim_prefix s p = (if has_prefix s p then drop (length p) s else s)"

definition trim_suffix :: "string \<Rightarrow> string \<Rightarrow> string" where
  "trim_suffix s p = (if has_suffix s p then take (length s - length p) s else s)"

fun contains :: "string \<Rightarrow> string \<Rightarrow> bool" where
  "contains [] p = (p = [])"
| "contains (c # s) p = (has_prefix (c # s) p \<or> contains s p)"

text \<open>\<open>strings.Split\<close> with a one-byte separator, and \<open>strings.TrimRight\<close> with a one-byte cutset.\<close>

fun split_on :: "char \<Rightarrow> string \<Rightarrow> string list" where
  "split_on sep [] = [[]]"
| "split_on sep (c # s) =
     (if c = sep then [] # split_on sep s
      else (case split_on sep s of w # ws \<Rightarrow> (c # w) # ws | [] \<Rightarrow> [[c]]))"

definition trim_right :: "char \<Rightarrow> string \<Rightarrow> string" where
  "trim_right ch s = rev (dropWhile (\<lambda>c. c = ch) (rev s))"

section \<open>Numbers\<close>

definition hex_digit :: "nat \<Rightarrow> char" where
  "hex_digit n = ''0123456789abcdef'' ! (n mod 16)"

definition hex_byte :: "8 word \<Rightarrow> string" where
  "hex_byte b = [hex_digit (unat b div 16), hex_digit (unat b mod 16)]"

text \<open>\<open>hex.EncodeToString\<close> and \<open>fmt.Sprintf("%04x", v)\<close> for a 16-bit \<open>v\<close>.\<close>

definition hex_encode :: "8 word list \<Rightarrow> string" where
  "hex_encode bs = concat (map hex_byte bs)"

definition hex4 :: "16 word \<Rightarrow> string" where
  "hex4 v = map hex_digit [unat v div 4096, unat v div 256, unat v div 16, unat v]"

fun nat_to_dec :: "nat \<Rightarrow> string" where
  "nat_to_dec n =
     (if n < 10 then [char_of (48 + n)] else nat_to_dec (n div 10) @ [char_of (48 + n mod 10)])"

declare nat_to_dec.simps [simp del]

definition itoa :: "int \<Rightarrow> string" where
  "itoa i = (if i < 0 then ''-'' @ nat_to_dec (nat (- i)) else nat_to_dec (nat i))"


section \<open>Decoding\<close>

lemma decode_ascii [simp]: "ord c < 128 \<Longrightarrow> decode_rune c cs = (ord c, 0)"
  by (simp add: decode_rune_def Let_def)

lemma second_range_upper: "snd (second_range b) \<le> 191"
  by (simp add: second_range_def)

lemma mod_block: "n * m \<le> b \<Longrightarrow> b < n * m + m \<Longrightarrow> b mod m = b - n * (m::nat)"
  by (metis add_less_cancel_left le_add_diff_inverse mod_less mod_mult_self3)

lemma decode_two: "194 \<le> b \<Longrightarrow> b \<le> 223 \<Longrightarrow> 128 \<le> b mod 32 * 64 + (k::nat)"
  using mod_block [of 6 32 b] by simp

lemma decode_three:
  assumes "224 \<le> b" "b \<le> 239" "in_range (fst (second_range b)) (snd (second_range b)) c"
  shows "128 \<le> b mod 16 * 4096 + (ord c mod 64 * 64 + (l::nat))"
proof (cases "b = 224")
  case True
  with assms(3) have "160 \<le> ord c" "ord c \<le> 191"
    by (simp_all add: in_range_def second_range_def)
  with mod_block [of 2 64 "ord c"] show ?thesis by simp
next
  case False
  with assms(1,2) mod_block [of 14 16 b] show ?thesis by simp
qed

lemma decode_four:
  assumes "240 \<le> b" "b \<le> 244" "in_range (fst (second_range b)) (snd (second_range b)) c"
  shows "128 \<le> b mod 8 * 262144 + (ord c mod 64 * 4096 + (l::nat))"
proof (cases "b = 240")
  case True
  with assms(3) have "144 \<le> ord c" "ord c \<le> 191"
    by (simp_all add: in_range_def second_range_def)
  with mod_block [of 2 64 "ord c"] show ?thesis by simp
next
  case False
  with assms(1,2) mod_block [of 30 8 b] show ?thesis by simp
qed

text \<open>No multi-byte sequence decodes to an ASCII rune, so an ASCII rune is its own byte.\<close>

lemma decode_large:
  assumes "128 \<le> ord c"
  shows "128 \<le> fst (decode_rune c cs)"
proof -
  have re: "128 \<le> rune_error" by (simp add: rune_error_def)
  have nb: "\<not> ord c < 128" using assms by simp
  consider (two) "194 \<le> ord c" "ord c \<le> 223" | (three) "224 \<le> ord c" "ord c \<le> 239"
    | (four) "240 \<le> ord c" "ord c \<le> 244"
    | (bad) "\<not> (194 \<le> ord c \<and> ord c \<le> 223)" "\<not> (224 \<le> ord c \<and> ord c \<le> 239)"
        "\<not> (240 \<le> ord c \<and> ord c \<le> 244)"
    by linarith
  then show ?thesis
  proof cases
    case two
    then show ?thesis
      unfolding decode_rune_def Let_def if_not_P [OF nb]
      using re decode_two [OF two] by (auto split: list.split)
  next
    case three
    then show ?thesis
      unfolding decode_rune_def Let_def if_not_P [OF nb]
      using re decode_three [OF three] by (auto simp: add.assoc split: list.split)
  next
    case four
    then show ?thesis
      unfolding decode_rune_def Let_def if_not_P [OF nb]
      using re decode_four [OF four] by (auto simp: add.assoc split: list.split)
  next
    case bad
    with re nb show ?thesis by (simp only: decode_rune_def Let_def if_False fst_conv)
  qed
qed

lemma decode_small: "fst (decode_rune c cs) < 128 \<Longrightarrow> ord c < 128"
  by (metis decode_large not_le)

lemma chunks_ascii: "list_all (\<lambda>c. ord c < 128) s \<Longrightarrow> chunks s = map (\<lambda>c. (ord c, [c])) s"
  by (induction s) auto

lemma runes_ascii: "list_all (\<lambda>c. ord c < 128) s \<Longrightarrow> runes s = map ord s"
  by (simp add: runes_def chunks_ascii)

lemma runes_small: "list_all (\<lambda>r. r < 128) (runes s) \<Longrightarrow> list_all (\<lambda>c. ord c < 128) s"
proof (induction s rule: chunks.induct)
  case 1
  then show ?case by simp
next
  case (2 c cs)
  then have c: "ord c < 128"
    by (auto simp: runes_def Let_def intro: decode_small)
  with 2 show ?case by (simp add: runes_def Let_def)
qed

text \<open>Two rune predicates that hold for ASCII only can be read off the bytes.\<close>

lemma list_all_runes:
  assumes "\<And>r. P r \<Longrightarrow> r < 128"
  shows "list_all P (runes s) \<longleftrightarrow> list_all (P \<circ> ord) s"
proof
  assume P: "list_all P (runes s)"
  then have "list_all (\<lambda>r. r < 128) (runes s)"
    by (auto simp: list_all_iff dest: assms)
  then have "runes s = map ord s"
    by (rule runes_ascii [OF runes_small])
  with P show "list_all (P \<circ> ord) s" by (simp add: list_all_iff)
next
  assume P: "list_all (P \<circ> ord) s"
  then have "list_all (\<lambda>c. ord c < 128) s"
    by (auto simp: list_all_iff dest: assms)
  then have "runes s = map ord s"
    by (rule runes_ascii)
  with P show "list_all P (runes s)" by (simp add: list_all_iff)
qed

section \<open>ASCII strings\<close>

definition lower_char :: "char \<Rightarrow> char" where
  "lower_char c = (if 65 \<le> ord c \<and> ord c \<le> 90 then char_of (ord c + 32) else c)"

lemma char_eq_char_of [go_simps]: "c = char_of (n::nat) \<longleftrightarrow> ord c = n mod 256"
  by (metis char_of_char char_of_eq_iff of_char_mod_256 of_char_of)

lemma char_of_eq_char [go_simps]: "char_of (n::nat) = c \<longleftrightarrow> ord c = n mod 256"
  using char_eq_char_of [of c n] by auto

lemma to_lower_ascii: "list_all (\<lambda>c. ord c < 128) s \<Longrightarrow> to_lower ul s = map lower_char s"
  by (induction s) (auto simp: to_lower_def runes_ascii lower_rune_def encode_rune_def lower_char_def)

lemma concat_singletons: "concat (map (\<lambda>c. [c]) s) = s"
  by (induction s) auto

lemma trim_space_ascii:
  assumes "list_all (\<lambda>c. ord c < 128) s"
  shows "trim_space s =
    rev (dropWhile (\<lambda>c. is_space (ord c)) (rev (dropWhile (\<lambda>c. is_space (ord c)) s)))"
  by (simp add: trim_space_def chunks_ascii [OF assms] dropWhile_map rev_map concat_singletons
      comp_def)

lemma trim_space_none:
  assumes "list_all (\<lambda>c. ord c < 128 \<and> \<not> is_space (ord c)) s"
  shows "trim_space s = s"
proof -
  have "list_all (\<lambda>c. ord c < 128) s" "list_all (\<lambda>c. \<not> is_space (ord c)) s"
    "list_all (\<lambda>c. \<not> is_space (ord c)) (rev s)"
    using assms by (auto simp: list_all_iff)
  then show ?thesis
    by (simp add: trim_space_ascii dropWhile_none)
qed

section \<open>Suffixes\<close>

lemma has_suffix_append [simp]: "has_suffix (s @ p) p"
  by (simp add: has_suffix_def)

lemma has_suffix_iff: "has_suffix s p \<longleftrightarrow> (\<exists>q. s = q @ p)"
  by (metis append_take_drop_id has_suffix_append has_suffix_def)

lemma trim_suffix_append [simp]: "trim_suffix (s @ p) p = s"
  by (simp add: trim_suffix_def)

lemma has_prefix_iff: "has_prefix s p \<longleftrightarrow> (\<exists>q. s = p @ q)"
  by (metis append_eq_conv_conj append_take_drop_id has_prefix_def)

lemma has_suffix_Cons_notin: "c \<notin> set s \<Longrightarrow> \<not> has_suffix s (c # p)"
  by (auto simp: has_suffix_iff)

lemma trim_suffix_notin: "c \<notin> set s \<Longrightarrow> trim_suffix s (c # p) = s"
  by (simp add: trim_suffix_def has_suffix_Cons_notin)

lemma contains_single: "contains s [c] \<longleftrightarrow> c \<in> set s"
  by (induction s) (auto simp: has_prefix_def)

lemma contains_prefix: "has_prefix s p \<Longrightarrow> contains s p"
  by (cases s) (auto simp: has_prefix_def)

lemma contains_append: "contains (a @ p @ b) p"
  by (induction a) (auto intro: contains_prefix simp: has_prefix_iff)

section \<open>Hexadecimal and decimal\<close>

definition hex_char :: "char \<Rightarrow> bool" where
  [char_class]: "hex_char c \<longleftrightarrow> (48 \<le> ord c \<and> ord c \<le> 57) \<or> (97 \<le> ord c \<and> ord c \<le> 102)"

lemma hex_digit_char: "hex_char (hex_digit n)"
proof -
  have "list_all hex_char ''0123456789abcdef''" by (simp add: hex_char_def)
  from list_all_nth_mod [OF this, of n] show ?thesis by (simp add: hex_digit_def)
qed

lemma hex4_props: "length (hex4 v) = 4" "list_all hex_char (hex4 v)"
  by (simp_all add: hex4_def hex_digit_char)

lemma nat_to_dec_nonempty [simp]: "nat_to_dec n \<noteq> []"
  by (subst nat_to_dec.simps) simp

lemma nat_to_dec_digits: "list_all (\<lambda>c. 48 \<le> ord c \<and> ord c \<le> 57) (nat_to_dec n)"
proof (induction n rule: nat_to_dec.induct)
  case (1 n)
  show ?case
    using 1 by (subst nat_to_dec.simps) (auto simp: less_Suc_eq_le)
qed

end
