(* ===== verification/Names.thy ===== *)
theory Names
  imports Go_Strings
begin

text \<open>
  \<^verbatim>\<open>internal/names/names.go\<close>: the check every requested tunnel name passes. The abstract
  specification is \<open>dns_label\<close>, what DNS allows as one label of a host name; the lemmas show
  that \<open>Normalize\<close> accepts exactly the labels that are not reserved, and is idempotent.
\<close>

section \<open>The component\<close>

datatype name_error = Bad_Length | Name_Reserved | Hyphen_At_Edge | Bad_Character

fun name_error_msg :: "name_error \<Rightarrow> string" where
  "name_error_msg Bad_Length = ''domain must contain between 3 and 63 characters''"
| "name_error_msg Name_Reserved = ''domain is reserved''"
| "name_error_msg Hyphen_At_Edge = ''domain cannot begin or end with a hyphen''"
| "name_error_msg Bad_Character =
     ''domain may only contain lowercase letters, numbers, and hyphens''"

definition reserved :: "string list" where
  "reserved = [''admin'', ''api'', ''relay'', ''status'', ''tcp'', ''www'']"

definition name_rune :: "rune \<Rightarrow> bool" where
  [char_class]: "name_rune r \<longleftrightarrow>
     \<not> ((r < 97 \<or> r > 122) \<and> (r < 48 \<or> r > 57) \<and> r \<noteq> 45)"

definition Normalize :: "(rune \<Rightarrow> rune) \<Rightarrow> string \<Rightarrow> name_error + string" where
  "Normalize ul input =
     (let v = to_lower ul (trim_space input) in
      if length v < 3 \<or> length v > 63 then Inl Bad_Length
      else if v \<in> set reserved then Inl Name_Reserved
      else if hd v = CHR ''-'' \<or> last v = CHR ''-'' then Inl Hyphen_At_Edge
      else if \<not> list_all name_rune (runes v) then Inl Bad_Character
      else Inr v)"

section \<open>Abstract specification: a DNS label\<close>

definition label_char :: "char \<Rightarrow> bool" where
  "label_char c \<longleftrightarrow> name_rune (ord c)"

definition dns_label :: "string \<Rightarrow> bool" where
  "dns_label s \<longleftrightarrow>
     3 \<le> length s \<and> length s \<le> 63 \<and> list_all label_char s
     \<and> hd s \<noteq> CHR ''-'' \<and> last s \<noteq> CHR ''-''"

definition tunnel_name :: "string \<Rightarrow> bool" where
  "tunnel_name s \<longleftrightarrow> dns_label s \<and> s \<notin> set reserved"

section \<open>Lemmas\<close>

lemma name_rune_small: "name_rune r \<Longrightarrow> r < 128"
  by (auto simp: name_rune_def)

lemma name_runes_iff: "list_all name_rune (runes s) \<longleftrightarrow> list_all label_char s"
  by (simp add: list_all_runes [OF name_rune_small] label_char_def [abs_def] comp_def)

lemma label_char_range:
  "label_char c \<Longrightarrow> ord c = 45 \<or> (48 \<le> ord c \<and> ord c \<le> 57) \<or> (97 \<le> ord c \<and> ord c \<le> 122)"
  by (simp add: label_char_def name_rune_def) linarith

lemma label_char_not_space: "label_char c \<Longrightarrow> \<not> is_space (ord c)"
  by (drule label_char_range) (simp add: is_space_def, linarith)

lemma label_char_props:
  assumes "label_char c"
  shows "ord c < 128" "lower_char c = c" "c \<noteq> CHR ''.''" "c \<noteq> CHR '':''"
    "c \<noteq> CHR ''[''" "c \<noteq> CHR '']''"
  using label_char_range [OF assms] by (auto simp: lower_char_def)

lemma label_chars_trim: "list_all label_char s \<Longrightarrow> trim_space s = s"
  by (rule trim_space_none) (auto simp: list_all_iff dest: label_char_props label_char_not_space)

lemma label_chars_lower: "list_all label_char s \<Longrightarrow> to_lower ul s = s"
  by (subst to_lower_ascii) (auto simp: list_all_iff label_char_props intro!: map_idI)

lemma normalize_eq:
  "Normalize ul s = Inr d \<longleftrightarrow> d = to_lower ul (trim_space s) \<and> tunnel_name d"
  by (auto simp: Normalize_def Let_def tunnel_name_def dns_label_def name_runes_iff)

lemma normalize_sound: "Normalize ul s = Inr d \<Longrightarrow> tunnel_name d"
  by (metis normalize_eq)

lemma tunnel_name_fixed: "tunnel_name d \<Longrightarrow> Normalize ul d = Inr d"
  by (simp add: normalize_eq label_chars_trim label_chars_lower tunnel_name_def dns_label_def)

lemma tunnel_name_no_dot: "tunnel_name d \<Longrightarrow> CHR ''.'' \<notin> set d"
  by (auto simp: tunnel_name_def dns_label_def list_all_iff dest: label_char_props)

lemma tunnel_name_chars:
  "tunnel_name d \<Longrightarrow> list_all (\<lambda>c. ord c < 128 \<and> lower_char c = c
     \<and> c \<notin> {CHR '':'', CHR ''['', CHR '']''}) d"
  by (simp add: tunnel_name_def dns_label_def list_all_iff label_char_props)

section \<open>Properties\<close>


text \<open>
  \<open>Normalize\<close> is idempotent: a name it returned is accepted unchanged when a client sends
  it again, under any Unicode case table.
\<close>

theorem normalize_idempotent: "Normalize ul s = Inr d \<Longrightarrow> Normalize ul' d = Inr d"
  by (rule tunnel_name_fixed [OF normalize_sound])

theorem normalize_idempotent_witness:
  "Normalize id ''geph'' = Inr ''geph''"
proof -
  have "Normalize id '' GePh '' = Inr ''geph''"
    by (simp add: normalize_eq trim_space_ascii to_lower_ascii lower_char_def is_space_def
        tunnel_name_def dns_label_def label_char_def name_rune_def reserved_def go_simps)
  then show ?thesis by (rule normalize_idempotent)
qed

end
