(* ===== verification/Store.thy ===== *)
theory Store
  imports Names
begin

unbundle bit_operations_syntax

text \<open>
  \<^verbatim>\<open>internal/store/store.go\<close>: the SQLite store. The state is the content of the three tables
  the schema declares, each a list of rows in insertion order; one function per SQL statement
  of the source, then one definition per Go function, composed of its statements. A statement
  can fail for reasons outside the program (a cancelled context, a full disk, a busy
  database): the environment argument of each operation says which of its statements fail,
  with the driver's message, and what the clock reads. A transaction that is not committed
  leaves the tables as they were.
\<close>

section \<open>Tables\<close>

record reservation =
  token_hash :: string
  created_at :: int
  last_seen_at :: int

record client_token =
  ct_id :: string
  ct_label :: string
  ct_hash :: string
  ct_prefix :: string
  ct_created_at :: int
  ct_last_used_at :: "int option"

record dns_config =
  provider :: string
  zone :: string
  target :: string
  updated_at :: time

record db =
  domain_reservations :: "(string \<times> reservation) list"
  client_tokens :: "client_token list"
  dns_row :: "(string \<times> string \<times> string \<times> int) option"

definition empty_db :: db where
  "empty_db = \<lparr>domain_reservations = [], client_tokens = [], dns_row = None\<rparr>"

datatype store_error =
  ErrDomainTaken
| NoAvailableDomain
| ErrNoRows
| ConstraintFailed string
| DriverError string

fun store_error_msg :: "store_error \<Rightarrow> string" where
  "store_error_msg ErrDomainTaken = ''domain is already reserved by another token''"
| "store_error_msg NoAvailableDomain = ''could not allocate an available domain''"
| "store_error_msg ErrNoRows = ''sql: no rows in result set''"
| "store_error_msg (ConstraintFailed c) = ''UNIQUE constraint failed: '' @ c"
| "store_error_msg (DriverError e) = e"

section \<open>SQL statements\<close>

definition select_owner :: "string \<Rightarrow> db \<Rightarrow> string option" where
  "select_owner d s = map_option token_hash (map_of (domain_reservations s) d)"

definition insert_reservation :: "string \<Rightarrow> string \<Rightarrow> int \<Rightarrow> db \<Rightarrow> store_error + db" where
  "insert_reservation d h now s =
     (if d \<in> set (keys_of (domain_reservations s))
      then Inl (ConstraintFailed ''domain_reservations.domain'')
      else Inr (s\<lparr>domain_reservations := domain_reservations s
        @ [(d, \<lparr>token_hash = h, created_at = now, last_seen_at = now\<rparr>)]\<rparr>))"

definition update_last_seen :: "string \<Rightarrow> int \<Rightarrow> db \<Rightarrow> db" where
  "update_last_seen d now s =
     s\<lparr>domain_reservations := map (\<lambda>(k, r). if k = d then (k, r\<lparr>last_seen_at := now\<rparr>) else (k, r))
        (domain_reservations s)\<rparr>"

definition insert_token :: "client_token \<Rightarrow> db \<Rightarrow> store_error + db" where
  "insert_token t s =
     (if ct_id t \<in> set (map ct_id (client_tokens s))
      then Inl (ConstraintFailed ''client_tokens.id'')
      else if ct_hash t \<in> set (map ct_hash (client_tokens s))
      then Inl (ConstraintFailed ''client_tokens.token_hash'')
      else Inr (s\<lparr>client_tokens := client_tokens s @ [t]\<rparr>))"

definition update_last_used :: "string \<Rightarrow> int \<Rightarrow> db \<Rightarrow> db \<times> nat" where
  "update_last_used h now s =
     (s\<lparr>client_tokens := map (\<lambda>t. if ct_hash t = h then t\<lparr>ct_last_used_at := Some now\<rparr> else t)
        (client_tokens s)\<rparr>,
      length (filter (\<lambda>t. ct_hash t = h) (client_tokens s)))"

definition delete_token :: "string \<Rightarrow> db \<Rightarrow> db \<times> nat" where
  "delete_token i s =
     (s\<lparr>client_tokens := filter (\<lambda>t. ct_id t \<noteq> i) (client_tokens s)\<rparr>,
      length (filter (\<lambda>t. ct_id t = i) (client_tokens s)))"

section \<open>Reservations\<close>

record tx_env =
  begin_err :: "string option"
  query_err :: "string option"
  exec_err :: "string option"
  commit_err :: "string option"
  tx_now :: int

definition fault_free :: "tx_env \<Rightarrow> bool" where
  "fault_free e \<longleftrightarrow> begin_err e = None \<and> query_err e = None \<and> exec_err e = None \<and> commit_err e = None"

definition commit :: "tx_env \<Rightarrow> db \<Rightarrow> db \<Rightarrow> (store_error + unit) \<times> db" where
  "commit e old new =
     (case commit_err e of Some m \<Rightarrow> (Inl (DriverError m), old) | None \<Rightarrow> (Inr (), new))"

definition Reserve :: "tx_env \<Rightarrow> string \<Rightarrow> string \<Rightarrow> db \<Rightarrow> (store_error + unit) \<times> db" where
  "Reserve e d h s =
     (case begin_err e of
        Some m \<Rightarrow> (Inl (DriverError m), s)
      | None \<Rightarrow>
        (case query_err e of
           Some m \<Rightarrow> (Inl (DriverError m), s)
         | None \<Rightarrow>
           (case select_owner d s of
              None \<Rightarrow>
                (case exec_err e of
                   Some m \<Rightarrow> (Inl (DriverError m), s)
                 | None \<Rightarrow>
                   (case insert_reservation d h (tx_now e) s of
                      Inl err \<Rightarrow> (Inl err, s)
                    | Inr s' \<Rightarrow> commit e s s'))
            | Some owner \<Rightarrow>
                if owner \<noteq> h then (Inl ErrDomainTaken, s)
                else
                  (case exec_err e of
                     Some m \<Rightarrow> (Inl (DriverError m), s)
                   | None \<Rightarrow> commit e s (update_last_seen d (tx_now e) s)))))"

definition adjectives :: "string list" where
  "adjectives = [''amber'', ''brisk'', ''calm'', ''clever'', ''cosmic'', ''gentle'', ''lucky'',
     ''mighty'', ''polar'', ''rapid'', ''silver'', ''steady'']"

definition animals :: "string list" where
  "animals = [''badger'', ''falcon'', ''fox'', ''koala'', ''lynx'', ''otter'', ''panda'',
     ''raven'', ''tiger'', ''whale'', ''wolf'', ''yak'']"

type_synonym four_bytes = "8 word \<times> 8 word \<times> 8 word \<times> 8 word"

text \<open>\<open>fmt.Sprintf("%s-%s-%04x", ...)\<close> on the four random bytes of one iteration.\<close>

fun random_domain :: "four_bytes \<Rightarrow> string" where
  "random_domain (b0, b1, b2, b3) =
     adjectives ! (unat b0 mod length adjectives) @ ''-'' @
     animals ! (unat b1 mod length animals) @ ''-'' @
     hex4 (push_bit 8 (ucast b2) OR ucast b3)"

declare random_domain.simps [simp del]

record attempt =
  random :: "string + four_bytes"
  attempt_env :: tx_env

text \<open>One iteration of the loop in \<open>Allocate\<close>: \<open>None\<close> goes round again.\<close>

definition alloc_try :: "attempt \<Rightarrow> string \<Rightarrow> db \<Rightarrow> (store_error + string) option \<times> db" where
  "alloc_try a h s =
     (case random a of
        Inl m \<Rightarrow> (Some (Inl (DriverError m)), s)
      | Inr b \<Rightarrow>
        (let d = random_domain b in
         case Reserve (attempt_env a) d h s of
           (Inr _, s') \<Rightarrow> (Some (Inr d), s')
         | (Inl err, s') \<Rightarrow> if err = ErrDomainTaken then (None, s') else (Some (Inl err), s')))"

fun alloc_loop :: "attempt list \<Rightarrow> string \<Rightarrow> db \<Rightarrow> (store_error + string) \<times> db" where
  "alloc_loop [] h s = (Inl NoAvailableDomain, s)"
| "alloc_loop (a # as) h s =
     (case alloc_try a h s of
        (Some r, s') \<Rightarrow> (r, s')
      | (None, s') \<Rightarrow> alloc_loop as h s')"

definition Allocate :: "(nat \<Rightarrow> attempt) \<Rightarrow> string \<Rightarrow> db \<Rightarrow> (store_error + string) \<times> db" where
  "Allocate attempts h s = alloc_loop (map attempts [0..<32]) h s"

definition Owner :: "string option \<Rightarrow> string \<Rightarrow> db \<Rightarrow> store_error + string" where
  "Owner q d s =
     (case q of
        Some m \<Rightarrow> Inl (DriverError m)
      | None \<Rightarrow> (case select_owner d s of None \<Rightarrow> Inl ErrNoRows | Some h \<Rightarrow> Inr h))"

definition CountReservations :: "string option \<Rightarrow> db \<Rightarrow> store_error + nat" where
  "CountReservations q s =
     (case q of Some m \<Rightarrow> Inl (DriverError m) | None \<Rightarrow> Inr (length (domain_reservations s)))"

section \<open>Client tokens\<close>

record exec_env =
  x_err :: "string option"
  rows_err :: "string option"
  x_now :: int

definition exec_ok :: "exec_env \<Rightarrow> bool" where
  "exec_ok e \<longleftrightarrow> x_err e = None \<and> rows_err e = None"

definition CreateClientToken ::
  "exec_env \<Rightarrow> string \<Rightarrow> string \<Rightarrow> string \<Rightarrow> string \<Rightarrow> db \<Rightarrow> (store_error + unit) \<times> db" where
  "CreateClientToken e i label h prefix s =
     (case x_err e of
        Some m \<Rightarrow> (Inl (DriverError m), s)
      | None \<Rightarrow>
        (case insert_token \<lparr>ct_id = i, ct_label = label, ct_hash = h, ct_prefix = prefix,
             ct_created_at = x_now e, ct_last_used_at = None\<rparr> s of
           Inl err \<Rightarrow> (Inl err, s)
         | Inr s' \<Rightarrow> (Inr (), s')))"

definition AuthenticateClientToken ::
  "exec_env \<Rightarrow> string \<Rightarrow> db \<Rightarrow> (store_error + bool) \<times> db" where
  "AuthenticateClientToken e h s =
     (case x_err e of
        Some m \<Rightarrow> (Inl (DriverError m), s)
      | None \<Rightarrow>
        (case update_last_used h (x_now e) s of
           (s', matched) \<Rightarrow>
             (case rows_err e of
                Some m \<Rightarrow> (Inl (DriverError m), s')
              | None \<Rightarrow> (Inr (matched = 1), s'))))"

definition DeleteClientToken :: "exec_env \<Rightarrow> string \<Rightarrow> db \<Rightarrow> (store_error + bool) \<times> db" where
  "DeleteClientToken e i s =
     (case x_err e of
        Some m \<Rightarrow> (Inl (DriverError m), s)
      | None \<Rightarrow>
        (case delete_token i s of
           (s', deleted) \<Rightarrow>
             (case rows_err e of
                Some m \<Rightarrow> (Inl (DriverError m), s')
              | None \<Rightarrow> (Inr (deleted = 1), s'))))"

definition ClientTokenHash :: "string option \<Rightarrow> string \<Rightarrow> db \<Rightarrow> store_error + string" where
  "ClientTokenHash q i s =
     (case q of
        Some m \<Rightarrow> Inl (DriverError m)
      | None \<Rightarrow>
        (case filter (\<lambda>t. ct_id t = i) (client_tokens s) of
           [] \<Rightarrow> Inl ErrNoRows
         | t # _ \<Rightarrow> Inr (ct_hash t)))"

definition CountClientTokens :: "string option \<Rightarrow> db \<Rightarrow> store_error + nat" where
  "CountClientTokens q s =
     (case q of Some m \<Rightarrow> Inl (DriverError m) | None \<Rightarrow> Inr (length (client_tokens s)))"

text \<open>
  \<open>ListClientTokens\<close>: SQL leaves the order of rows with equal \<open>created_at\<close> open; \<open>visit\<close> is
  the order in which the engine visits the rows before it sorts them.
\<close>

record listed_token =
  lt_id :: string
  lt_label :: string
  lt_prefix :: string
  lt_created_at :: time
  lt_last_used_at :: "time option"

definition scan_token :: "client_token \<Rightarrow> listed_token" where
  "scan_token t = \<lparr>lt_id = ct_id t, lt_label = ct_label t, lt_prefix = ct_prefix t,
     lt_created_at = time_unix (ct_created_at t),
     lt_last_used_at = map_option time_unix (ct_last_used_at t)\<rparr>"

definition ListClientTokens ::
  "string option \<Rightarrow> (client_token list \<Rightarrow> client_token list) \<Rightarrow> db
     \<Rightarrow> store_error + listed_token list" where
  "ListClientTokens q visit s =
     (case q of
        Some m \<Rightarrow> Inl (DriverError m)
      | None \<Rightarrow> Inr (map scan_token (sort_key (\<lambda>t. - ct_created_at t) (visit (client_tokens s)))))"

section \<open>DNS settings\<close>

definition DNSConfig :: "string option \<Rightarrow> db \<Rightarrow> store_error + dns_config" where
  "DNSConfig q s =
     (case q of
        Some m \<Rightarrow> Inl (DriverError m)
      | None \<Rightarrow>
        (case dns_row s of
           None \<Rightarrow> Inr \<lparr>provider = ''manual'', zone = [], target = [], updated_at = zero_time\<rparr>
         | Some (p, z, t, u) \<Rightarrow>
             Inr \<lparr>provider = p, zone = z, target = t, updated_at = time_unix u\<rparr>))"

definition SetDNSConfig ::
  "exec_env \<Rightarrow> string \<Rightarrow> string \<Rightarrow> string \<Rightarrow> db \<Rightarrow> (store_error + unit) \<times> db" where
  "SetDNSConfig e p z t s =
     (case x_err e of
        Some m \<Rightarrow> (Inl (DriverError m), s)
      | None \<Rightarrow> (Inr (), s\<lparr>dns_row := Some (p, z, t, x_now e)\<rparr>))"

section \<open>Well-formed tables\<close>

text \<open>The PRIMARY KEY and UNIQUE constraints of the schema.\<close>

definition db_ok :: "db \<Rightarrow> bool" where
  "db_ok s \<longleftrightarrow> distinct (keys_of (domain_reservations s))
     \<and> distinct (map ct_id (client_tokens s)) \<and> distinct (map ct_hash (client_tokens s))"

text \<open>What the tables promise: who owns a name, and which token hashes are accepted.\<close>

definition owners :: "db \<Rightarrow> string \<Rightarrow> string option" where
  "owners s d = select_owner d s"

definition accepted :: "db \<Rightarrow> string set" where
  "accepted s = ct_hash ` set (client_tokens s)"

lemma db_ok_empty [simp]: "db_ok empty_db"
  by (simp add: db_ok_def empty_db_def)

lemma map_of_update_rows:
  "map_of (map (\<lambda>(k, r). if k = d then (k, f r) else (k, r)) m) d' =
     (if d' = d then map_option f (map_of m d') else map_of m d')"
  by (induction m) auto

lemma owners_update_last_seen [simp]: "owners (update_last_seen d now s) = owners s"
  by (rule ext)
    (simp add: owners_def select_owner_def update_last_seen_def map_of_update_rows
      option.map_comp comp_def)

lemma keys_update_last_seen [simp]:
  "keys_of (domain_reservations (update_last_seen d now s)) = keys_of (domain_reservations s)"
  by (simp add: update_last_seen_def comp_def case_prod_beta if_distrib cong: if_cong)

lemma tokens_update_last_seen [simp]: "client_tokens (update_last_seen d now s) = client_tokens s"
  by (simp add: update_last_seen_def)

lemma owners_None_iff: "owners s d = None \<longleftrightarrow> d \<notin> set (keys_of (domain_reservations s))"
  by (simp add: owners_def select_owner_def map_of_eq_None_iff)

lemma insert_reservation_fresh:
  assumes "owners s d = None"
  shows "\<exists>s'. insert_reservation d h now s = Inr s' \<and> owners s' = (owners s)(d \<mapsto> h)
           \<and> client_tokens s' = client_tokens s \<and> (db_ok s \<longrightarrow> db_ok s')"
proof -
  let ?m = "domain_reservations s"
  let ?r = "\<lparr>token_hash = h, created_at = now, last_seen_at = now\<rparr>"
  let ?s' = "s\<lparr>domain_reservations := ?m @ [(d, ?r)]\<rparr>"
  from assms have new: "map_of ?m d = None" "d \<notin> set (keys_of ?m)"
    by (simp_all add: owners_def select_owner_def map_of_eq_None_iff)
  then have "insert_reservation d h now s = Inr ?s'"
    by (simp add: insert_reservation_def)
  moreover have "owners ?s' = (owners s)(d \<mapsto> h)"
    using new by (auto simp: owners_def select_owner_def map_add_def split: option.splits)
  moreover have "db_ok s \<longrightarrow> db_ok ?s'"
    using new by (auto simp: db_ok_def)
  ultimately show ?thesis by auto
qed

text \<open>Every branch of \<open>Reserve\<close>, in terms of the owner map.\<close>

lemma commit_cases:
  "commit e s s' = (Inr (), s') \<or> (\<exists>err. commit e s s' = (Inl err, s))"
  by (simp add: commit_def split: option.split)

lemma Reserve_cases:
  obtains (failed) err where "Reserve e d h s = (Inl err, s)"
  | (fresh) s' where "owners s d = None" "insert_reservation d h (tx_now e) s = Inr s'"
      "Reserve e d h s = (Inr (), s')"
  | (seen) "owners s d = Some h" "Reserve e d h s = (Inr (), update_last_seen d (tx_now e) s)"
proof (cases "begin_err e = None \<and> query_err e = None")
  case False
  then show ?thesis by (cases "begin_err e") (auto simp: Reserve_def intro: failed)
next
  case ok: True
  show ?thesis
  proof (cases "owners s d")
    case None
    obtain t where t: "insert_reservation d h (tx_now e) s = Inr t"
      using insert_reservation_fresh [OF None] by blast
    show ?thesis
      using ok None t commit_cases [of e s t]
      by (cases "exec_err e") (auto simp: Reserve_def owners_def intro: failed fresh)
  next
    case (Some o')
    show ?thesis
      using ok Some commit_cases [of e s "update_last_seen d (tx_now e) s"]
      by (cases "exec_err e"; cases "o' = h") (auto simp: Reserve_def owners_def intro: failed seen)
  qed
qed

lemma Reserve_effect:
  assumes "Reserve e d h s = (Inr u, s')"
  shows "owners s' = (owners s)(d \<mapsto> h)" "owners s d = None \<or> owners s d = Some h"
    "client_tokens s' = client_tokens s" "db_ok s \<Longrightarrow> db_ok s'"
proof -
  have "owners s' = (owners s)(d \<mapsto> h) \<and> (owners s d = None \<or> owners s d = Some h)
      \<and> client_tokens s' = client_tokens s \<and> (db_ok s \<longrightarrow> db_ok s')"
  proof (rule Reserve_cases [of e d h s])
    fix t assume "owners s d = None" "insert_reservation d h (tx_now e) s = Inr t"
      "Reserve e d h s = (Inr (), t)"
    then show ?thesis
      using assms insert_reservation_fresh [of s d h "tx_now e"] by auto
  next
    assume "owners s d = Some h" "Reserve e d h s = (Inr (), update_last_seen d (tx_now e) s)"
    then show ?thesis using assms by (auto simp: fun_eq_iff db_ok_def)
  qed (use assms in simp)
  then show "owners s' = (owners s)(d \<mapsto> h)" "owners s d = None \<or> owners s d = Some h"
    "client_tokens s' = client_tokens s" "db_ok s \<Longrightarrow> db_ok s'" by blast+
qed

lemma Reserve_error: "Reserve e d h s = (Inl err, s') \<Longrightarrow> s' = s"
  by (rule Reserve_cases [of e d h s]) auto

lemma Reserve_fault_free:
  assumes "fault_free e"
  shows "fst (Reserve e d h s) =
           (if owners s d = None \<or> owners s d = Some h then Inr () else Inl ErrDomainTaken)"
proof (cases "owners s d")
  case None
  with insert_reservation_fresh [OF None, of h "tx_now e"] assms show ?thesis
    by (auto simp: Reserve_def commit_def owners_def fault_free_def)
next
  case (Some o')
  with assms show ?thesis
    by (simp add: Reserve_def commit_def owners_def fault_free_def)
qed

section \<open>The contract of a name book\<close>

text \<open>
  What the tunnel server relies on: a name, once reserved, belongs to its owner. The laws are
  those of \<open>Reserve\<close>; the client's lemmas follow for any sequence of reservations.
\<close>

locale name_book =
  fixes owner :: "'s \<Rightarrow> string \<Rightarrow> string option"
    and reserve :: "'e \<Rightarrow> string \<Rightarrow> string \<Rightarrow> 's \<Rightarrow> ('err + unit) \<times> 's"
  assumes reserve_ok: "reserve e d h s = (Inr u, s') \<Longrightarrow>
      owner s' = (owner s)(d \<mapsto> h) \<and> (owner s d = None \<or> owner s d = Some h)"
    and reserve_err: "reserve e d h s = (Inl err, s') \<Longrightarrow> s' = s"
begin

lemma owner_stable: "owner s d = Some h \<Longrightarrow> owner (snd (reserve e d' h' s)) d = Some h"
proof (cases "reserve e d' h' s")
  case (Pair r s')
  assume "owner s d = Some h"
  with Pair show ?thesis
    by (cases r) (auto dest: reserve_err dest!: reserve_ok simp: fun_upd_apply)
qed

lemma owner_grows: "owner s \<subseteq>\<^sub>m owner (snd (reserve e d h s))"
  by (auto simp: map_le_def dom_def owner_stable)

lemma reserved_by: "reserve e d h s = (Inr u, s') \<Longrightarrow> owner s' d = Some h"
  by (simp add: reserve_ok)

lemma only_owner: "reserve e d h s = (Inr u, s') \<Longrightarrow> owner s d = Some h' \<Longrightarrow> h' = h"
  by (auto dest: reserve_ok)

end

interpretation book: name_book owners Reserve
  by unfold_locales (auto dest: Reserve_effect Reserve_error)

section \<open>Allocation\<close>

lemma adjectives_labels:
  "list_all (\<lambda>s. list_all label_char s \<and> 4 \<le> length s \<and> length s \<le> 6 \<and> hd s \<noteq> CHR ''-'') adjectives"
  by (simp add: adjectives_def label_char_def name_rune_def)

lemma animals_labels:
  "list_all (\<lambda>s. list_all label_char s \<and> 3 \<le> length s \<and> length s \<le> 6) animals"
  by (simp add: animals_def label_char_def name_rune_def)

lemma hex_label: "hex_char c \<Longrightarrow> label_char c \<and> c \<noteq> CHR ''-''"
  by (auto simp: hex_char_def label_char_def name_rune_def)

lemma reserved_short: "w \<in> set reserved \<Longrightarrow> length w \<le> 6"
  by (auto simp: reserved_def)

lemma dashed_label:
  assumes "list_all label_char a" "4 \<le> length a" "length a \<le> 6" "hd a \<noteq> CHR ''-''"
    and "list_all label_char b" "3 \<le> length b" "length b \<le> 6"
    and "list_all hex_char x" "length x = 4"
  shows "tunnel_name (a @ ''-'' @ b @ ''-'' @ x)"
proof -
  have ne: "x \<noteq> []" "a \<noteq> []"
    using assms by auto
  then have "hex_char (last x)"
    using assms(8) by (simp add: list_all_iff)
  then have "last x \<noteq> CHR ''-''" "list_all label_char x"
    using assms(8) by (auto simp: list_all_iff dest: hex_label)
  moreover have "a @ ''-'' @ b @ ''-'' @ x \<notin> set reserved"
    using assms by (auto dest: reserved_short)
  ultimately show ?thesis
    using assms ne by (simp add: tunnel_name_def dns_label_def label_char_def name_rune_def)
qed

lemma random_domain_name: "tunnel_name (random_domain b)"
proof (cases b)
  case (fields b0 b1 b2 b3)
  have "adjectives \<noteq> []" "animals \<noteq> []"
    by (simp_all add: adjectives_def animals_def)
  with fields show ?thesis
    using list_all_nth_mod [OF adjectives_labels, of "unat b0"]
      list_all_nth_mod [OF animals_labels, of "unat b1"] hex4_props
    by (simp add: random_domain.simps dashed_label [simplified])
qed

lemma Reserve_taken_iff:
  assumes "Reserve e d h s = (Inl ErrDomainTaken, s')"
  shows "\<exists>h'. owners s d = Some h' \<and> h' \<noteq> h"
  using assms
  by (auto simp: Reserve_def owners_def insert_reservation_def commit_def
      split: option.splits if_splits sum.splits)

lemma Reserve_not_exhausted: "Reserve e d h s \<noteq> (Inl NoAvailableDomain, s')"
  by (auto simp: Reserve_def insert_reservation_def commit_def
      split: option.splits if_splits sum.splits)

lemma alloc_try_cases:
  obtains (reserved_now) b s' where "random a = Inr b"
      "Reserve (attempt_env a) (random_domain b) h s = (Inr (), s')"
      "alloc_try a h s = (Some (Inr (random_domain b)), s')"
  | (failed) err where "alloc_try a h s = (Some (Inl err), s)" "err \<noteq> NoAvailableDomain"
      "is_ok (random a) \<longrightarrow> \<not> fault_free (attempt_env a)"
  | (again) b h' where "random a = Inr b" "owners s (random_domain b) = Some h'" "h' \<noteq> h"
      "alloc_try a h s = (None, s)"
proof (cases "random a")
  case (Inl m)
  then show ?thesis by (intro failed [of "DriverError m"]) (auto simp: alloc_try_def)
next
  case (Inr b)
  obtain r s' where R: "Reserve (attempt_env a) (random_domain b) h s = (r, s')"
    by (cases "Reserve (attempt_env a) (random_domain b) h s")
  show ?thesis
  proof (cases r)
    case (Inr u)
    with R have R': "Reserve (attempt_env a) (random_domain b) h s = (Inr (), s')" by simp
    then have "alloc_try a h s = (Some (Inr (random_domain b)), s')"
      by (simp add: alloc_try_def Let_def \<open>random a = Inr b\<close>)
    with \<open>random a = Inr b\<close> R' show ?thesis by (rule reserved_now)
  next
    case (Inl err)
    with R have R': "Reserve (attempt_env a) (random_domain b) h s = (Inl err, s)"
      by (auto dest: Reserve_error)
    show ?thesis
    proof (cases "err = ErrDomainTaken")
      case True
      with R' obtain h' where "owners s (random_domain b) = Some h'" "h' \<noteq> h"
        by (auto dest: Reserve_taken_iff)
      moreover have "alloc_try a h s = (None, s)"
        by (simp add: alloc_try_def Let_def \<open>random a = Inr b\<close> R' True)
      ultimately show ?thesis using \<open>random a = Inr b\<close> again by blast
    next
      case False
      then have "alloc_try a h s = (Some (Inl err), s)"
        by (simp add: alloc_try_def Let_def \<open>random a = Inr b\<close> R')
      moreover have "\<not> fault_free (attempt_env a)"
        using Reserve_fault_free [of "attempt_env a" "random_domain b" h s] R' False
        by (auto split: if_splits)
      moreover have "err \<noteq> NoAvailableDomain"
        using R' Reserve_not_exhausted by blast
      ultimately show ?thesis using failed by blast
    qed
  qed
qed

lemma alloc_loop_ok:
  assumes "alloc_loop as h s = (Inr d, s')"
  shows "\<exists>a\<in>set as. \<exists>b. random a = Inr b \<and> d = random_domain b
           \<and> Reserve (attempt_env a) d h s = (Inr (), s')"
  using assms
proof (induction as)
  case (Cons a as)
  show ?case
    by (rule alloc_try_cases [of a h s]) (use Cons in auto)
qed simp

lemma alloc_loop_error: "alloc_loop as h s = (Inl err, s') \<Longrightarrow> s' = s"
proof (induction as)
  case (Cons a as)
  show ?case
    by (rule alloc_try_cases [of a h s]) (use Cons in auto)
qed simp

definition name_taken :: "string \<Rightarrow> db \<Rightarrow> attempt \<Rightarrow> bool" where
  "name_taken h s a \<longleftrightarrow>
     (\<exists>b h'. random a = Inr b \<and> owners s (random_domain b) = Some h' \<and> h' \<noteq> h)"

lemma reserved_not_taken:
  assumes "random a = Inr b" "Reserve (attempt_env a) (random_domain b) h s = (Inr u, s')"
  shows "\<not> name_taken h s a"
  using Reserve_effect(2) [OF assms(2)] assms(1) by (auto simp: name_taken_def)

text \<open>With a working random source and database the loop fails only when all names are taken.\<close>

lemma alloc_loop_clean:
  assumes "\<forall>a\<in>set as. is_ok (random a) \<and> fault_free (attempt_env a)"
  shows "if \<forall>a\<in>set as. name_taken h s a then alloc_loop as h s = (Inl NoAvailableDomain, s)
         else is_ok (fst (alloc_loop as h s))"
  using assms
proof (induction as)
  case (Cons a as)
  show ?case
  proof (rule alloc_try_cases [of a h s])
    fix b s' assume b: "random a = Inr b"
      "Reserve (attempt_env a) (random_domain b) h s = (Inr (), s')"
      "alloc_try a h s = (Some (Inr (random_domain b)), s')"
    from reserved_not_taken [OF b(1,2)] b(3) show ?thesis by simp
  next
    fix b h' assume b: "random a = Inr b" "owners s (random_domain b) = Some h'" "h' \<noteq> h"
      "alloc_try a h s = (None, s)"
    then have "name_taken h s a" unfolding name_taken_def by blast
    with b(4) Cons show ?thesis by simp
  qed (use Cons.prems in simp)
qed simp

end
