(* ===== verification/Store_Runs.thy ===== *)
theory Store_Runs
  imports Store
begin

text \<open>
  The store over time: the credentials contract of the token table, the operations of
  \<^verbatim>\<open>internal/store/store.go\<close> as one step type, and the properties that hold along every
  sequence of operations: well-formed tables, permanent ownership, allocation, revocation.
\<close>

section \<open>Credentials\<close>

definition creds :: "db \<Rightarrow> string \<Rightarrow> string option" where
  "creds s = map_of (map (\<lambda>t. (ct_id t, ct_hash t)) (client_tokens s))"

lemma creds_reservations [simp]: "creds (s\<lparr>domain_reservations := r\<rparr>) = creds s"
  by (simp add: creds_def)

lemma creds_row:
  assumes "db_ok s"
  shows "creds s i = Some h \<longleftrightarrow> (\<exists>t\<in>set (client_tokens s). ct_id t = i \<and> ct_hash t = h)"
proof -
  have "distinct (map fst (map (\<lambda>t. (ct_id t, ct_hash t)) (client_tokens s)))"
    using assms by (simp add: db_ok_def comp_def)
  then show ?thesis by (auto simp: creds_def map_of_eq_Some_iff)
qed

lemma creds_None: "creds s i = None \<longleftrightarrow> i \<notin> ct_id ` set (client_tokens s)"
  by (simp add: creds_def map_of_eq_None_iff image_image)

lemma ran_creds: "db_ok s \<Longrightarrow> ran (creds s) = accepted s"
  by (auto simp: ran_def accepted_def creds_row)

lemma distinct_filter_length:
  "distinct (map f xs) \<Longrightarrow>
     length (filter (\<lambda>x. f x = y) xs) = (if y \<in> f ` set xs then 1 else 0)"
  by (induction xs) (auto simp: filter_empty_conv)

lemma db_ok_inj:
  assumes ok: "db_ok s"
  shows "inj_on (creds s) (dom (creds s))"
proof (rule inj_onI)
  fix i j assume "i \<in> dom (creds s)" and eq: "creds s i = creds s j"
  then obtain h where h: "creds s i = Some h" by blast
  with eq have "creds s j = Some h" by simp
  with h obtain t u where "t \<in> set (client_tokens s)" "u \<in> set (client_tokens s)"
      "ct_id t = i" "ct_id u = j" "ct_hash t = h" "ct_hash u = h"
    unfolding creds_row [OF ok] by blast
  moreover have "inj_on ct_hash (set (client_tokens s))"
    using ok by (simp add: db_ok_def distinct_map)
  ultimately show "i = j" by (metis inj_onD)
qed

lemma create_effect:
  assumes "db_ok s" "CreateClientToken e i l h p s = (Inr u, s')"
  shows "creds s i = None" "h \<notin> ran (creds s)" "creds s' = (creds s)(i \<mapsto> h)" "db_ok s'"
proof -
  have new: "i \<notin> ct_id ` set (client_tokens s)" "h \<notin> ct_hash ` set (client_tokens s)"
    using assms(2)
    by (auto simp: CreateClientToken_def insert_token_def split: option.splits if_splits)
  then show none: "creds s i = None" and "h \<notin> ran (creds s)"
    using ran_creds [OF assms(1)] by (auto simp: creds_None accepted_def)
  show "creds s' = (creds s)(i \<mapsto> h)"
    using assms(2) new none
    by (auto simp: CreateClientToken_def insert_token_def creds_def map_add_def fun_eq_iff
        split: option.splits if_splits)
  show "db_ok s'"
    using assms new
    by (auto simp: CreateClientToken_def insert_token_def db_ok_def split: option.splits if_splits)
qed

lemma create_error: "CreateClientToken e i l h p s = (Inl err, s') \<Longrightarrow> s' = s"
  by (auto simp: CreateClientToken_def insert_token_def split: option.splits if_splits)

lemma last_used_maps:
  "map ct_id (client_tokens (fst (update_last_used h now s))) = map ct_id (client_tokens s)"
  "map ct_hash (client_tokens (fst (update_last_used h now s))) = map ct_hash (client_tokens s)"
  by (auto simp: update_last_used_def)

lemma creds_update_last_used [simp]: "creds (fst (update_last_used h now s)) = creds s"
  by (simp add: creds_def update_last_used_def comp_def if_distrib cong: if_cong)

lemma auth_state:
  assumes "AuthenticateClientToken e h s = (r, s')"
  shows "creds s' = creds s" "owners s' = owners s" "db_ok s \<Longrightarrow> db_ok s'"
proof -
  have "s' = s \<or> s' = fst (update_last_used h (x_now e) s)"
    using assms by (auto simp: AuthenticateClientToken_def update_last_used_def split: option.splits)
  then show "creds s' = creds s" "owners s' = owners s" "db_ok s \<Longrightarrow> db_ok s'"
    by (auto simp: db_ok_def last_used_maps)
      (auto simp: update_last_used_def owners_def select_owner_def fun_eq_iff)
qed

lemma auth_result:
  assumes "db_ok s" "AuthenticateClientToken e h s = (Inr b, s')"
  shows "b \<longleftrightarrow> h \<in> ran (creds s)"
  using assms distinct_filter_length [of ct_hash "client_tokens s" h]
  by (auto simp: AuthenticateClientToken_def update_last_used_def ran_creds accepted_def db_ok_def
      split: option.splits if_splits)

lemma map_of_filter_key:
  "map_of (map (\<lambda>t. (f t, g t)) (filter (\<lambda>t. f t \<noteq> i) xs)) =
     (map_of (map (\<lambda>t. (f t, g t)) xs))(i := None)"
  by (induction xs) (auto simp: fun_eq_iff)

lemma delete_token_state:
  "owners (fst (delete_token i s)) = owners s"
  "creds (fst (delete_token i s)) = (creds s)(i := None)"
  "db_ok s \<Longrightarrow> db_ok (fst (delete_token i s))"
  by (simp_all add: delete_token_def owners_def [abs_def] select_owner_def creds_def
      map_of_filter_key db_ok_def distinct_map_filter)

lemma delete_cases:
  "DeleteClientToken e i s = (r, s') \<Longrightarrow> s' = s \<or> s' = fst (delete_token i s)"
  by (auto simp: DeleteClientToken_def split: option.splits prod.splits)

lemma delete_state:
  assumes "DeleteClientToken e i s = (r, s')"
  shows "owners s' = owners s" "db_ok s \<Longrightarrow> db_ok s'"
  using delete_cases [OF assms] by (auto simp: delete_token_state)

lemma delete_effect:
  assumes "db_ok s" "DeleteClientToken e i s = (Inr b, s')"
  shows "b \<longleftrightarrow> creds s i \<noteq> None" "creds s' = (creds s)(i := None)" "db_ok s'"
proof -
  have s': "s' = fst (delete_token i s)" and b: "b \<longleftrightarrow> snd (delete_token i s) = 1"
    using assms(2) by (auto simp: DeleteClientToken_def split: option.splits prod.splits)
  show "b \<longleftrightarrow> creds s i \<noteq> None"
    using assms(1) distinct_filter_length [of ct_id "client_tokens s" i]
    by (simp add: b delete_token_def db_ok_def creds_None del: not_None_eq)
  show "creds s' = (creds s)(i := None)" "db_ok s'"
    by (simp_all add: s' delete_token_state assms(1))
qed

lemma delete_error:
  assumes "DeleteClientToken e i s = (Inl err, s')" "rows_err e = None"
  shows "s' = s"
  using assms by (auto simp: DeleteClientToken_def delete_token_def split: option.splits)

section \<open>The contract of a credential book\<close>

text \<open>
  What the admin panel and the tunnel handshake rely on: a token is accepted from its creation
  to its removal, and removing one token leaves the others alone.
\<close>

locale credential_book =
  fixes valid :: "'s \<Rightarrow> bool"
    and issued :: "'s \<Rightarrow> string \<Rightarrow> string option"
    and create :: "'e \<Rightarrow> string \<Rightarrow> string \<Rightarrow> string \<Rightarrow> string \<Rightarrow> 's \<Rightarrow> ('err + unit) \<times> 's"
    and check :: "'e \<Rightarrow> string \<Rightarrow> 's \<Rightarrow> ('err + bool) \<times> 's"
    and remove :: "'e \<Rightarrow> string \<Rightarrow> 's \<Rightarrow> ('err + bool) \<times> 's"
  assumes issued_inj: "valid s \<Longrightarrow> inj_on (issued s) (dom (issued s))"
    and create_ok: "valid s \<Longrightarrow> create e i l h p s = (Inr u, s') \<Longrightarrow>
      issued s i = None \<and> h \<notin> ran (issued s) \<and> issued s' = (issued s)(i \<mapsto> h) \<and> valid s'"
    and check_ok: "valid s \<Longrightarrow> check e h s = (Inr b, s') \<Longrightarrow>
      b = (h \<in> ran (issued s)) \<and> issued s' = issued s \<and> valid s'"
    and remove_ok: "valid s \<Longrightarrow> remove e i s = (Inr b, s') \<Longrightarrow>
      b = (issued s i \<noteq> None) \<and> issued s' = (issued s)(i := None) \<and> valid s'"
begin

lemma created_is_accepted:
  assumes "valid s" "create e i l h p s = (Inr u, s1)" "check e' h s1 = (Inr b, s2)"
  shows "b"
proof -
  have "issued s1 i = Some h" "valid s1"
    using create_ok [OF assms(1,2)] by simp_all
  then show ?thesis using check_ok [OF _ assms(3)] by (auto intro: ranI)
qed

lemma removed_is_rejected:
  assumes "valid s" "issued s i = Some h" "remove e i s = (Inr d, s1)" "check e' h s1 = (Inr b, s2)"
  shows "d \<and> \<not> b"
proof -
  have "d" and s1: "issued s1 = (issued s)(i := None)" "valid s1"
    using remove_ok [OF assms(1,3)] assms(2) by auto
  moreover have "h \<notin> ran (issued s1)"
  proof
    assume "h \<in> ran (issued s1)"
    then obtain j where j: "issued s1 j = Some h" by (auto simp: ran_def)
    then have "j \<noteq> i" "issued s j = Some h" by (auto simp: s1(1) split: if_splits)
    then show False
      using inj_onD [OF issued_inj [OF assms(1)], of j i] assms(2) by auto
  qed
  ultimately show ?thesis using check_ok [OF s1(2) assms(4)] by blast
qed

lemma remove_keeps_others:
  assumes "valid s" "issued s j = Some h" "i \<noteq> j" "remove e i s = (Inr d, s1)"
    and "check e' h s1 = (Inr b, s2)"
  shows "b"
proof -
  have "issued s1 j = Some h" "valid s1"
    using remove_ok [OF assms(1,4)] assms(2,3) by auto
  then show ?thesis using check_ok [OF _ assms(5)] by (auto intro: ranI)
qed

end

interpretation tokens: credential_book db_ok creds CreateClientToken AuthenticateClientToken
    DeleteClientToken
proof unfold_locales
  fix s s' e i l h p and u :: unit
  assume "db_ok s" "CreateClientToken e i l h p s = (Inr u, s')"
  then show "creds s i = None \<and> h \<notin> ran (creds s) \<and> creds s' = (creds s)(i \<mapsto> h) \<and> db_ok s'"
    using create_effect [of s e i l h p u s'] by simp
next
  fix s s' e h b
  assume "db_ok s" "AuthenticateClientToken e h s = (Inr b, s')"
  then show "b = (h \<in> ran (creds s)) \<and> creds s' = creds s \<and> db_ok s'"
    using auth_result [of s e h b s'] auth_state [of e h s "Inr b" s'] by simp
next
  fix s s' e i b
  assume "db_ok s" "DeleteClientToken e i s = (Inr b, s')"
  then show "b = (creds s i \<noteq> None) \<and> creds s' = (creds s)(i := None) \<and> db_ok s'"
    using delete_effect [of s e i b s'] by simp
qed (rule db_ok_inj)

section \<open>Sequences of operations\<close>

datatype store_op =
  Do_Reserve tx_env string string
| Do_Allocate "nat \<Rightarrow> attempt" string
| Do_Create exec_env string string string string
| Do_Authenticate exec_env string
| Do_Delete exec_env string
| Do_SetDNS exec_env string string string

fun store_step :: "store_op \<Rightarrow> db \<Rightarrow> db" where
  "store_step (Do_Reserve e d h) s = snd (Reserve e d h s)"
| "store_step (Do_Allocate as h) s = snd (Allocate as h s)"
| "store_step (Do_Create e i l h p) s = snd (CreateClientToken e i l h p s)"
| "store_step (Do_Authenticate e h) s = snd (AuthenticateClientToken e h s)"
| "store_step (Do_Delete e i) s = snd (DeleteClientToken e i s)"
| "store_step (Do_SetDNS e p z t) s = snd (SetDNSConfig e p z t s)"

lemma Reserve_state:
  "owners s \<subseteq>\<^sub>m owners (snd (Reserve e d h s))" "db_ok s \<Longrightarrow> db_ok (snd (Reserve e d h s))"
proof -
  show "owners s \<subseteq>\<^sub>m owners (snd (Reserve e d h s))" by (rule book.owner_grows)
  obtain r s' where "Reserve e d h s = (r, s')" by (cases "Reserve e d h s")
  then show "db_ok s \<Longrightarrow> db_ok (snd (Reserve e d h s))"
    by (cases r) (auto dest: Reserve_effect(4) Reserve_error)
qed

lemma Allocate_cases:
  obtains (allocated) i b s' where "i < 32" "random (attempts i) = Inr b"
      "Allocate attempts h s = (Inr (random_domain b), s')"
      "Reserve (attempt_env (attempts i)) (random_domain b) h s = (Inr (), s')"
  | (failed) err where "Allocate attempts h s = (Inl err, s)"
proof (cases "Allocate attempts h s")
  case (Pair r s')
  show ?thesis
  proof (cases r)
    case (Inl err)
    with Pair show ?thesis
      using alloc_loop_error [of "map attempts [0..<32]" h s err s'] failed
      by (simp add: Allocate_def)
  next
    case (Inr d)
    with Pair have "alloc_loop (map attempts [0..<32]) h s = (Inr d, s')"
      by (simp add: Allocate_def)
    from alloc_loop_ok [OF this] obtain a b where a: "a \<in> set (map attempts [0..<32])"
        and b: "random a = Inr b" "d = random_domain b"
          "Reserve (attempt_env a) d h s = (Inr (), s')"
      by blast
    from a obtain i where "i < 32" "a = attempts i" by (auto simp del: split_paired_All)
    with b Pair Inr show ?thesis by (intro allocated [of i b s']) simp_all
  qed
qed

lemma Allocate_state:
  "owners s \<subseteq>\<^sub>m owners (snd (Allocate as h s))" "db_ok s \<Longrightarrow> db_ok (snd (Allocate as h s))"
  using Reserve_state by (rule_tac [!] Allocate_cases [of as h s]) (metis snd_conv map_le_refl)+

lemma Create_state:
  "owners (snd (CreateClientToken e i l h p s)) = owners s"
  "db_ok s \<Longrightarrow> db_ok (snd (CreateClientToken e i l h p s))"
  by (auto simp: CreateClientToken_def insert_token_def owners_def [abs_def] select_owner_def
      db_ok_def split: option.splits)

lemma SetDNS_state:
  "owners (snd (SetDNSConfig e p z t s)) = owners s"
  "db_ok s \<Longrightarrow> db_ok (snd (SetDNSConfig e p z t s))"
  by (auto simp: SetDNSConfig_def owners_def [abs_def] select_owner_def db_ok_def split: option.splits)

lemmas store_states = Reserve_state Allocate_state Create_state SetDNS_state
  auth_state [OF prod.collapse [symmetric]] delete_state [OF prod.collapse [symmetric]]

lemma store_step_owners: "owners s \<subseteq>\<^sub>m owners (store_step x s)"
  by (cases x) (simp_all add: store_states)

lemma store_step_ok: "db_ok s \<Longrightarrow> db_ok (store_step x s)"
  by (cases x) (simp_all add: store_states)

text \<open>How each operation changes the issued credentials.\<close>

lemma Reserve_creds: "creds (snd (Reserve e d h s)) = creds s"
proof (cases "Reserve e d h s")
  case (Pair r s')
  then have "client_tokens s' = client_tokens s"
    by (cases r) (auto dest: Reserve_effect(3) Reserve_error)
  with Pair show ?thesis by (simp add: creds_def)
qed

lemma Allocate_creds: "creds (snd (Allocate as h s)) = creds s"
proof (rule Allocate_cases [of as h s])
  fix i b s' assume "Allocate as h s = (Inr (random_domain b), s')"
    "Reserve (attempt_env (as i)) (random_domain b) h s = (Inr (), s')"
  then show ?thesis
    using Reserve_creds [of "attempt_env (as i)" "random_domain b" h s] by simp
qed simp

lemma Create_creds:
  "creds (snd (CreateClientToken e i l h p s)) = creds s
   \<or> creds (snd (CreateClientToken e i l h p s)) = (creds s)(i \<mapsto> h) \<and> creds s i = None"
  if "db_ok s"
proof (cases "CreateClientToken e i l h p s")
  case (Pair r s')
  then show ?thesis
    using create_error [of e i l h p s _ s'] create_effect [OF that, of e i l h p _ s']
    by (cases r) auto
qed

lemma Delete_creds:
  "creds (snd (DeleteClientToken e i s)) = creds s
   \<or> creds (snd (DeleteClientToken e i s)) = (creds s)(i := None)"
  using delete_cases [of e i s] delete_token_state(2) [of i s]
  by (metis prod.collapse)

lemma SetDNS_creds: "creds (snd (SetDNSConfig e p z t s)) = creds s"
  by (simp add: SetDNSConfig_def creds_def split: option.split)

lemmas creds_states = Reserve_creds Allocate_creds SetDNS_creds
  auth_state(1) [OF prod.collapse [symmetric]]

lemma store_step_keeps_cred:
  assumes "db_ok s" "creds s i = Some h" "\<And>e. x \<noteq> Do_Delete e i"
  shows "creds (store_step x s) i = Some h"
proof (cases x)
  case (Do_Create e j l h' p)
  with assms(2) Create_creds [OF assms(1), of e j l h' p] show ?thesis by auto
next
  case (Do_Delete e j)
  with assms(2) assms(3) [of e] Delete_creds [of e j s] show ?thesis by auto
qed (simp_all add: assms(2) creds_states)

lemma store_step_no_new_cred:
  assumes "db_ok s" "h \<notin> ran (creds s)" "\<And>e j l p. x \<noteq> Do_Create e j l h p"
  shows "h \<notin> ran (creds (store_step x s))"
proof (cases x)
  case (Do_Create e j l h' p)
  with assms(2) assms(3) [of e j l p] Create_creds [OF assms(1), of e j l h' p] show ?thesis
    by (auto simp: ran_def split: if_splits)
next
  case (Do_Delete e j)
  with assms(2) Delete_creds [of e j s] show ?thesis
    by (auto simp: ran_def split: if_splits)
qed (simp_all add: assms(2) creds_states)

lemma store_run_keeps_cred:
  "db_ok s \<Longrightarrow> creds s i = Some h \<Longrightarrow> \<forall>x\<in>set ops. \<forall>e. x \<noteq> Do_Delete e i \<Longrightarrow>
     creds (fold store_step ops s) i = Some h \<and> db_ok (fold store_step ops s)"
  by (induction ops arbitrary: s) (simp_all add: store_step_keeps_cred store_step_ok)

lemma store_run_no_new_cred:
  "db_ok s \<Longrightarrow> h \<notin> ran (creds s) \<Longrightarrow> \<forall>x\<in>set ops. \<forall>e j l p. x \<noteq> Do_Create e j l h p \<Longrightarrow>
     h \<notin> ran (creds (fold store_step ops s)) \<and> db_ok (fold store_step ops s)"
  by (induction ops arbitrary: s) (simp_all add: store_step_no_new_cred store_step_ok)

definition clean_tx :: "int \<Rightarrow> tx_env" where
  "clean_tx now =
     \<lparr>begin_err = None, query_err = None, exec_err = None, commit_err = None, tx_now = now\<rparr>"

definition clean_exec :: "int \<Rightarrow> exec_env" where
  "clean_exec now = \<lparr>x_err = None, rows_err = None, x_now = now\<rparr>"

lemma clean_envs [simp]: "fault_free (clean_tx now)" "exec_ok (clean_exec now)"
  by (simp_all add: fault_free_def clean_tx_def exec_ok_def clean_exec_def)

section \<open>Properties\<close>

text \<open>
  Every sequence of store operations, failing ones included, run on the empty database
  leaves the tables well formed: one row per domain, unique token ids and unique token hashes.
\<close>

theorem store_runs_keep_constraints: "db_ok (fold store_step ops empty_db)"
proof -
  have "db_ok s \<Longrightarrow> db_ok (fold store_step ops s)" for s
    by (induction ops arbitrary: s) (simp_all add: store_step_ok)
  then show ?thesis by simp
qed

text \<open>
  C29: a reservation is permanent: no sequence of store operations (reservations by other
  tokens, allocations, revocations, failures) changes or removes the owner of a reserved name.
\<close>

theorem reservations_are_permanent:
  "owners s d = Some h \<Longrightarrow> owners (fold store_step ops s) d = Some h"
proof (induction ops arbitrary: s)
  case (Cons x ops)
  have "owners (store_step x s) d = Some h"
    using store_step_owners [of s x] Cons.prems by (auto simp: map_le_def dom_def)
  then show ?case using Cons.IH by simp
qed simp

theorem reservations_are_permanent_witness:
  "owners (fold store_step [Do_Reserve (clean_tx 9) ''geph'' ''stranger'', Do_Delete (clean_exec 9) ''id'']
     (snd (Reserve (clean_tx 7) ''geph'' ''owner'' empty_db))) ''geph'' = Some ''owner''"
  by (rule reservations_are_permanent)
    (simp add: Reserve_def select_owner_def empty_db_def insert_reservation_def commit_def
      clean_tx_def owners_def)

text \<open>
  The abstract claim on the owner map: a free name is granted, the owner may claim it again,
  anyone else is refused.
\<close>

fun claim :: "(string \<Rightarrow> string option) \<Rightarrow> string \<Rightarrow> string \<Rightarrow> bool \<times> (string \<Rightarrow> string option)" where
  "claim m d h = (case m d of None \<Rightarrow> (True, m(d \<mapsto> h)) | Some h' \<Rightarrow> (h' = h, m))"

text \<open>
  C30: \<open>Reserve\<close> refines the abstract claim: with no storage fault its verdict and its effect on
  the owner map are those of \<open>claim\<close>, a refusal being \<open>ErrDomainTaken\<close>; with faults it either
  behaves like \<open>claim\<close> or returns an error and leaves the whole database as it was.
\<close>

theorem Reserve_refines_claim:
  assumes "Reserve e d h s = (r, s')"
  shows "(fault_free e \<longrightarrow> (is_ok r, owners s') = claim (owners s) d h
            \<and> (\<not> is_ok r \<longrightarrow> r = Inl ErrDomainTaken))
       \<and> (is_ok r \<longrightarrow> (True, owners s') = claim (owners s) d h)
       \<and> (\<not> is_ok r \<longrightarrow> s' = s)"
proof (cases r)
  case (Inl err)
  with assms have "s' = s" by (auto dest: Reserve_error)
  with Inl assms show ?thesis
    using Reserve_fault_free [of e d h s] by (auto split: option.splits if_splits)
next
  case (Inr u)
  with assms Reserve_effect [of e d h s u s'] show ?thesis
    by (auto split: option.splits)
qed

theorem Reserve_refines_claim_witness:
  "Reserve (clean_tx 7) ''geph'' ''b'' (snd (Reserve (clean_tx 5) ''geph'' ''a'' empty_db))
     = (Inl ErrDomainTaken, snd (Reserve (clean_tx 5) ''geph'' ''a'' empty_db))"
proof -
  let ?s = "snd (Reserve (clean_tx 5) ''geph'' ''a'' empty_db)"
  have o1: "owners ?s ''geph'' = Some ''a''"
    by (simp add: Reserve_def select_owner_def empty_db_def insert_reservation_def commit_def
      clean_tx_def owners_def)
  obtain r s' where R: "Reserve (clean_tx 7) ''geph'' ''b'' ?s = (r, s')"
    by (cases "Reserve (clean_tx 7) ''geph'' ''b'' ?s")
  show ?thesis
    using Reserve_refines_claim [OF R] o1 R by auto
qed

text \<open>
  A domain \<open>Allocate\<close> returns is a legal tunnel name under every spelling check of a later
  handshake, was free or already the caller's, and now belongs to the caller; every other
  reservation is untouched, and on an error the database is unchanged.
\<close>

theorem Allocate_sound:
  assumes "Allocate attempts h s = (r, s')"
  shows "(case r of
            Inr d \<Rightarrow> tunnel_name d \<and> Normalize ul d = Inr d
              \<and> (owners s d = None \<or> owners s d = Some h) \<and> owners s' = (owners s)(d \<mapsto> h)
          | Inl _ \<Rightarrow> s' = s)"
  by (rule Allocate_cases [of attempts h s])
    (use assms in \<open>auto simp: random_domain_name tunnel_name_fixed Reserve_effect split: sum.split\<close>)

text \<open>
  C31: \<open>Allocate\<close> always returns after at most 32 draws; when the random source and the
  database work, it fails exactly when all 32 drawn names belong to other tokens, and then with
  "could not allocate an available domain".
\<close>

theorem Allocate_complete:
  assumes "\<forall>i<32. is_ok (random (attempts i)) \<and> fault_free (attempt_env (attempts i))"
  shows "if \<forall>i<32. name_taken h s (attempts i) then Allocate attempts h s = (Inl NoAvailableDomain, s)
         else is_ok (fst (Allocate attempts h s))"
proof -
  have range: "(\<forall>a\<in>set (map attempts [0..<32]). P a) \<longleftrightarrow> (\<forall>i<32. P (attempts i))" for P
    by auto
  from alloc_loop_clean [of "map attempts [0..<32]" h s] assms show ?thesis
    unfolding range Allocate_def by blast
qed

definition sample_attempt :: attempt where
  "sample_attempt = \<lparr>random = Inr (0, 1, 0, 255), attempt_env = clean_tx 3\<rparr>"

lemma sample_attempt_free:
  "\<not> name_taken h empty_db sample_attempt" "is_ok (random sample_attempt)"
  "fault_free (attempt_env sample_attempt)"
  by (simp_all add: name_taken_def owners_def select_owner_def empty_db_def sample_attempt_def)

lemma some_index: "\<exists>i::nat. i < 32"
  by (rule exI [of _ 0]) simp

theorem Allocate_complete_witness:
  "is_ok (fst (Allocate (\<lambda>i. sample_attempt) ''owner'' empty_db))"
  using Allocate_complete [of "\<lambda>i. sample_attempt" "''owner''" empty_db] some_index
  by (simp add: sample_attempt_free)

lemma sample_allocates: "is_ok (fst (Allocate (\<lambda>i. sample_attempt) h empty_db))"
  using alloc_loop_clean [of "map (\<lambda>i. sample_attempt) [0..<32]" h empty_db] some_index
  by (simp add: Allocate_def sample_attempt_free)

theorem Allocate_sound_witness:
  "\<exists>d. fst (Allocate (\<lambda>i. sample_attempt) ''owner'' empty_db) = Inr d
     \<and> tunnel_name d \<and> owners (snd (Allocate (\<lambda>i. sample_attempt) ''owner'' empty_db)) d = Some ''owner''"
proof -
  obtain d where d: "fst (Allocate (\<lambda>i. sample_attempt) ''owner'' empty_db) = Inr d"
    using sample_allocates [of "''owner''"] by (auto simp: is_ok_iff)
  have "Allocate (\<lambda>i. sample_attempt) ''owner'' empty_db
      = (Inr d, snd (Allocate (\<lambda>i. sample_attempt) ''owner'' empty_db))"
    by (simp add: d [symmetric])
  from Allocate_sound [OF this, of id] d show ?thesis by simp
qed

text \<open>
  C32: a managed token is accepted until it is revoked: whatever operations run in between, as
  long as none of them deletes its id, authentication with its hash succeeds.
\<close>

theorem token_accepted_until_revoked:
  assumes "db_ok s" "creds s i = Some h" "\<forall>x\<in>set ops. \<forall>e. x \<noteq> Do_Delete e i"
    and "AuthenticateClientToken e h (fold store_step ops s) = (Inr b, s')"
  shows "b"
proof -
  have "creds (fold store_step ops s) i = Some h" "db_ok (fold store_step ops s)"
    using store_run_keeps_cred [OF assms(1-3)] by simp_all
  then show ?thesis
    using tokens.check_ok [OF _ assms(4)] by (auto intro: ranI)
qed

lemma auth_clean: "\<exists>b s'. AuthenticateClientToken (clean_exec t) h s = (Inr b, s')"
  by (simp add: AuthenticateClientToken_def clean_exec_def split: prod.split)

lemma delete_clean:
  "\<exists>d. DeleteClientToken (clean_exec t) i s = (Inr d, snd (DeleteClientToken (clean_exec t) i s))"
  by (simp add: DeleteClientToken_def clean_exec_def split: prod.split)

definition sample_tokens :: db where
  "sample_tokens = snd (CreateClientToken (clean_exec 5) ''id1'' ''Andy'' ''hash1'' ''tnl_'' empty_db)"

lemma sample_tokens_eval:
  "sample_tokens = empty_db\<lparr>client_tokens := [\<lparr>ct_id = ''id1'', ct_label = ''Andy'',
     ct_hash = ''hash1'', ct_prefix = ''tnl_'', ct_created_at = 5, ct_last_used_at = None\<rparr>]\<rparr>"
  by (simp add: sample_tokens_def CreateClientToken_def insert_token_def empty_db_def clean_exec_def)

lemma sample_tokens_facts: "db_ok sample_tokens" "creds sample_tokens ''id1'' = Some ''hash1''"
  by (simp_all add: sample_tokens_eval db_ok_def creds_def empty_db_def)

theorem token_accepted_until_revoked_witness:
  "fst (AuthenticateClientToken (clean_exec 9) ''hash1''
     (fold store_step [Do_Delete (clean_exec 8) ''other'', Do_Reserve (clean_tx 6) ''geph'' ''hash1'']
        sample_tokens)) = Inr True"
proof -
  let ?s = "fold store_step [Do_Delete (clean_exec 8) ''other'', Do_Reserve (clean_tx 6) ''geph'' ''hash1'']
        sample_tokens"
  obtain b s' where A: "AuthenticateClientToken (clean_exec 9) ''hash1'' ?s = (Inr b, s')"
    using auth_clean by blast
  have "b"
    by (rule token_accepted_until_revoked [OF sample_tokens_facts _ A]) simp
  with A show ?thesis by simp
qed

text \<open>
  C33: a revoked token stays revoked: after \<open>DeleteClientToken\<close> reports success its hash is
  rejected, whatever operations run in between, unless one of them issues a token with that
  very hash again.
\<close>

theorem token_rejected_after_revocation:
  assumes "db_ok s" "creds s i = Some h" "DeleteClientToken e i s = (Inr d, s1)"
    and "\<forall>x\<in>set ops. \<forall>e j l p. x \<noteq> Do_Create e j l h p"
    and "AuthenticateClientToken e' h (fold store_step ops s1) = (Inr b, s2)"
  shows "d \<and> \<not> b"
proof -
  obtain b0 s0 where "AuthenticateClientToken (clean_exec 0) h s1 = (Inr b0, s0)"
    using auth_clean by blast
  with assms(1-3) have "d" "h \<notin> ran (creds s1)" "db_ok s1"
    using tokens.removed_is_rejected tokens.check_ok tokens.remove_ok by blast+
  then show ?thesis
    using store_run_no_new_cred [OF _ _ assms(4)] tokens.check_ok [OF _ assms(5)] by blast
qed

theorem token_rejected_after_revocation_witness:
  "fst (AuthenticateClientToken (clean_exec 9) ''hash1''
     (fold store_step [Do_Reserve (clean_tx 6) ''geph'' ''hash1'']
        (snd (DeleteClientToken (clean_exec 8) ''id1'' sample_tokens)))) = Inr False"
proof -
  let ?s1 = "snd (DeleteClientToken (clean_exec 8) ''id1'' sample_tokens)"
  let ?s = "fold store_step [Do_Reserve (clean_tx 6) ''geph'' ''hash1''] ?s1"
  obtain d where D: "DeleteClientToken (clean_exec 8) ''id1'' sample_tokens = (Inr d, ?s1)"
    using delete_clean by blast
  obtain b s' where A: "AuthenticateClientToken (clean_exec 9) ''hash1'' ?s = (Inr b, s')"
    using auth_clean by blast
  have "d \<and> \<not> b"
    by (rule token_rejected_after_revocation [OF sample_tokens_facts D _ A]) simp
  with A show ?thesis by simp
qed

end
