(* ===== verification/Go_Net.thy ===== *)
theory Go_Net
  imports Go_Strings
begin

text \<open>
  The part of Go's \<open>net\<close> and \<open>net/netip\<close> that tunnl uses: splitting \<open>host:port\<close> and parsing
  IP addresses. An address is its list of 16 byte values.
\<close>

section \<open>Host and port\<close>

definition index_of :: "char \<Rightarrow> string \<Rightarrow> nat option" where
  "index_of c s = (if c \<in> set s then Some (length (takeWhile (\<lambda>x. x \<noteq> c) s)) else None)"

definition last_index_of :: "char \<Rightarrow> string \<Rightarrow> nat option" where
  "last_index_of c s =
     (if c \<in> set s then Some (length s - Suc (length (takeWhile (\<lambda>x. x \<noteq> c) (rev s)))) else None)"

datatype addr_error =
  Missing_Port | Too_Many_Colons | Missing_Bracket | Unexpected_Left | Unexpected_Right

definition split_finish ::
  "string \<Rightarrow> string \<Rightarrow> nat \<Rightarrow> nat \<Rightarrow> nat \<Rightarrow> addr_error + string \<times> string" where
  "split_finish hp host i j k =
     (if CHR ''['' \<in> set (drop j hp) then Inl Unexpected_Left
      else if CHR '']'' \<in> set (drop k hp) then Inl Unexpected_Right
      else Inr (host, drop (Suc i) hp))"

definition SplitHostPort :: "string \<Rightarrow> addr_error + string \<times> string" where
  "SplitHostPort hp =
     (case last_index_of CHR '':'' hp of
        None \<Rightarrow> Inl Missing_Port
      | Some i \<Rightarrow>
          if hd hp = CHR ''['' then
            (case index_of CHR '']'' hp of
               None \<Rightarrow> Inl Missing_Bracket
             | Some e \<Rightarrow>
                 if Suc e = length hp then Inl Missing_Port
                 else if Suc e = i then split_finish hp (drop 1 (take e hp)) i 1 (Suc e)
                 else if hp ! Suc e = CHR '':'' then Inl Too_Many_Colons
                 else Inl Missing_Port)
          else if CHR '':'' \<in> set (take i hp) then Inl Too_Many_Colons
          else split_finish hp (take i hp) i 0 0)"

lemma last_index_of_append:
  "c \<notin> set p \<Longrightarrow> last_index_of c (h @ c # p) = Some (length h)"
  by (simp add: last_index_of_def takeWhile_append)

text \<open>A host with a port splits back into the two; a host without one is an error.\<close>

definition plain :: "string \<Rightarrow> bool" where
  "plain s \<longleftrightarrow> CHR '':'' \<notin> set s \<and> CHR ''['' \<notin> set s \<and> CHR '']'' \<notin> set s"

lemma SplitHostPort_join:
  assumes "plain h" "plain p"
  shows "SplitHostPort (h @ '':'' @ p) = Inr (h, p)"
proof -
  have "last_index_of CHR '':'' (h @ '':'' @ p) = Some (length h)"
    using assms by (simp add: last_index_of_append plain_def)
  moreover have "hd (h @ '':'' @ p) \<noteq> CHR ''[''"
    using assms by (cases h) (auto simp: plain_def)
  ultimately show ?thesis
    using assms by (simp add: SplitHostPort_def split_finish_def plain_def)
qed

lemma SplitHostPort_no_port: "CHR '':'' \<notin> set h \<Longrightarrow> SplitHostPort h = Inl Missing_Port"
  by (simp add: SplitHostPort_def last_index_of_def)

text \<open>The bracketed form of an IPv6 literal.\<close>

lemma SplitHostPort_bracket:
  assumes "CHR ''['' \<notin> set h" "CHR '']'' \<notin> set h" "plain p"
  shows "SplitHostPort (''['' @ h @ '']:'' @ p) = Inr (h, p)"
proof -
  let ?hp = "''['' @ h @ '']:'' @ p"
  have "last_index_of CHR '':'' ?hp = Some (length h + 2)"
    using last_index_of_append [of "CHR '':''" p "''['' @ h @ '']''"] assms by (simp add: plain_def)
  moreover have "takeWhile (\<lambda>x. x \<noteq> CHR '']'') (h @ CHR '']'' # CHR '':'' # p) = h"
    using assms by (subst takeWhile_append2) auto
  then have "index_of CHR '']'' ?hp = Some (length h + 1)"
    by (simp add: index_of_def)
  ultimately show ?thesis
    using assms by (simp add: SplitHostPort_def split_finish_def plain_def)
qed

section \<open>IPv4 literals\<close>

definition is_digit :: "char \<Rightarrow> bool" where
  [char_class]: "is_digit c \<longleftrightarrow> 48 \<le> ord c \<and> ord c \<le> 57"

fun v4_loop :: "string \<Rightarrow> char option \<Rightarrow> nat \<Rightarrow> nat \<Rightarrow> nat list \<Rightarrow> nat list option" where
  "v4_loop [] prev v digits fields =
     (if length fields < 3 then None else Some (fields @ [v]))"
| "v4_loop (c # s) prev v digits fields =
     (if is_digit c then
        (if digits = 1 \<and> v = 0 then None
         else if 255 < v * 10 + (ord c - 48) then None
         else v4_loop s (Some c) (v * 10 + (ord c - 48)) (Suc digits) fields)
      else if c = CHR ''.'' then
        (if prev = None \<or> s = [] \<or> prev = Some CHR ''.'' then None
         else if length fields = 3 then None
         else v4_loop s (Some c) 0 0 (fields @ [v]))
      else None)"

definition parse_v4_fields :: "string \<Rightarrow> nat list option" where
  "parse_v4_fields s = v4_loop s None 0 0 []"

definition parse_v4 :: "string \<Rightarrow> nat list option" where
  "parse_v4 s = map_option (\<lambda>fs. replicate 10 0 @ [255, 255] @ fs) (parse_v4_fields s)"

section \<open>IPv6 literals\<close>

definition hex_val :: "char \<Rightarrow> nat option" where
  "hex_val c =
     (if 48 \<le> ord c \<and> ord c \<le> 57 then Some (ord c - 48)
      else if 97 \<le> ord c \<and> ord c \<le> 102 then Some (ord c - 97 + 10)
      else if 65 \<le> ord c \<and> ord c \<le> 70 then Some (ord c - 65 + 10)
      else None)"

fun hex_run :: "nat \<Rightarrow> nat \<Rightarrow> string \<Rightarrow> (nat \<times> nat \<times> string) option" where
  "hex_run off acc [] = Some (off, acc, [])"
| "hex_run off acc (c # s) =
     (case hex_val c of
        None \<Rightarrow> Some (off, acc, c # s)
      | Some d \<Rightarrow>
          if 3 < off then None
          else if 65535 < acc * 16 + d then None
          else hex_run (Suc off) (acc * 16 + d) s)"

text \<open>One round per 16-bit group; \<open>bs\<close> holds the bytes so far, \<open>ell\<close> the place of \<open>::\<close>.\<close>

function v6_loop ::
  "nat list \<Rightarrow> nat option \<Rightarrow> string \<Rightarrow> (nat list \<times> nat option \<times> string) option" where
  "v6_loop bs ell s =
     (if 16 \<le> length bs then Some (bs, ell, s)
      else
        (case hex_run 0 0 s of
           None \<Rightarrow> None
         | Some (off, acc, rest) \<Rightarrow>
             if off = 0 then None
             else if rest \<noteq> [] \<and> hd rest = CHR ''.'' then
               (if ell = None \<and> length bs \<noteq> 12 then None
                else if 16 < length bs + 4 then None
                else map_option (\<lambda>fs. (bs @ fs, ell, [])) (parse_v4_fields s))
             else
               (let bs' = bs @ [acc div 256, acc mod 256] in
                case rest of
                  [] \<Rightarrow> Some (bs', ell, [])
                | c # r \<Rightarrow>
                    if c \<noteq> CHR '':'' then None
                    else if r = [] then None
                    else if hd r = CHR '':'' then
                      (if ell \<noteq> None then None
                       else if tl r = [] then Some (bs', Some (length bs'), [])
                       else v6_loop bs' (Some (length bs')) (tl r))
                    else v6_loop bs' ell r)))"
  by pat_completeness auto
termination
  by (relation "measure (\<lambda>(bs, ell, s). 16 - length bs)") auto

declare v6_loop.simps [simp del]

definition v6_finish :: "(nat list \<times> nat option \<times> string) option \<Rightarrow> nat list option" where
  "v6_finish r =
     (case r of
        None \<Rightarrow> None
      | Some (bs, ell, s) \<Rightarrow>
          if s \<noteq> [] then None
          else if length bs < 16 then
            (case ell of
               None \<Rightarrow> None
             | Some e \<Rightarrow> Some (take e bs @ replicate (16 - length bs) 0 @ drop e bs))
          else if ell \<noteq> None then None
          else Some bs)"

text \<open>\<open>net.ParseIP\<close> rejects every address with a zone, so \<open>%\<close> never succeeds.\<close>

definition parse_v6 :: "string \<Rightarrow> nat list option" where
  "parse_v6 s =
     (if CHR ''%'' \<in> set s then None
      else if take 2 s = ''::'' then
        (if drop 2 s = [] then Some (replicate 16 0)
         else v6_finish (v6_loop [] (Some 0) (drop 2 s)))
      else v6_finish (v6_loop [] None s))"

section \<open>Parsing, printing, classification\<close>

definition ParseIP :: "string \<Rightarrow> nat list option" where
  "ParseIP s =
     (case filter (\<lambda>c. c \<in> {CHR ''.'', CHR '':'', CHR ''%''}) s of
        [] \<Rightarrow> None
      | c # _ \<Rightarrow>
          if c = CHR ''.'' then parse_v4 s else if c = CHR '':'' then parse_v6 s else None)"

definition To4 :: "nat list \<Rightarrow> nat list option" where
  "To4 ip = (if take 12 ip = replicate 10 0 @ [255, 255] then Some (drop 12 ip) else None)"

definition IsLoopback :: "nat list \<Rightarrow> bool" where
  "IsLoopback ip =
     (case To4 ip of Some ip4 \<Rightarrow> ip4 ! 0 = 127 | None \<Rightarrow> ip = replicate 15 0 @ [1])"

definition v4_string :: "nat list \<Rightarrow> string" where
  "v4_string b =
     nat_to_dec (b ! 0) @ ''.'' @ nat_to_dec (b ! 1) @ ''.'' @ nat_to_dec (b ! 2) @ ''.''
       @ nat_to_dec (b ! 3)"

section \<open>The characters of an address\<close>

definition ip_char :: "char \<Rightarrow> bool" where
  [char_class]: "ip_char c \<longleftrightarrow>
     (46 \<le> ord c \<and> ord c \<le> 58 \<and> ord c \<noteq> 47) \<or> (65 \<le> ord c \<and> ord c \<le> 70)
     \<or> (97 \<le> ord c \<and> ord c \<le> 102)"

lemma v4_loop_chars: "v4_loop s prev v digits fields = Some fs \<Longrightarrow> list_all ip_char s"
proof (induction s prev v digits fields rule: v4_loop.induct)
  case (2 c s prev v digits fields)
  then show ?case
    by (cases "is_digit c") (auto simp: is_digit_def ip_char_def split: if_splits)
qed simp

lemma hex_val_char: "hex_val c = Some d \<Longrightarrow> ip_char c"
  by (auto simp: hex_val_def ip_char_def split: if_splits)

lemma hex_run_chars:
  "hex_run off acc s = Some (off', acc', rest) \<Longrightarrow> list_all ip_char rest \<Longrightarrow> list_all ip_char s"
proof (induction off acc s rule: hex_run.induct)
  case (2 off acc c s)
  then show ?case
    by (cases "hex_val c") (auto dest: hex_val_char split: if_splits)
qed simp

lemma v6_loop_chars: "v6_loop bs ell s = Some (bs', ell', []) \<Longrightarrow> list_all ip_char s"
proof (induction "16 - length bs" arbitrary: bs ell s rule: less_induct)
  case less
  show ?case
  proof (cases "16 \<le> length bs")
    case True
    with less.prems show ?thesis by (simp add: v6_loop.simps)
  next
    case short: False
    then obtain off acc rest where run: "hex_run 0 0 s = Some (off, acc, rest)"
      using less.prems by (auto simp: v6_loop.simps [of bs ell s] split: option.splits)
    show ?thesis
    proof (cases rest)
      case Nil
      with hex_run_chars [OF run] show ?thesis by simp
    next
      case (Cons c r)
      show ?thesis
      proof (cases "c = CHR ''.''")
        case True
        with less.prems short run Cons obtain fs where "parse_v4_fields s = Some fs"
          by (auto simp: v6_loop.simps [of bs ell s] split: if_splits)
        then show ?thesis unfolding parse_v4_fields_def by (rule v4_loop_chars)
      next
        case False
        note step = less.prems [unfolded v6_loop.simps [of bs ell s]]
        have c: "c = CHR '':''" "off \<noteq> 0" "r \<noteq> []"
          using step short run Cons False by (auto simp: Let_def split: if_splits)
        let ?bs = "bs @ [acc div 256, acc mod 256]"
        have smaller: "16 - length ?bs < 16 - length bs" using short by simp
        have "list_all ip_char r"
        proof (cases "hd r = CHR '':''")
          case True
          with step short run Cons c have
            "tl r = [] \<or> v6_loop (bs @ [acc div 256, acc mod 256]) (Some (length bs + 2)) (tl r)
               = Some (bs', ell', [])"
            by (auto simp: Let_def split: if_splits)
          then have "list_all ip_char (tl r)" using less.hyps [OF smaller] by auto
          with True c(3) show ?thesis by (cases r) (simp_all add: ip_char_def)
        next
          case other: False
          with step short run Cons c have
            "v6_loop (bs @ [acc div 256, acc mod 256]) ell r = Some (bs', ell', [])"
            by (simp add: Let_def)
          with less.hyps [OF smaller] show ?thesis by blast
        qed
        with c(1) Cons have "list_all ip_char rest" by (simp add: ip_char_def)
        with hex_run_chars [OF run] show ?thesis .
      qed
    qed
  qed
qed

lemma v6_finish_done: "v6_finish r = Some ip \<Longrightarrow> \<exists>bs ell. r = Some (bs, ell, [])"
  by (auto simp: v6_finish_def split: option.splits if_splits)

lemma parse_v6_chars: "parse_v6 s = Some ip \<Longrightarrow> list_all ip_char s"
proof -
  assume p: "parse_v6 s = Some ip"
  show ?thesis
  proof (cases "take 2 s = ''::''")
    case True
    have "list_all ip_char (drop 2 s)"
    proof (cases "drop 2 s = []")
      case True then show ?thesis by simp
    next
      case False
      with p \<open>take 2 s = ''::''\<close> show ?thesis
        using v6_finish_done v6_loop_chars by (fastforce simp: parse_v6_def split: if_splits)
    qed
    moreover have "s = ''::'' @ drop 2 s" using True by (metis append_take_drop_id)
    ultimately have "s = CHR '':'' # CHR '':'' # drop 2 s" "list_all ip_char (drop 2 s)" by simp_all
    moreover have "ip_char CHR '':''" by (simp add: ip_char_def)
    ultimately have "list_all ip_char (CHR '':'' # CHR '':'' # drop 2 s)"
      unfolding list.pred_inject by blast
    then show ?thesis using \<open>s = CHR '':'' # CHR '':'' # drop 2 s\<close> by (rule ssubst [rotated])
  next
    case False
    with p show ?thesis
      using v6_finish_done v6_loop_chars by (fastforce simp: parse_v6_def split: if_splits)
  qed
qed

lemma ParseIP_chars: "ParseIP s = Some ip \<Longrightarrow> list_all ip_char s"
  by (auto simp: ParseIP_def parse_v4_def parse_v4_fields_def dest: v4_loop_chars parse_v6_chars
      split: list.splits if_splits)

lemma ip_char_plain: "ip_char c \<Longrightarrow> ord c < 128 \<and> \<not> is_space (ord c)"
  by (auto simp: ip_char_def is_space_def)

lemma ParseIP_trimmed: "ParseIP s = Some ip \<Longrightarrow> trim_space s = s"
  by (rule trim_space_none) (auto simp: list_all_iff dest!: ParseIP_chars ip_char_plain)

end
