(* ===== verification/Http.thy ===== *)
theory Http
  imports Go_Net
begin

text \<open>
  The part of Go's \<open>net/http\<close>, \<open>net/textproto\<close> and \<open>path\<close> that tunnl uses: header maps with
  canonical keys, the responses its handlers write, \<open>path.Clean\<close> and the dispatch of
  \<open>http.ServeMux\<close>. A header is an association list in the order a \<open>range\<close> loop visits it.
\<close>

section \<open>Canonical header keys\<close>

definition header_byte :: "char \<Rightarrow> bool" where
  [char_class]: "header_byte c \<longleftrightarrow>
     (48 \<le> ord c \<and> ord c \<le> 57) \<or> (65 \<le> ord c \<and> ord c \<le> 90) \<or> (97 \<le> ord c \<and> ord c \<le> 122)
     \<or> ord c \<in> {33, 35, 36, 37, 38, 39, 42, 43, 45, 46, 94, 95, 96, 124, 126}"

definition upper_char :: "char \<Rightarrow> char" where
  "upper_char c = (if 97 \<le> ord c \<and> ord c \<le> 122 then char_of (ord c - 32) else c)"

fun canon_loop :: "bool \<Rightarrow> string \<Rightarrow> string" where
  "canon_loop upper [] = []"
| "canon_loop upper (c # s) =
     (let c' = (if upper then upper_char c else lower_char c) in c' # canon_loop (c' = CHR ''-'') s)"

definition canonical_key :: "string \<Rightarrow> string" where
  "canonical_key s = (if list_all header_byte s then canon_loop True s else s)"

section \<open>Header maps\<close>

type_synonym header = "(string \<times> string list) list"

definition header_values :: "string \<Rightarrow> header \<Rightarrow> string list" where
  "header_values k h = (case map_of h (canonical_key k) of None \<Rightarrow> [] | Some vs \<Rightarrow> vs)"

definition header_get :: "string \<Rightarrow> header \<Rightarrow> string" where
  "header_get k h = (case header_values k h of [] \<Rightarrow> [] | v # _ \<Rightarrow> v)"

definition header_del :: "string \<Rightarrow> header \<Rightarrow> header" where
  "header_del k h = AList.delete (canonical_key k) h"

definition header_set :: "string \<Rightarrow> string \<Rightarrow> header \<Rightarrow> header" where
  "header_set k v h = AList.update (canonical_key k) [v] h"

definition header_add :: "string \<Rightarrow> string \<Rightarrow> header \<Rightarrow> header" where
  "header_add k v h = AList.update (canonical_key k) (header_values k h @ [v]) h"

lemma map_of_header_del [simp]:
  "map_of (header_del k h) k' = (if k' = canonical_key k then None else map_of h k')"
  by (simp add: header_del_def)

lemma map_of_header_set [simp]:
  "map_of (header_set k v h) k' = (if k' = canonical_key k then Some [v] else map_of h k')"
  by (simp add: header_set_def)

lemma map_of_header_add [simp]:
  "map_of (header_add k v h) k' =
     (if k' = canonical_key k then Some (header_values k h @ [v]) else map_of h k')"
  by (simp add: header_add_def)

lemma map_of_dels:
  "map_of (fold (\<lambda>n h. header_del n h) ns h) k =
     (if k \<in> canonical_key ` set ns then None else map_of h k)"
  by (induction ns arbitrary: h) auto

section \<open>Requests and responses\<close>

text \<open>
  \<open>rq_path\<close>, \<open>rq_raw_path\<close> and \<open>rq_query\<close> are \<open>Path\<close>, \<open>RawPath\<close> and \<open>RawQuery\<close> of the request's URL;
  the body is the finished byte stream.
\<close>

record request =
  rq_method :: string
  rq_path :: string
  rq_raw_path :: string
  rq_query :: string
  rq_host :: string
  rq_header :: header
  rq_body :: string
  rq_remote_addr :: string
  rq_tls :: bool

record response =
  rs_status :: nat
  rs_header :: header
  rs_body :: string

text \<open>\<open>http.Error\<close> on a writer whose header is \<open>h\<close>.\<close>

definition http_error :: "header \<Rightarrow> string \<Rightarrow> nat \<Rightarrow> response" where
  "http_error h msg code =
     \<lparr>rs_status = code,
      rs_header = header_set ''X-Content-Type-Options'' ''nosniff''
        (header_set ''Content-Type'' ''text/plain; charset=utf-8''
          (header_del ''Content-Length'' h)),
      rs_body = msg @ [CHR 0x0A]\<rparr>"

section \<open>Paths\<close>

fun join_with :: "char \<Rightarrow> string list \<Rightarrow> string" where
  "join_with sep [] = []"
| "join_with sep [w] = w"
| "join_with sep (w # ws) = w @ sep # join_with sep ws"

text \<open>\<open>path.Clean\<close>, element by element: the elements kept so far are a stack.\<close>

definition clean_step :: "bool \<Rightarrow> string \<Rightarrow> string list \<Rightarrow> string list" where
  "clean_step rooted c stack =
     (if c = [] \<or> c = ''.'' then stack
      else if c \<noteq> ''..'' then c # stack
      else (case stack of
              [] \<Rightarrow> if rooted then [] else [''..'']
            | t # ts \<Rightarrow> if t = ''..'' then ''..'' # t # ts else ts))"

definition path_elements :: "bool \<Rightarrow> string \<Rightarrow> string list" where
  "path_elements rooted p = rev (fold (clean_step rooted) (split_on CHR ''/'' p) [])"

definition path_clean :: "string \<Rightarrow> string" where
  "path_clean p =
     (if p = [] then ''.''
      else if hd p = CHR ''/'' then CHR ''/'' # join_with CHR ''/'' (path_elements True p)
      else (let q = join_with CHR ''/'' (path_elements False p) in if q = [] then ''.'' else q))"

text \<open>\<open>path.Join\<close> of two elements.\<close>

definition path_join :: "string \<Rightarrow> string \<Rightarrow> string" where
  "path_join a b =
     (let es = filter (\<lambda>e. e \<noteq> []) [a, b]
      in if es = [] then [] else path_clean (join_with CHR ''/'' es))"

text \<open>The path a \<open>ServeMux\<close> compares the request path with (\<open>cleanPath\<close>).\<close>

definition mux_clean :: "string \<Rightarrow> string" where
  "mux_clean p =
     (if p = [] then ''/''
      else
        (let p' = (if hd p \<noteq> CHR ''/'' then CHR ''/'' # p else p); np = path_clean p' in
         if last p' = CHR ''/'' \<and> np \<noteq> ''/'' then np @ ''/'' else np))"

end
