(* ===== verification/Go_Encoding.thy ===== *)
theory Go_Encoding
  imports Go_Net
begin

text \<open>
  The part of Go's \<open>encoding/base64\<close>, \<open>net/url\<close>, \<open>net/netip\<close> and \<open>strings\<close> that tunnl uses to
  write secrets, API paths and addresses.
\<close>

section \<open>Unpadded base64 for URLs\<close>

definition b64_alphabet :: string where
  "b64_alphabet = ''ABCDEFGHIJKLMNOPQRSTUVWXYZabcdefghijklmnopqrstuvwxyz0123456789-_''"

definition b64_char :: "nat \<Rightarrow> char" where
  "b64_char n = b64_alphabet ! (n mod 64)"

fun b64_encode :: "8 word list \<Rightarrow> string" where
  "b64_encode [] = []"
| "b64_encode [a] = [b64_char (unat a div 4), b64_char (unat a mod 4 * 16)]"
| "b64_encode [a, b] =
     [b64_char (unat a div 4), b64_char (unat a mod 4 * 16 + unat b div 16),
      b64_char (unat b mod 16 * 4)]"
| "b64_encode (a # b # c # bs) =
     [b64_char (unat a div 4), b64_char (unat a mod 4 * 16 + unat b div 16),
      b64_char (unat b mod 16 * 4 + unat c div 64), b64_char (unat c mod 64)] @ b64_encode bs"

lemma b64_length: "length (b64_encode bs) = (4 * length bs + 2) div 3"
  by (induction bs rule: b64_encode.induct) auto

lemma b64_alphabet_distinct: "distinct b64_alphabet" "length b64_alphabet = 64"
  by (simp_all add: b64_alphabet_def)

lemma b64_char_eq: "b64_char m = b64_char n \<longleftrightarrow> m mod 64 = n mod 64"
  unfolding b64_char_def using b64_alphabet_distinct
  by (simp add: nth_eq_iff_index_eq)

lemma byte_less [simp]: "unat (a :: 8 word) < 256"
  by (rule order_less_le_trans [OF unsigned_less]) simp

text \<open>Distinct bytes are encoded differently: the four digits of three bytes determine them.\<close>

lemma base_digits:
  assumes "a div n = a' div n" "a mod n = a' mod (n::nat)"
  shows "a = a'"
  by (metis assms div_mult_mod_eq)

lemma byte_eq:
  fixes a a' :: "8 word"
  assumes "unat a div n = unat a' div n" "unat a mod n = unat a' mod n"
  shows "a = a'"
  using base_digits [OF assms] by (simp add: word_unat_eq_iff)

lemma two_digits:
  assumes "u * 16 + v = u' * 16 + (v'::nat)" "v < 16" "v' < 16"
  shows "u = u' \<and> v = v'"
proof -
  have "u = (u * 16 + v) div 16" "u' = (u' * 16 + v') div 16" using assms(2,3) by simp_all
  with assms(1) have "u = u'" by simp
  with assms(1) show ?thesis by simp
qed

lemma two_digits4:
  assumes "u * 4 + v = u' * 4 + (v'::nat)" "v < 4" "v' < 4"
  shows "u = u' \<and> v = v'"
proof -
  have "u = (u * 4 + v) div 4" "u' = (u' * 4 + v') div 4" using assms(2,3) by simp_all
  with assms(1) have "u = u'" by simp
  with assms(1) show ?thesis by simp
qed

lemma byte_bounds: "unat (a :: 8 word) div 4 < 64" "unat a div 16 < 16" "unat a div 64 < 4"
  using byte_less [of a] by (simp_all add: less_mult_imp_div_less)

lemma first_digit:
  fixes a a' :: "8 word"
  assumes "b64_char (unat a div 4) = b64_char (unat a' div 4)"
  shows "unat a div 4 = unat a' div 4"
  using assms mod_less [OF byte_bounds(1)] by (simp add: b64_char_eq)

lemma second_digit:
  fixes a b a' b' :: "8 word"
  assumes "b64_char (unat a mod 4 * 16 + unat b div 16) = b64_char (unat a' mod 4 * 16 + unat b' div 16)"
  shows "unat a mod 4 = unat a' mod 4 \<and> unat b div 16 = unat b' div 16"
proof -
  have "x mod 4 * 16 + y < 64" if "y < 16" for x y :: nat
  proof -
    have "x mod 4 \<le> 3" using mod_less_divisor [of 4 x] by linarith
    then show ?thesis using that by linarith
  qed
  then have "unat a mod 4 * 16 + unat b div 16 = unat a' mod 4 * 16 + unat b' div 16"
    using assms byte_bounds(2) by (simp add: b64_char_eq)
  then show ?thesis by (rule two_digits) (rule byte_bounds(2))+
qed

lemma third_digit:
  fixes b c b' c' :: "8 word"
  assumes "b64_char (unat b mod 16 * 4 + unat c div 64) = b64_char (unat b' mod 16 * 4 + unat c' div 64)"
  shows "unat b mod 16 = unat b' mod 16 \<and> unat c div 64 = unat c' div 64"
proof -
  have "x mod 16 * 4 + y < 64" if "y < 4" for x y :: nat
  proof -
    have "x mod 16 \<le> 15" using mod_less_divisor [of 16 x] by linarith
    then show ?thesis using that by linarith
  qed
  then have "unat b mod 16 * 4 + unat c div 64 = unat b' mod 16 * 4 + unat c' div 64"
    using assms byte_bounds(3) by (simp add: b64_char_eq)
  then show ?thesis by (rule two_digits4) (rule byte_bounds(3))+
qed

lemma b64_inject: "length bs = length bs' \<Longrightarrow> b64_encode bs = b64_encode bs' \<longleftrightarrow> bs = bs'"
proof (induction bs arbitrary: bs' rule: b64_encode.induct)
  case (2 a)
  then obtain a' where bs': "bs' = [a']" by (cases bs') auto
  have "a = a'" if "b64_encode [a] = b64_encode [a']"
  proof -
    have "unat a div 4 = unat a' div 4" using that by (intro first_digit) simp
    moreover have "unat a mod 4 = unat a' mod 4"
      using that second_digit [of a 0 a' 0] by simp
    ultimately show ?thesis using byte_eq [of a 4 a'] by simp
  qed
  with bs' show ?case by auto
next
  case (3 a b)
  then obtain a' b' where bs': "bs' = [a', b']" by (cases bs'; cases "tl bs'") auto
  have "a = a' \<and> b = b'" if "b64_encode [a, b] = b64_encode [a', b']"
  proof -
    have "unat a div 4 = unat a' div 4" using that by (intro first_digit) simp
    moreover have "unat a mod 4 = unat a' mod 4 \<and> unat b div 16 = unat b' div 16"
      using that by (intro second_digit) simp
    moreover have "unat b mod 16 = unat b' mod 16"
      using that third_digit [of b 0 b' 0] by simp
    ultimately show ?thesis using byte_eq [of a 4 a'] byte_eq [of b 16 b'] by simp
  qed
  with bs' show ?case by auto
next
  case (4 a b c bs)
  then obtain a' b' c' cs where bs': "bs' = a' # b' # c' # cs"
    by (cases bs'; cases "tl bs'"; cases "tl (tl bs')") auto
  have "a = a' \<and> b = b' \<and> c = c'" if "b64_encode (a # b # c # bs) = b64_encode (a' # b' # c' # cs)"
  proof -
    have "unat a div 4 = unat a' div 4" using that by (intro first_digit) simp
    moreover have "unat a mod 4 = unat a' mod 4 \<and> unat b div 16 = unat b' div 16"
      using that by (intro second_digit) simp
    moreover have "unat b mod 16 = unat b' mod 16 \<and> unat c div 64 = unat c' div 64"
      using that by (intro third_digit) simp
    moreover have "unat c mod 64 = unat c' mod 64"
      using that by (simp add: b64_char_eq)
    ultimately show ?thesis
      using byte_eq [of a 4 a'] byte_eq [of b 16 b'] byte_eq [of c 64 c'] by simp
  qed
  moreover have "length bs = length cs" using 4(2) bs' by simp
  ultimately show ?case using 4(1) [of cs] bs' by auto
qed simp

section \<open>Escaping in URLs\<close>

definition unreserved_char :: "char \<Rightarrow> bool" where
  [char_class]: "unreserved_char c \<longleftrightarrow>
     (48 \<le> ord c \<and> ord c \<le> 57) \<or> (65 \<le> ord c \<and> ord c \<le> 90) \<or> (97 \<le> ord c \<and> ord c \<le> 122)
     \<or> c \<in> {CHR ''-'', CHR ''_'', CHR ''.'', CHR ''~''}"

definition percent :: "char \<Rightarrow> string" where
  "percent c = [CHR 0x25, ''0123456789ABCDEF'' ! (ord c div 16), ''0123456789ABCDEF'' ! (ord c mod 16)]"

definition query_escape :: "string \<Rightarrow> string" where
  "query_escape s = concat (map (\<lambda>c. if unreserved_char c then [c]
     else if c = CHR '' '' then ''+'' else percent c) s)"

definition path_escape :: "string \<Rightarrow> string" where
  "path_escape s = concat (map (\<lambda>c. if unreserved_char c \<or> c \<in> {CHR 0x24, CHR ''&'', CHR ''+'',
     CHR ''='', CHR '':'', CHR ''@''} then [c] else percent c) s)"

section \<open>Addresses as text\<close>

fun v6_groups :: "nat list \<Rightarrow> nat list" where
  "v6_groups (a # b # bs) = (a * 256 + b) # v6_groups bs"
| "v6_groups bs = []"

definition hex_group :: "nat \<Rightarrow> string" where
  "hex_group v = (let ds = map hex_digit [v div 4096, v div 256, v div 16, v];
                      d = dropWhile (\<lambda>c. c = CHR ''0'') ds
                  in if d = [] then ''0'' else d)"

text \<open>The first longest run of at least two zero groups, as start and length.\<close>

definition zero_run :: "nat list \<Rightarrow> nat \<Rightarrow> nat" where
  "zero_run gs i = length (takeWhile (\<lambda>g. g = 0) (drop i gs))"

definition longest_zeros :: "nat list \<Rightarrow> (nat \<times> nat) option" where
  "longest_zeros gs =
     fold (\<lambda>i best. let l = zero_run gs i in
        if 2 \<le> l \<and> l > (case best of None \<Rightarrow> 0 | Some (_, k) \<Rightarrow> k) then Some (i, l) else best)
       [0..<length gs] None"

fun join_groups :: "nat list \<Rightarrow> string" where
  "join_groups [] = []"
| "join_groups [g] = hex_group g"
| "join_groups (g # gs) = hex_group g @ CHR '':'' # join_groups gs"

definition v6_string :: "nat list \<Rightarrow> string" where
  "v6_string ip =
     (let gs = v6_groups ip in
      case longest_zeros gs of
        None \<Rightarrow> join_groups gs
      | Some (i, l) \<Rightarrow> join_groups (take i gs) @ ''::'' @ join_groups (drop (i + l) gs))"

definition ip_string :: "nat list \<Rightarrow> string" where
  "ip_string ip = (case To4 ip of Some b \<Rightarrow> v4_string b | None \<Rightarrow> v6_string ip)"

section \<open>Case folding\<close>

text \<open>\<open>strings.EqualFold\<close>; \<open>sf\<close> maps a rune to the representative of its folding orbit.\<close>

definition equal_fold :: "(rune \<Rightarrow> rune) \<Rightarrow> string \<Rightarrow> string \<Rightarrow> bool" where
  "equal_fold sf s t \<longleftrightarrow> map sf (runes s) = map sf (runes t)"

end
