(* ===== verification/Http_Server.thy ===== *)
theory Http_Server
  imports Http Go_Encoding
begin

text \<open>
  The part of Go's \<open>net/http\<close> and \<open>net/url\<close> the admin panel uses: request cookies, the
  \<open>Set-Cookie\<close> line, redirects, and the matching of \<open>ServeMux\<close> patterns on the segments of the
  escaped path.
\<close>

section \<open>URLs\<close>

text \<open>The fields of a parsed \<open>url.URL\<close> the code reads, and its \<open>String()\<close>.\<close>

record url =
  u_scheme :: string
  u_host :: string
  u_path :: string
  u_text :: string

section \<open>Cookies\<close>

text \<open>\<open>textproto.TrimString\<close> and \<open>strings.Cut\<close> with a one-byte separator.\<close>

definition ascii_space :: "char \<Rightarrow> bool" where
  "ascii_space c \<longleftrightarrow> ord c \<in> {32, 9, 10, 13}"

definition trim_ascii :: "string \<Rightarrow> string" where
  "trim_ascii s = rev (dropWhile ascii_space (rev (dropWhile ascii_space s)))"

definition cut :: "char \<Rightarrow> string \<Rightarrow> string \<times> string" where
  "cut sep s = (takeWhile (\<lambda>c. c \<noteq> sep) s, drop 1 (dropWhile (\<lambda>c. c \<noteq> sep) s))"

text \<open>Bytes a cookie value may hold, and the value without one pair of quotes around it.\<close>

definition cookie_byte :: "char \<Rightarrow> bool" where
  [char_class]: "cookie_byte c \<longleftrightarrow> 32 \<le> ord c \<and> ord c < 127 \<and> ord c \<notin> {34, 59, 92}"

definition cookie_value :: "string \<Rightarrow> string option" where
  "cookie_value raw =
     (let v = (if 1 < length raw \<and> ord (hd raw) = 34 \<and> ord (last raw) = 34
               then butlast (tl raw) else raw)
      in if list_all cookie_byte v then Some v else None)"

text \<open>The cookies called \<open>name\<close> of one \<open>Cookie\<close> line; parts that do not parse are skipped.\<close>

definition cookie_part :: "string \<Rightarrow> string \<Rightarrow> string option" where
  "cookie_part name part =
     (let part = trim_ascii part; n = trim_ascii (fst (cut CHR ''='' part))
      in if n \<noteq> name then None else cookie_value (snd (cut CHR ''='' part)))"

text \<open>
  \<open>request.Cookie(name)\<close> for a name that is a token: the first one that parses. The limit on the
  number of cookies in one request is not modelled.
\<close>

definition cookie :: "string \<Rightarrow> header \<Rightarrow> string option" where
  "cookie name h =
     (case List.map_filter (cookie_part name)
        (concat (map (split_on CHR '';'') (header_values ''Cookie'' h))) of
        [] \<Rightarrow> None
      | v # _ \<Rightarrow> Some v)"

text \<open>
  The line \<open>http.SetCookie\<close> adds for a cookie with path \<open>/\<close>, \<open>HttpOnly\<close> and \<open>SameSite=Strict\<close>
  whose value needs no quoting; a negative age is written as zero.
\<close>

definition set_cookie :: "string \<Rightarrow> string \<Rightarrow> int \<Rightarrow> bool \<Rightarrow> string" where
  "set_cookie name v max_age secure =
     name @ ''='' @ v @ ''; Path=/'' @ ''; Max-Age='' @ (if 0 < max_age then itoa max_age else ''0'')
       @ ''; HttpOnly'' @ (if secure then ''; Secure'' else []) @ ''; SameSite=Strict''"

section \<open>Escaped paths\<close>

definition hex_digit_val :: "char \<Rightarrow> nat" where
  "hex_digit_val c = (case hex_val c of Some d \<Rightarrow> d | None \<Rightarrow> 0)"

text \<open>\<open>url.PathUnescape\<close>; \<open>None\<close> is its error.\<close>

fun unescape :: "string \<Rightarrow> string option" where
  "unescape [] = Some []"
| "unescape (c # s) =
     (if ord c = 37 then
        (case s of
           a # b # r \<Rightarrow>
             if hex_val a = None \<or> hex_val b = None then None
             else map_option ((#) (char_of (16 * hex_digit_val a + hex_digit_val b))) (unescape r)
         | _ \<Rightarrow> None)
      else map_option ((#) c) (unescape s))"

text \<open>
  \<open>shouldEscape\<close> and \<open>validEncoded\<close> for paths, \<open>URL.setPath\<close> (the decoded path, and the raw one when
  it is not the default encoding) and \<open>URL.EscapedPath\<close>.
\<close>

definition path_char :: "char \<Rightarrow> bool" where
  "path_char c \<longleftrightarrow> unreserved_char c \<or> c \<in> {CHR 0x24, CHR ''&'', CHR ''+'', CHR '','', CHR ''/'',
     CHR '':'', CHR '';'', CHR ''='', CHR ''@''}"

definition url_escape :: "string \<Rightarrow> string" where
  "url_escape s = concat (map (\<lambda>c. if path_char c then [c] else percent c) s)"

definition valid_encoded :: "string \<Rightarrow> bool" where
  "valid_encoded s = list_all (\<lambda>c. c \<in> {CHR ''!'', CHR 0x27, CHR ''('', CHR '')'', CHR ''*'', CHR ''['',
     CHR '']'', CHR 0x25} \<or> path_char c) s"

definition set_path :: "string \<Rightarrow> (string \<times> string) option" where
  "set_path p = map_option (\<lambda>path. (path, if p = url_escape path then [] else p)) (unescape p)"

definition EscapedPath :: "string \<Rightarrow> string \<Rightarrow> string" where
  "EscapedPath path raw =
     (if raw \<noteq> [] \<and> valid_encoded raw \<and> unescape raw = Some path then raw
      else if path = ''*'' then ''*''
      else url_escape path)"

text \<open>\<open>pathUnescape\<close> of \<open>ServeMux\<close>: a segment that does not unescape stands for itself.\<close>

definition path_unescape :: "string \<Rightarrow> string" where
  "path_unescape s = (case unescape s of Some t \<Rightarrow> t | None \<Rightarrow> s)"

text \<open>The segments of a clean rooted path, each unescaped; a trailing slash is the segment \<open>/\<close>.\<close>

definition path_segments :: "string \<Rightarrow> string list" where
  "path_segments p =
     map (\<lambda>s. if s = [] then ''/'' else path_unescape s) (tl (split_on CHR ''/'' p))"

section \<open>Round trip of escaped segments\<close>

lemma hex_val_upper:
  assumes "n < 16"
  shows "hex_val (''0123456789ABCDEF'' ! n) = Some n"
proof -
  have "\<forall>n \<in> set [0..<16]. hex_val (''0123456789ABCDEF'' ! n) = Some n"
    by (simp add: hex_val_def upt_conv_Cons)
  with assms show ?thesis by simp
qed

lemma ord_div_16: "ord c div 16 < 16"
proof -
  have "ord c < 256" by (metis mod_less_divisor of_char_mod_256 zero_less_numeral)
  then have "ord c < 16 * 16" by simp
  then show ?thesis by (rule less_mult_imp_div_less)
qed

lemma unescape_percent: "unescape (percent c @ s) = map_option ((#) c) (unescape s)"
proof -
  have h: "hex_val (''0123456789ABCDEF'' ! (ord c div 16)) = Some (ord c div 16)"
    "hex_val (''0123456789ABCDEF'' ! (ord c mod 16)) = Some (ord c mod 16)"
    by (simp_all add: hex_val_upper ord_div_16 del: nth_Cons_numeral)
  have "char_of (16 * (ord c div 16) + ord c mod 16) = c" by simp
  then show ?thesis by (simp add: percent_def h hex_digit_val_def)
qed

lemma unescape_escape: "unescape (path_escape s) = Some s"
proof (induction s)
  case Nil
  then show ?case by (simp add: path_escape_def)
next
  case (Cons c s)
  have "unescape (path_escape (c # s)) = map_option ((#) c) (unescape (path_escape s))"
  proof (cases "unreserved_char c \<or> c \<in> {CHR 0x24, CHR ''&'', CHR ''+'', CHR ''='', CHR '':'', CHR ''@''}")
    case True
    then have "ord c \<noteq> 37" by (auto simp: unreserved_char_def)
    with True show ?thesis by (simp add: path_escape_def)
  next
    case False
    then show ?thesis by (simp add: path_escape_def unescape_percent)
  qed
  with Cons show ?case by simp
qed

lemma path_unescape_escape [simp]: "path_unescape (path_escape s) = s"
  by (simp add: path_unescape_def unescape_escape)

lemma upper_hex_not_slash: "n < 16 \<Longrightarrow> ''0123456789ABCDEF'' ! n \<noteq> CHR ''/''"
  using hex_val_upper [of n] by (auto simp: hex_val_def)

lemma path_escape_no_slash: "CHR ''/'' \<notin> set (path_escape s)"
proof -
  have "CHR ''/'' \<notin> set (percent c)" for c
  proof -
    show ?thesis
      using upper_hex_not_slash [OF ord_div_16, of c] upper_hex_not_slash [of "ord c mod 16"]
      by (simp only: percent_def) simp
  qed
  moreover have "\<not> unreserved_char CHR ''/''" by (simp add: unreserved_char_def)
  ultimately show ?thesis by (auto simp: path_escape_def split: if_splits)
qed

lemma set_path_wire:
  assumes "set_path p = Some (path, raw)" "valid_encoded p" "path \<noteq> ''*''"
  shows "EscapedPath path raw = p"
  using assms by (cases p) (auto simp: set_path_def EscapedPath_def url_escape_def split: if_splits)

section \<open>Redirects\<close>

definition html_escape :: "string \<Rightarrow> string" where
  "html_escape s = concat (map (\<lambda>c.
     if c = CHR ''&'' then ''&amp;'' else if c = CHR ''<'' then ''&lt;''
     else if c = CHR ''>'' then ''&gt;'' else if ord c = 34 then ''&#34;''
     else if ord c = 39 then ''&#39;'' else [c]) s)"

text \<open>
  \<open>http.Redirect\<close> to a rooted URL without non-ASCII bytes, on a writer whose header is \<open>h\<close>:
  the status text goes into the body of the answer to a \<open>GET\<close>.
\<close>

definition http_redirect :: "header \<Rightarrow> string \<Rightarrow> string \<Rightarrow> nat \<Rightarrow> string \<Rightarrow> response" where
  "http_redirect h method url code text =
     (let had = header_values ''Content-Type'' h \<noteq> [];
          h1 = header_set ''Location'' url h;
          h2 = (if \<not> had \<and> (method = ''GET'' \<or> method = ''HEAD'')
                then header_set ''Content-Type'' ''text/html; charset=utf-8'' h1 else h1)
      in \<lparr>rs_status = code, rs_header = h2,
          rs_body = (if \<not> had \<and> method = ''GET''
            then ''<a href='' @ [CHR 0x22] @ html_escape url @ [CHR 0x22] @ ''>'' @ text @ ''</a>.'' @ [CHR 0x0A, CHR 0x0A]
            else [])\<rparr>)"

text \<open>
  The redirect of \<open>ServeMux\<close> to a cleaned path; the status is 301 or 307, depending on the release
  of Go.
\<close>

definition mux_redirect :: "nat \<Rightarrow> header \<Rightarrow> string \<Rightarrow> string \<Rightarrow> string \<Rightarrow> response" where
  "mux_redirect moved h method p query =
     http_redirect h method (if query = [] then url_escape p else url_escape p @ ''?'' @ query) moved
       (if moved = 301 then ''Moved Permanently'' else ''Temporary Redirect'')"

end
