(* ===== verification/Metrics.thy ===== *)
theory Metrics
  imports Complex_Main Prelude
begin

text \<open>
  \<^verbatim>\<open>internal/server/metrics.go\<close>: the process counters and the bounded history of samples.
  Counters are \<open>uint64\<close> (64-bit words, wrapping). The \<open>float64\<close> values are rational numbers:
  the arithmetic is that of the code without its rounding. What \<open>readRuntimeSnapshot\<close> reads
  from the Go runtime is an argument.
\<close>

section \<open>State\<close>

definition metricSampleInterval :: duration where
  "metricSampleInterval = 5 * second"

definition metricHistoryLimit :: nat where
  "metricHistoryLimit = 360"

record metric_sample =
  ms_timestamp :: time
  ms_active_tunnels :: int
  ms_requests_per_second :: rat
  ms_failures_per_second :: rat
  ms_bytes_per_second :: rat
  ms_cpu_percent :: rat
  ms_heap_bytes :: "64 word"
  ms_goroutines :: int

record metric_counters =
  mc_at :: time
  mc_requests :: "64 word"
  mc_failures :: "64 word"
  mc_bytes :: "64 word"
  mc_total_cpu :: rat
  mc_idle_cpu :: rat

record runtime_snapshot =
  total_cpu :: rat
  idle_cpu :: rat
  heap_bytes :: "64 word"
  system_bytes :: "64 word"
  goroutines :: int
  gc_cycles :: "32 word"

record metrics =
  started_at :: time
  total_connections :: "64 word"
  total_requests :: "64 word"
  failed_requests :: "64 word"
  response_bytes :: "64 word"
  history :: "metric_sample list"
  previous :: metric_counters

definition zero_counters :: metric_counters where
  "zero_counters = \<lparr>mc_at = zero_time, mc_requests = 0, mc_failures = 0, mc_bytes = 0,
     mc_total_cpu = 0, mc_idle_cpu = 0\<rparr>"

definition newMetrics :: "time \<Rightarrow> metrics" where
  "newMetrics now = \<lparr>started_at = now, total_connections = 0, total_requests = 0,
     failed_requests = 0, response_bytes = 0, history = [], previous = zero_counters\<rparr>"

section \<open>Operations\<close>

text \<open>\<open>time.Time.Sub\<close> saturates at the range of a 64-bit duration.\<close>

definition time_sub :: "time \<Rightarrow> time \<Rightarrow> duration" where
  "time_sub t u = max (- (2 ^ 63)) (min (2 ^ 63 - 1) (t - u))"

definition seconds_of :: "duration \<Rightarrow> rat" where
  "seconds_of d = of_int d / of_int second"

definition rate :: "64 word \<Rightarrow> 64 word \<Rightarrow> rat \<Rightarrow> rat" where
  "rate now before elapsed = of_nat (unat (now - before)) / elapsed"

definition cpu_percent :: "rat \<Rightarrow> rat \<Rightarrow> rat" where
  "cpu_percent cpu_total cpu_busy =
     (if 0 < cpu_total \<and> 0 < cpu_busy then
        (let p = cpu_busy / cpu_total * 100 in if 100 < p then 100 else p)
      else 0)"

definition current_counters :: "time \<Rightarrow> runtime_snapshot \<Rightarrow> metrics \<Rightarrow> metric_counters" where
  "current_counters now rt m = \<lparr>mc_at = now, mc_requests = total_requests m,
     mc_failures = failed_requests m, mc_bytes = response_bytes m,
     mc_total_cpu = total_cpu rt, mc_idle_cpu = idle_cpu rt\<rparr>"

definition sample_value ::
  "time \<Rightarrow> int \<Rightarrow> runtime_snapshot \<Rightarrow> metric_counters \<Rightarrow> metric_counters \<Rightarrow> metric_sample" where
  "sample_value now active rt cur prev =
     (let v = \<lparr>ms_timestamp = now, ms_active_tunnels = active, ms_requests_per_second = 0,
            ms_failures_per_second = 0, ms_bytes_per_second = 0, ms_cpu_percent = 0,
            ms_heap_bytes = heap_bytes rt, ms_goroutines = goroutines rt\<rparr>
      in if mc_at prev = zero_time then v
         else
           (let elapsed = seconds_of (time_sub now (mc_at prev));
                v1 = (if 0 < elapsed then
                        v\<lparr>ms_requests_per_second := rate (mc_requests cur) (mc_requests prev) elapsed,
                          ms_failures_per_second := rate (mc_failures cur) (mc_failures prev) elapsed,
                          ms_bytes_per_second := rate (mc_bytes cur) (mc_bytes prev) elapsed\<rparr>
                      else v);
                cpu_total = mc_total_cpu cur - mc_total_cpu prev;
                cpu_busy = cpu_total - (mc_idle_cpu cur - mc_idle_cpu prev)
            in v1\<lparr>ms_cpu_percent := cpu_percent cpu_total cpu_busy\<rparr>))"

text \<open>Go's built-in \<open>copy\<close>, and the trimming of the history buffer with it.\<close>

definition go_copy :: "'a list \<Rightarrow> 'a list \<Rightarrow> 'a list" where
  "go_copy dst src = take (length dst) src @ drop (length src) dst"

definition trim_history :: "'a list \<Rightarrow> 'a list" where
  "trim_history h =
     (if length h > metricHistoryLimit
      then take metricHistoryLimit (go_copy h (drop (length h - metricHistoryLimit) h))
      else h)"

definition record_sample ::
  "time \<Rightarrow> int \<Rightarrow> runtime_snapshot \<Rightarrow> metrics \<Rightarrow> metric_sample \<times> metrics" where
  "record_sample now active rt m =
     (let cur = current_counters now rt m;
          v = sample_value now active rt cur (previous m)
      in (v, m\<lparr>previous := cur, history := trim_history (history m @ [v])\<rparr>))"

definition latest :: "time \<Rightarrow> runtime_snapshot \<Rightarrow> metrics \<Rightarrow> metric_sample \<times> runtime_snapshot" where
  "latest now rt m =
     (if history m \<noteq> [] then (last (history m), rt)
      else (\<lparr>ms_timestamp = now, ms_active_tunnels = 0, ms_requests_per_second = 0,
             ms_failures_per_second = 0, ms_bytes_per_second = 0, ms_cpu_percent = 0,
             ms_heap_bytes = heap_bytes rt, ms_goroutines = goroutines rt\<rparr>, rt))"

definition snapshots :: "metrics \<Rightarrow> metric_sample list" where
  "snapshots m = history m"

section \<open>Lemmas\<close>

lemma trim_history_eq: "trim_history h = drop (length h - metricHistoryLimit) h"
  by (simp add: trim_history_def go_copy_def)

text \<open>Trimming at every step keeps what trimming once at the end would keep.\<close>

lemma trim_trim: "trim_history (trim_history h @ vs) = trim_history (h @ vs)"
proof (cases "length h \<le> metricHistoryLimit")
  case True
  then show ?thesis by (simp add: trim_history_eq)
next
  case False
  define k where "k = length h - metricHistoryLimit"
  define d where "d = drop k h"
  have len: "length d = metricHistoryLimit" using False by (simp add: d_def k_def)
  have n: "length h + length vs - metricHistoryLimit = length vs + k"
    "length vs + k - length h = length vs - metricHistoryLimit"
    using False by (simp_all add: k_def)
  have "trim_history (h @ vs) = drop (length vs) d @ drop (length vs - metricHistoryLimit) vs"
    by (simp add: trim_history_eq n d_def)
  also have "\<dots> = trim_history (d @ vs)"
    using len by (simp add: trim_history_eq)
  also have "d = trim_history h"
    by (simp add: trim_history_eq d_def k_def)
  finally show ?thesis by simp
qed



text \<open>A run of the sampler: the counters may change arbitrarily between two samples.\<close>

record sampler_input =
  si_now :: time
  si_active :: int
  si_runtime :: runtime_snapshot
  si_connections :: "64 word"
  si_requests :: "64 word"
  si_failures :: "64 word"
  si_bytes :: "64 word"

definition set_counters :: "sampler_input \<Rightarrow> metrics \<Rightarrow> metrics" where
  "set_counters x m = m\<lparr>total_connections := si_connections x, total_requests := si_requests x,
     failed_requests := si_failures x, response_bytes := si_bytes x\<rparr>"

fun sampler_run :: "sampler_input list \<Rightarrow> metrics \<Rightarrow> metric_sample list \<times> metrics" where
  "sampler_run [] m = ([], m)"
| "sampler_run (x # xs) m =
     (case record_sample (si_now x) (si_active x) (si_runtime x) (set_counters x m) of
        (v, m') \<Rightarrow> (case sampler_run xs m' of (vs, m'') \<Rightarrow> (v # vs, m'')))"

lemma sampler_history:
  "trim_history (history m) = history m \<Longrightarrow>
     history (snd (sampler_run xs m)) = trim_history (history m @ fst (sampler_run xs m))"
proof (induction xs arbitrary: m)
  case (Cons x xs)
  obtain v m' where r: "record_sample (si_now x) (si_active x) (si_runtime x) (set_counters x m) = (v, m')"
    by fastforce
  then have h: "history m' = trim_history (history m @ [v])"
    by (auto simp: record_sample_def Let_def set_counters_def)
  obtain vs m'' where s: "sampler_run xs m' = (vs, m'')" by fastforce
  have "trim_history (history m') = history m'"
    using trim_trim [of "history m @ [v]" "[]"] by (simp add: h)
  from Cons.IH [OF this] have "history m'' = trim_history (trim_history (history m @ [v]) @ vs)"
    by (simp add: s h)
  also have "\<dots> = trim_history (history m @ v # vs)"
    by (simp add: trim_trim)
  finally show ?case by (simp add: r s)
qed simp

section \<open>Properties\<close>

text \<open>
  The history is a bounded window: after any sequence of samples it holds exactly the last
  360 samples the sampler produced, oldest first, and never more.
\<close>

theorem history_is_last_window:
  "history (snd (sampler_run xs (newMetrics t)))
     = drop (length xs - metricHistoryLimit) (fst (sampler_run xs (newMetrics t)))
   \<and> length (history (snd (sampler_run xs (newMetrics t)))) = min (length xs) metricHistoryLimit"
proof -
  have len: "length (fst (sampler_run xs m)) = length xs" for m
    by (induction xs arbitrary: m) (auto simp: case_prod_beta)
  have "history (snd (sampler_run xs (newMetrics t)))
      = trim_history (fst (sampler_run xs (newMetrics t)))"
    using sampler_history [of "newMetrics t" xs] by (simp add: newMetrics_def trim_history_eq)
  then show ?thesis by (auto simp: trim_history_eq len)
qed



end
