(* ===== verification/Registry.thy ===== *)
theory Registry
  imports Prelude
begin

text \<open>
  \<^verbatim>\<open>internal/server/registry.go\<close>: the in-memory table of connected tunnels. A session is a
  pointer in the code: \<open>s_conn\<close> is its identity (each connection handler allocates one session
  for its own connection), and pointer comparison is equality of \<open>s_conn\<close>. Closing a
  connection is an effect: the operations return the list of \<open>CloseWithError\<close> calls they make.
  The map is an association list in the order a \<open>range\<close> loop would visit it.
\<close>

section \<open>State and operations\<close>

type_synonym conn_id = nat

record session =
  s_domain :: string
  s_token_hash :: string
  s_remote :: string
  s_connected_at :: time
  s_conn :: conn_id

record session_info =
  i_domain :: string
  i_remote :: string
  i_connected_at :: time

record close_call =
  c_conn :: conn_id
  c_code :: nat
  c_reason :: string

type_synonym registry = "(string \<times> session) list"

definition newRegistry :: registry where
  "newRegistry = []"

definition register :: "session \<Rightarrow> registry \<Rightarrow> registry \<times> close_call list" where
  "register v r =
     (AList.update (s_domain v) v r,
      (case map_of r (s_domain v) of
         None \<Rightarrow> []
       | Some previous \<Rightarrow>
           if s_conn previous \<noteq> s_conn v
           then [\<lparr>c_conn = s_conn previous, c_code = 2,
                  c_reason = ''tunnel replaced by a newer connection''\<rparr>]
           else []))"

definition unregister :: "session \<Rightarrow> registry \<Rightarrow> registry" where
  "unregister v r =
     (case map_of r (s_domain v) of
        None \<Rightarrow> r
      | Some current \<Rightarrow>
          if s_conn current = s_conn v then AList.delete (s_domain v) r else r)"

text \<open>The lookup part of \<open>open\<close>: the connection a request for \<open>domain\<close> is sent to.\<close>

definition open_conn :: "string \<Rightarrow> registry \<Rightarrow> conn_id option" where
  "open_conn domain r = map_option s_conn (map_of r domain)"

definition count :: "registry \<Rightarrow> nat" where
  "count r = length r"

definition session_info_of :: "session \<Rightarrow> session_info" where
  "session_info_of v =
     \<lparr>i_domain = s_domain v, i_remote = s_remote v, i_connected_at = s_connected_at v\<rparr>"

definition snapshot :: "registry \<Rightarrow> session_info list" where
  "snapshot r = sort_key i_domain (map (session_info_of \<circ> snd) r)"

definition disconnectToken :: "string \<Rightarrow> registry \<Rightarrow> close_call list \<times> nat" where
  "disconnectToken h r =
     (let matches = filter (\<lambda>v. s_token_hash v = h) (map snd r)
      in (map (\<lambda>v. \<lparr>c_conn = s_conn v, c_code = 4, c_reason = ''client token revoked''\<rparr>) matches,
          length matches))"

section \<open>Well-formedness\<close>

text \<open>Keys are unique and each session is filed under its own domain.\<close>

definition registry_ok :: "registry \<Rightarrow> bool" where
  "registry_ok r \<longleftrightarrow> distinct (keys_of r) \<and> (\<forall>d v. map_of r d = Some v \<longrightarrow> s_domain v = d)"

lemma registry_ok_new [simp]: "registry_ok newRegistry"
  by (simp add: registry_ok_def newRegistry_def)

lemma register_ok: "registry_ok r \<Longrightarrow> registry_ok (fst (register v r))"
  by (auto simp: registry_ok_def register_def)

lemma map_of_register [simp]:
  "map_of (fst (register v r)) d = (if d = s_domain v then Some v else map_of r d)"
  by (simp add: register_def)

lemma map_of_unregister:
  "map_of (unregister v r) d =
     (if d = s_domain v \<and> map_option s_conn (map_of r d) = Some (s_conn v) then None
      else map_of r d)"
  by (auto simp: unregister_def split: option.split)

lemma unregister_ok:
  assumes "registry_ok r"
  shows "registry_ok (unregister v r)"
proof -
  have "distinct (keys_of (unregister v r))"
    using assms by (simp add: unregister_def registry_ok_def split: option.split)
  moreover have "s_domain w = d" if "map_of (unregister v r) d = Some w" for d w
    using that assms unfolding map_of_unregister registry_ok_def by (metis option.distinct(1))
  ultimately show ?thesis by (simp add: registry_ok_def)
qed

lemma register_closes:
  assumes "c \<in> set (snd (register v r))"
  shows "c_code c = 2" "c_conn c \<noteq> s_conn v" "open_conn (s_domain v) r = Some (c_conn c)"
  using assms by (cases "map_of r (s_domain v)"; auto simp: register_def open_conn_def split: if_splits)+

section \<open>The contract of a routing table\<close>

text \<open>
  What the proxy and the connection handlers rely on. A session stays routable until it is
  unregistered or replaced; unregistering one session never removes another.
\<close>

locale routing_table =
  fixes ok :: "'r \<Rightarrow> bool"
    and route :: "string \<Rightarrow> 'r \<Rightarrow> conn_id option"
    and add :: "session \<Rightarrow> 'r \<Rightarrow> 'r"
    and remove :: "session \<Rightarrow> 'r \<Rightarrow> 'r"
  assumes route_add: "route d (add v r) = (if d = s_domain v then Some (s_conn v) else route d r)"
    and route_remove: "route d (remove v r) =
      (if d = s_domain v \<and> route d r = Some (s_conn v) then None else route d r)"
    and ok_add: "ok r \<Longrightarrow> ok (add v r)"
    and ok_remove: "ok r \<Longrightarrow> ok (remove v r)"
begin

lemma add_routes: "route (s_domain v) (add v r) = Some (s_conn v)"
  by (simp add: route_add)

lemma remove_own: "route (s_domain v) (remove v (add v r)) = None"
  by (simp add: route_add route_remove)

lemma late_remove_is_harmless:
  "s_conn old \<noteq> s_conn new \<Longrightarrow> s_domain old = s_domain new \<Longrightarrow>
     route (s_domain new) (remove old (add new (add old r))) = Some (s_conn new)"
  by (simp add: route_add route_remove)

lemma remove_other:
  "route d r = Some c \<Longrightarrow> c \<noteq> s_conn v \<Longrightarrow> route d (remove v r) = Some c"
  by (simp add: route_remove)

lemma ok_replace: "ok r \<Longrightarrow> ok (remove old (add new r))"
  by (simp add: ok_add ok_remove)

end

interpretation routes: routing_table registry_ok open_conn "\<lambda>v r. fst (register v r)" unregister
  by unfold_locales
    (auto simp: open_conn_def register_ok unregister_ok map_of_unregister)

section \<open>Snapshots do not depend on map order\<close>

lemma map_sort_key: "map f (sort_key f xs) = sort (map f xs)"
  by (rule properties_for_sort [symmetric]) simp_all

lemma sort_mset_cong:
  assumes "mset xs = mset ys"
  shows "sort xs = sort ys"
proof (rule properties_for_sort)
  show "mset (sort ys) = mset xs" unfolding mset_sort by (rule assms [symmetric])
qed (rule sorted_sort)

lemma sort_key_unique:
  assumes "mset xs = mset ys" "distinct (map f xs)"
  shows "sort_key f xs = sort_key f ys"
proof -
  have "mset (map f xs) = mset (map f ys)" unfolding mset_map assms(1) ..
  then have eq: "map f (sort_key f xs) = map f (sort_key f ys)"
    unfolding map_sort_key by (rule sort_mset_cong)
  have "set xs = set ys" using assms(1) by (rule mset_eq_setD)
  then have "inj_on f (set (sort_key f xs) \<union> set (sort_key f ys))"
    using assms(2) by (simp add: distinct_map)
  then show ?thesis using eq by (rule inj_on_map_eq_map [THEN iffD1])
qed

lemma registry_domains:
  assumes "registry_ok r"
  shows "map (i_domain \<circ> (session_info_of \<circ> snd)) r = keys_of r"
proof (rule map_cong [OF refl])
  fix x assume "x \<in> set r"
  with assms have "map_of r (fst x) = Some (snd x)"
    by (simp add: registry_ok_def)
  with assms show "(i_domain \<circ> (session_info_of \<circ> snd)) x = fst x"
    by (simp add: registry_ok_def session_info_of_def)
qed

lemma snapshot_domains: "registry_ok r \<Longrightarrow> map i_domain (snapshot r) = sort (keys_of r)"
  by (simp add: snapshot_def map_sort_key registry_domains)

section \<open>Properties\<close>

text \<open>
  The admin snapshot does not depend on Go's map order: two visits of the same registry
  in different orders give the same list, with one entry per connected domain in strictly
  increasing order.
\<close>

theorem snapshot_order_independent:
  assumes "registry_ok r" "mset r' = mset r"
  shows "snapshot r' = snapshot r \<and> map i_domain (snapshot r) = sort (keys_of r)
    \<and> sorted_wrt (<) (map i_domain (snapshot r)) \<and> length (snapshot r) = count r"
proof -
  have "distinct (map i_domain (map (session_info_of \<circ> snd) r))"
    unfolding map_map registry_domains [OF assms(1)] using assms(1) by (simp add: registry_ok_def)
  then have "snapshot r = snapshot r'"
    unfolding snapshot_def using assms(2)
    by (intro sort_key_unique) (simp_all del: map_map)
  moreover have "distinct (keys_of r)" using assms(1) by (simp add: registry_ok_def)
  then have "sorted_wrt (<) (sort (keys_of r))"
    by (simp add: strict_sorted_iff)
  moreover have "length (snapshot r) = count r"
    by (simp add: snapshot_def count_def)
  ultimately show ?thesis
    by (simp add: snapshot_domains [OF assms(1), symmetric])
qed

definition sample_session :: "string \<Rightarrow> string \<Rightarrow> conn_id \<Rightarrow> session" where
  "sample_session d h c = \<lparr>s_domain = d, s_token_hash = h, s_remote = ''203.0.113.7:1234'',
     s_connected_at = 0, s_conn = c\<rparr>"

theorem snapshot_order_independent_witness:
  "snapshot [(''b'', sample_session ''b'' ''h1'' 1), (''a'', sample_session ''a'' ''h2'' 2)]
   = snapshot [(''a'', sample_session ''a'' ''h2'' 2), (''b'', sample_session ''b'' ''h1'' 1)]"
proof -
  let ?r = "[(''a'', sample_session ''a'' ''h2'' 2), (''b'', sample_session ''b'' ''h1'' 1)]"
  have "registry_ok ?r"
    by (simp add: registry_ok_def sample_session_def)
  from snapshot_order_independent [OF this,
      of "[(''b'', sample_session ''b'' ''h1'' 1), (''a'', sample_session ''a'' ''h2'' 2)]"]
  show ?thesis by (simp add: add_mset_commute)
qed

end
