(* ===== verification/Server_Config.thy ===== *)
theory Server_Config
  imports Go_Net
begin

text \<open>
  The configuration of the relay and the checks \<open>server.New\<close> makes on it before it opens the
  database (\<^verbatim>\<open>internal/server/server.go\<close>).
\<close>

section \<open>Configuration\<close>

record config =
  HTTPAddr :: string
  HTTPSAddr :: string
  QUICAddr :: string
  BaseDomain :: string
  PublicPort :: int
  Database :: string
  AuthTokens :: "string list"
  TrustProxyHeaders :: bool
  HeartbeatTimeout :: duration
  TLSCert :: string
  TLSKey :: string
  ACMEEnabled :: bool
  ACMEEmail :: string
  ACMEStorage :: string
  ACMEStaging :: bool
  AdminAddr :: string
  AdminToken :: string
  AdminAllowRemote :: bool
  CloudflareAPIToken :: string

datatype config_error =
  Base_Or_Database_Missing
| No_HTTP_Listener
| No_QUIC_Address
| ACME_And_Manual
| ACME_Email_Missing
| ACME_Storage_Missing
| ACME_Token_Missing
| Admin_Address_Malformed
| Admin_Not_Loopback

definition acme_check :: "config \<Rightarrow> config_error + unit" where
  "acme_check c =
     (if \<not> ACMEEnabled c then Inr ()
      else if TLSCert c \<noteq> [] \<or> TLSKey c \<noteq> [] then Inl ACME_And_Manual
      else if ACMEEmail c = [] then Inl ACME_Email_Missing
      else if ACMEStorage c = [] then Inl ACME_Storage_Missing
      else if CloudflareAPIToken c = [] then Inl ACME_Token_Missing
      else Inr ())"

text \<open>The host an admin listener may bind to without \<open>--admin-allow-remote\<close>.\<close>

definition loopback_host :: "string \<Rightarrow> bool" where
  "loopback_host host \<longleftrightarrow>
     \<not> (host \<noteq> ''localhost'' \<and>
        (ParseIP host = None \<or> \<not> IsLoopback (case ParseIP host of Some ip \<Rightarrow> ip | None \<Rightarrow> [])))"

definition admin_check :: "config \<Rightarrow> config_error + unit" where
  "admin_check c =
     (if AdminAddr c \<noteq> [] \<and> \<not> AdminAllowRemote c then
        (case SplitHostPort (AdminAddr c) of
           Inl _ \<Rightarrow> Inl Admin_Address_Malformed
         | Inr (host, _) \<Rightarrow> if loopback_host host then Inr () else Inl Admin_Not_Loopback)
      else Inr ())"

definition check_config :: "config \<Rightarrow> config_error + unit" where
  "check_config c =
     (if BaseDomain c = [] \<or> Database c = [] then Inl Base_Or_Database_Missing
      else if HTTPAddr c = [] \<and> HTTPSAddr c = [] then Inl No_HTTP_Listener
      else if QUICAddr c = [] then Inl No_QUIC_Address
      else
        (case acme_check c of
           Inl e \<Rightarrow> Inl e
         | Inr _ \<Rightarrow> admin_check c))"

text \<open>The defaults \<open>New\<close> fills in.\<close>

definition with_defaults :: "config \<Rightarrow> config" where
  "with_defaults c =
     (if HeartbeatTimeout c \<le> 0 then c\<lparr>HeartbeatTimeout := 40 * second\<rparr> else c)"

lemma loopback_host_iff:
  "loopback_host host \<longleftrightarrow> host = ''localhost'' \<or> (\<exists>ip. ParseIP host = Some ip \<and> IsLoopback ip)"
  by (cases "ParseIP host") (auto simp: loopback_host_def)

text \<open>A configuration the witnesses use.\<close>

definition example_config :: config where
  "example_config = \<lparr>HTTPAddr = '':80'', HTTPSAddr = [], QUICAddr = '':4433'',
     BaseDomain = ''tunnl.at'', PublicPort = 443, Database = ''tunnl.db'', AuthTokens = [],
     TrustProxyHeaders = False, HeartbeatTimeout = 40 * second, TLSCert = [], TLSKey = [],
     ACMEEnabled = False, ACMEEmail = [], ACMEStorage = [], ACMEStaging = False,
     AdminAddr = ''localhost:8081'', AdminToken = [], AdminAllowRemote = False,
     CloudflareAPIToken = []\<rparr>"

end
