(* ===== verification/Proxy.thy ===== *)
theory Proxy
  imports Http_Server Metrics Registry Server_Config Names
begin

text \<open>
  The public HTTP side of the relay (\<^verbatim>\<open>internal/server/server.go\<close>): routing a request to a tunnel
  by its host, the headers it forwards, and what it answers. One call of \<open>proxy\<close> is a function
  of the registry, the counters and the exchange on the tunnel's stream; it returns the request
  handed to \<open>Request.Write\<close>, the response written to the visitor and the counters.
\<close>

section \<open>Headers\<close>

definition hopByHopHeaders :: "string list" where
  "hopByHopHeaders = [''Connection'', ''Proxy-Connection'', ''Keep-Alive'', ''Proxy-Authenticate'',
     ''Proxy-Authorization'', ''TE'', ''Trailer'', ''Transfer-Encoding'', ''Upgrade'']"

definition drop_named :: "string \<Rightarrow> header \<Rightarrow> header" where
  "drop_named name h = (let n = trim_space name in if n \<noteq> [] then header_del n h else h)"

definition removeHopByHopHeaders :: "header \<Rightarrow> header" where
  "removeHopByHopHeaders h =
     fold header_del hopByHopHeaders
       (fold (\<lambda>connection. fold drop_named (split_on CHR '','' connection))
          (header_values ''Connection'' h) h)"

definition copyHeaders :: "header \<Rightarrow> header \<Rightarrow> header" where
  "copyHeaders destination source =
     fold (\<lambda>(key, vs). fold (header_add key) vs) (removeHopByHopHeaders source) destination"

definition addForwardingHeaders :: "bool \<Rightarrow> request \<Rightarrow> request" where
  "addForwardingHeaders trustIncoming r =
     (let h0 = rq_header r;
          h1 = (case SplitHostPort (rq_remote_addr r) of
                  Inl _ \<Rightarrow> h0
                | Inr (clientIP, _) \<Rightarrow>
                    (let existing = header_get ''X-Forwarded-For'' h0 in
                     if trustIncoming \<and> existing \<noteq> []
                     then header_set ''X-Forwarded-For'' (existing @ '', '' @ clientIP) h0
                     else header_set ''X-Forwarded-For'' clientIP h0));
          h2 = (if \<not> trustIncoming then header_del ''X-Real-IP'' (header_del ''Forwarded'' h1) else h1);
          h3 = header_set ''X-Forwarded-Host'' (rq_host r) h2;
          h4 = (if rq_tls r then header_set ''X-Forwarded-Proto'' ''https'' h3
                else header_set ''X-Forwarded-Proto'' ''http'' h3)
      in r\<lparr>rq_header := h4\<rparr>)"

definition hostWithoutPort :: "(rune \<Rightarrow> rune) \<Rightarrow> string \<Rightarrow> string" where
  "hostWithoutPort ul v =
     (let host = to_lower ul v in
      case SplitHostPort host of
        Inr (parsedHost, _) \<Rightarrow> parsedHost
      | Inl _ \<Rightarrow> trim_suffix host ''.'')"

section \<open>One request\<close>

text \<open>
  The exchange on the stream: whether \<open>OpenStreamSync\<close> gave a stream, what \<open>http.ReadResponse\<close>
  returned, how many bytes of the body \<open>io.Copy\<close> delivered and whether it failed.
\<close>

record exchange =
  ex_stream :: bool
  ex_reply :: "response option"
  ex_written :: nat
  ex_copy_failed :: bool

record proxy_result =
  pr_sent :: "(conn_id \<times> request) option"
  pr_response :: response
  pr_metrics :: metrics

definition count_request :: "metrics \<Rightarrow> metrics" where
  "count_request m = m\<lparr>total_requests := total_requests m + 1\<rparr>"

definition count_failure :: "metrics \<Rightarrow> metrics" where
  "count_failure m = m\<lparr>failed_requests := failed_requests m + 1\<rparr>"

definition count_bytes :: "nat \<Rightarrow> metrics \<Rightarrow> metrics" where
  "count_bytes n m = m\<lparr>response_bytes := response_bytes m + of_nat n\<rparr>"

definition proxy_fail ::
  "(conn_id \<times> request) option \<Rightarrow> string \<Rightarrow> nat \<Rightarrow> metrics \<Rightarrow> proxy_result" where
  "proxy_fail sent msg code m =
     \<lparr>pr_sent = sent, pr_response = http_error [] msg code, pr_metrics = count_failure m\<rparr>"

definition outgoing :: "config \<Rightarrow> request \<Rightarrow> request" where
  "outgoing c r =
     addForwardingHeaders (TrustProxyHeaders c) (r\<lparr>rq_header := removeHopByHopHeaders (rq_header r)\<rparr>)"

definition relay_response :: "exchange \<Rightarrow> response \<Rightarrow> response" where
  "relay_response x reply =
     \<lparr>rs_status = rs_status reply,
      rs_header = header_set ''Via'' ''tunnl'' (copyHeaders [] (rs_header reply)),
      rs_body = take (ex_written x) (rs_body reply)\<rparr>"

definition proxy ::
  "(rune \<Rightarrow> rune) \<Rightarrow> config \<Rightarrow> registry \<Rightarrow> exchange \<Rightarrow> request \<Rightarrow> metrics \<Rightarrow> proxy_result" where
  "proxy ul c reg x r m0 =
     (let m = count_request m0 in
      if header_get ''Upgrade'' (rq_header r) \<noteq> []
      then proxy_fail None ''protocol upgrades are not supported yet'' 501 m
      else
        (let host = hostWithoutPort ul (rq_host r);
             suffix = ''.'' @ BaseDomain c
         in if \<not> has_suffix (to_lower ul host) suffix
            then proxy_fail None ''unknown tunnl host'' 404 m
            else
              (let domain = trim_suffix (to_lower ul host) suffix in
               if contains domain ''.'' then proxy_fail None ''invalid tunnl host'' 404 m
               else
                 (case open_conn domain reg of
                    None \<Rightarrow> proxy_fail None ''tunnel is offline'' 502 m
                  | Some conn \<Rightarrow>
                      if \<not> ex_stream x then proxy_fail None ''tunnel is offline'' 502 m
                      else
                        (let sent = Some (conn, outgoing c r) in
                         case ex_reply x of
                           None \<Rightarrow> proxy_fail sent ''tunnel response failed'' 502 m
                         | Some reply \<Rightarrow>
                             (let m' = count_bytes (ex_written x) m in
                              \<lparr>pr_sent = sent, pr_response = relay_response x reply,
                               pr_metrics = (if ex_copy_failed x then count_failure m' else m')\<rparr>))))))"

section \<open>Health check and routes\<close>

definition health_body :: "registry \<Rightarrow> string" where
  "health_body reg = ''{\"status\":\"ok\",\"tunnels\":'' @ nat_to_dec (count reg) @ ''}'' @ [CHR 0x0A]"

definition health ::
  "(rune \<Rightarrow> rune) \<Rightarrow> config \<Rightarrow> registry \<Rightarrow> exchange \<Rightarrow> request \<Rightarrow> metrics \<Rightarrow> proxy_result" where
  "health ul c reg x r m =
     (let host = hostWithoutPort ul (rq_host r) in
      if host \<noteq> ''localhost'' \<and> host \<noteq> ''127.0.0.1'' \<and> host \<noteq> ''::1''
         \<and> host \<noteq> ''status.'' @ to_lower ul (BaseDomain c)
      then proxy ul c reg x r m
      else \<lparr>pr_sent = None,
            pr_response = \<lparr>rs_status = 200,
              rs_header = header_set ''Content-Type'' ''application/json'' [],
              rs_body = health_body reg\<rparr>,
            pr_metrics = m\<rparr>)"

text \<open>
  The mux with its two patterns, for every method but \<open>CONNECT\<close>: a request whose escaped path is
  not clean is redirected to the clean one; \<open>GET\<close> patterns also match \<open>HEAD\<close>.
\<close>

definition routes ::
  "nat \<Rightarrow> (rune \<Rightarrow> rune) \<Rightarrow> config \<Rightarrow> registry \<Rightarrow> exchange \<Rightarrow> request \<Rightarrow> metrics \<Rightarrow> proxy_result" where
  "routes moved ul c reg x r m =
     (let p = EscapedPath (rq_path r) (rq_raw_path r) in
      if mux_clean p \<noteq> p
      then \<lparr>pr_sent = None, pr_response = mux_redirect moved [] (rq_method r) (mux_clean p) (rq_query r),
            pr_metrics = m\<rparr>
      else if (rq_method r = ''GET'' \<or> rq_method r = ''HEAD'') \<and> path_segments p = [''_tunnl'', ''health'']
      then health ul c reg x r m
      else proxy ul c reg x r m)"

section \<open>Header lemmas\<close>

definition named_headers :: "header \<Rightarrow> string set" where
  "named_headers h =
     {canonical_key (trim_space n) | n v.
        v \<in> set (header_values ''Connection'' h) \<and> n \<in> set (split_on CHR '','' v) \<and> trim_space n \<noteq> []}"

definition hop_by_hop :: "header \<Rightarrow> string \<Rightarrow> bool" where
  "hop_by_hop h k \<longleftrightarrow> k \<in> canonical_key ` set hopByHopHeaders \<or> k \<in> named_headers h"

lemma map_of_drop_named:
  "map_of (drop_named n h) k =
     (if trim_space n \<noteq> [] \<and> k = canonical_key (trim_space n) then None else map_of h k)"
  by (simp add: drop_named_def Let_def)

lemma map_of_drop_list:
  "map_of (fold drop_named ns h) k =
     (if \<exists>n \<in> set ns. trim_space n \<noteq> [] \<and> k = canonical_key (trim_space n) then None
      else map_of h k)"
  by (induction ns arbitrary: h) (auto simp: map_of_drop_named)

lemma map_of_drop_lists:
  "map_of (fold (\<lambda>v. fold drop_named (split_on sep v)) vs h) k =
     (if \<exists>v \<in> set vs. \<exists>n \<in> set (split_on sep v). trim_space n \<noteq> [] \<and> k = canonical_key (trim_space n)
      then None else map_of h k)"
  by (induction vs arbitrary: h) (auto simp: map_of_drop_list)

lemma map_of_removeHopByHop:
  "map_of (removeHopByHopHeaders h) k = (if hop_by_hop h k then None else map_of h k)"
  unfolding removeHopByHopHeaders_def map_of_dels map_of_drop_lists hop_by_hop_def named_headers_def
  by auto

lemma canonical_names:
  "canonical_key ''Connection'' = ''Connection''" "canonical_key ''Upgrade'' = ''Upgrade''"
  "canonical_key ''X-Forwarded-For'' = ''X-Forwarded-For''"
  "canonical_key ''X-Forwarded-Host'' = ''X-Forwarded-Host''"
  "canonical_key ''X-Forwarded-Proto'' = ''X-Forwarded-Proto''"
  "canonical_key ''X-Real-IP'' = ''X-Real-Ip''" "canonical_key ''Forwarded'' = ''Forwarded''"
  "canonical_key ''Via'' = ''Via''"
  by code_simp+

lemma distinct_removeHopByHop:
  assumes "distinct (keys_of h)"
  shows "distinct (keys_of (removeHopByHopHeaders h))"
proof -
  let ?P = "\<lambda>h. distinct (keys_of h)"
  have named: "?P (drop_named n h)" if "?P h" for n h
    using that by (simp add: drop_named_def Let_def header_del_def)
  have list: "?P (fold drop_named ns h)" if "?P h" for ns h
    using that named by (induction ns arbitrary: h) auto
  have lists: "?P (fold (\<lambda>v. fold drop_named (split_on CHR '','' v)) vs h)" if "?P h" for vs h
    using that list by (induction vs arbitrary: h) auto
  have "?P (fold header_del ns h)" if "?P h" for ns h
    using that by (induction ns arbitrary: h) (auto simp: header_del_def)
  then show ?thesis unfolding removeHopByHopHeaders_def using lists assms by blast
qed

lemma header_values_add_list:
  "header_values k' (fold (header_add k) vs h) =
     header_values k' h @ (if canonical_key k' = canonical_key k then vs else [])"
proof (induction vs arbitrary: h)
  case (Cons v vs)
  have "header_values k' (header_add k v h) =
      header_values k' h @ (if canonical_key k' = canonical_key k then [v] else [])"
    by (simp add: header_values_def)
  with Cons show ?case by simp
qed simp

lemma header_values_add_lists:
  "header_values k' (fold (\<lambda>(key, vs). fold (header_add key) vs) kvs h) =
     header_values k' h @
       concat (map snd (filter (\<lambda>(key, _). canonical_key k' = canonical_key key) kvs))"
  by (induction kvs arbitrary: h) (auto simp: header_values_add_list)

lemma concat_filter_key:
  "distinct (keys_of h) \<Longrightarrow>
     concat (map snd (filter (\<lambda>(key, _). key = k) h)) =
       (case map_of h k of None \<Rightarrow> [] | Some vs \<Rightarrow> vs)"
proof (induction h)
  case (Cons kv h)
  obtain k0 vs where kv: "kv = (k0, vs)" by force
  have "filter (\<lambda>(key, _). key = k) h = []" if "k0 = k"
    using that Cons.prems by (force simp: kv filter_empty_conv)
  with Cons show ?case by (auto simp: kv)
qed simp

lemma header_values_copy:
  assumes "distinct (keys_of h)" "\<forall>k \<in> set (keys_of h). canonical_key k = k"
  shows "header_values k (copyHeaders [] h) =
    (if hop_by_hop h (canonical_key k) then [] else header_values k h)"
proof -
  let ?h = "removeHopByHopHeaders h"
  have sub: "canonical_key key = key" if "(key, vs) \<in> set ?h" for key vs
  proof -
    have "map_of ?h key \<noteq> None"
      using weak_map_of_SomeI [OF that] by auto
    then have "map_of h key \<noteq> None" by (auto simp: map_of_removeHopByHop split: if_splits)
    then show ?thesis using assms(2) by (auto simp: map_of_eq_None_iff)
  qed
  have "filter (\<lambda>(key, _). canonical_key k = canonical_key key) ?h
      = filter (\<lambda>(key, _). key = canonical_key k) ?h"
    by (rule filter_cong) (auto dest: sub)
  then have "header_values k (copyHeaders [] h) =
      (case map_of ?h (canonical_key k) of None \<Rightarrow> [] | Some vs \<Rightarrow> vs)"
    unfolding copyHeaders_def header_values_add_lists
    by (simp add: header_values_def concat_filter_key [OF distinct_removeHopByHop [OF assms(1)]])
  then show ?thesis by (simp add: map_of_removeHopByHop header_values_def)
qed

section \<open>Routing lemmas\<close>

text \<open>A base domain as operators write it: lower-case ASCII without a port.\<close>

definition base_domain_ok :: "string \<Rightarrow> bool" where
  "base_domain_ok b \<longleftrightarrow> plain b \<and> list_all (\<lambda>c. ord c < 128 \<and> lower_char c = c) b
     \<and> \<not> has_suffix b ''.''"

lemma lower_tunnel_host:
  assumes "base_domain_ok b" "tunnel_name d"
  shows "to_lower ul (d @ ''.'' @ b) = d @ ''.'' @ b"
proof -
  have "ord CHR ''.'' < 128" "lower_char CHR ''.'' = CHR ''.''"
    by (simp_all add: lower_char_def)
  then have "list_all (\<lambda>c. ord c < 128 \<and> lower_char c = c) (d @ ''.'' @ b)"
    using assms(1) tunnel_name_chars [OF assms(2)]
    by (auto simp: base_domain_ok_def list_all_iff)
  then show ?thesis
    by (subst to_lower_ascii) (auto simp: list_all_iff intro!: map_idI)
qed

lemma plain_tunnel_host:
  assumes "base_domain_ok b" "tunnel_name d"
  shows "plain (d @ ''.'' @ b)"
  using assms(1) tunnel_name_chars [OF assms(2)]
  by (auto simp: plain_def base_domain_ok_def list_all_iff)

text \<open>The three forms in which a visitor may write the host of a tunnel.\<close>

definition names_host :: "(rune \<Rightarrow> rune) \<Rightarrow> string \<Rightarrow> string \<Rightarrow> bool" where
  "names_host ul written host \<longleftrightarrow>
     to_lower ul written = host \<or> to_lower ul written = host @ ''.''
     \<or> (\<exists>port. plain port \<and> to_lower ul written = host @ '':'' @ port)"

lemma hostWithoutPort_forms:
  assumes "plain host" "\<not> has_suffix host ''.''" "names_host ul written host"
  shows "hostWithoutPort ul written = host"
proof -
  have "trim_suffix host ''.'' = host" using assms(2) by (simp add: trim_suffix_def)
  moreover have "CHR '':'' \<notin> set host" "CHR '':'' \<notin> set (host @ ''.'')"
    using assms(1) by (auto simp: plain_def)
  ultimately show ?thesis
    using assms(3) SplitHostPort_join [OF assms(1)]
      SplitHostPort_no_port [of host] SplitHostPort_no_port [of "host @ ''.''"]
    by (auto simp: names_host_def hostWithoutPort_def)
qed

lemma has_suffix_dot: "has_suffix (d @ ''.'' @ b) ''.'' \<Longrightarrow> b = [] \<or> has_suffix b ''.''"
  unfolding has_suffix_iff by (cases b rule: rev_cases) auto

lemma tunnel_host:
  assumes "base_domain_ok b" "b \<noteq> []" "tunnel_name d" "names_host ul written (d @ ''.'' @ b)"
  shows "hostWithoutPort ul written = d @ ''.'' @ b"
    "to_lower ul (hostWithoutPort ul written) = d @ ''.'' @ b"
proof -
  have "\<not> has_suffix (d @ ''.'' @ b) ''.''"
    using assms(1,2) has_suffix_dot unfolding base_domain_ok_def by blast
  with hostWithoutPort_forms [OF plain_tunnel_host [of b d]] assms
  show "hostWithoutPort ul written = d @ ''.'' @ b" by simp
  then show "to_lower ul (hostWithoutPort ul written) = d @ ''.'' @ b"
    by (simp only: lower_tunnel_host [OF assms(1,3)])
qed

lemma proxy_routed:
  assumes "to_lower ul (hostWithoutPort ul (rq_host r)) = d @ ''.'' @ BaseDomain c"
    and "CHR ''.'' \<notin> set d" and "header_get ''Upgrade'' (rq_header r) = []"
    and "open_conn d reg = Some conn" and "ex_stream x"
  shows "pr_sent (proxy ul c reg x r m) = Some (conn, outgoing c r)"
proof -
  have "has_suffix (d @ ''.'' @ BaseDomain c) (''.'' @ BaseDomain c)"
    "trim_suffix (d @ ''.'' @ BaseDomain c) (''.'' @ BaseDomain c) = d"
    by (rule has_suffix_append trim_suffix_append)+
  moreover have "\<not> contains d ''.''" using assms(2) by (simp add: contains_single)
  ultimately show ?thesis
    using assms by (simp add: proxy_def Let_def proxy_fail_def split: option.split)
qed

lemma proxy_sent_cases:
  assumes "pr_sent (proxy ul c reg x r m) = Some (conn, q)"
  obtains d where "to_lower ul (hostWithoutPort ul (rq_host r)) = d @ ''.'' @ BaseDomain c"
    "CHR ''.'' \<notin> set d" "open_conn d reg = Some conn" "q = outgoing c r"
    "header_get ''Upgrade'' (rq_header r) = []" "ex_stream x"
proof -
  let ?h = "to_lower ul (hostWithoutPort ul (rq_host r))" and ?suf = "''.'' @ BaseDomain c"
  have up: "header_get ''Upgrade'' (rq_header r) = []" and suf: "has_suffix ?h ?suf"
    and dot: "\<not> contains (trim_suffix ?h ?suf) ''.''"
    and o: "open_conn (trim_suffix ?h ?suf) reg = Some conn" and q: "q = outgoing c r" and st: "ex_stream x"
    using assms by (auto simp: proxy_def Let_def proxy_fail_def split: if_splits option.splits)
  from suf obtain d where d: "?h = d @ ?suf" unfolding has_suffix_iff by blast
  then have "trim_suffix ?h ?suf = d" by (simp only: trim_suffix_append)
  with d up dot o q st that show thesis by (simp add: contains_single)
qed

lemma header_get_set_same:
  "canonical_key k = canonical_key k' \<Longrightarrow> header_get k (header_set k' v h) = v"
  by (simp add: header_get_def header_values_def)

lemma SplitHostPort_subset: "SplitHostPort hp = Inr (h, p) \<Longrightarrow> set h \<subseteq> set hp"
  by (auto simp: SplitHostPort_def split_finish_def split: option.splits if_splits
      dest!: in_set_dropD in_set_takeD)

lemma hostWithoutPort_subset: "set (hostWithoutPort ul v) \<subseteq> set (to_lower ul v)"
  using SplitHostPort_subset
  by (auto simp: hostWithoutPort_def Let_def trim_suffix_def split: sum.splits if_splits
      dest!: in_set_takeD)

lemma lower_char_not_upper: "\<not> (65 \<le> ord (lower_char c) \<and> ord (lower_char c) \<le> 90)"
  by (simp add: lower_char_def)

lemma lowered_host_not_upper:
  assumes "list_all (\<lambda>c. ord c < 128) v" "x \<in> set (to_lower ul (hostWithoutPort ul v))"
  shows "\<not> (65 \<le> ord x \<and> ord x \<le> 90)"
proof -
  have "ord (lower_char c) < 128" if "ord c < 128" for c
    using that by (simp add: lower_char_def)
  then have "list_all (\<lambda>c. ord c < 128) (to_lower ul v)"
    using assms(1) by (auto simp: to_lower_ascii list_all_iff)
  then have "list_all (\<lambda>c. ord c < 128) (hostWithoutPort ul v)"
    using hostWithoutPort_subset by (fastforce simp: list_all_iff)
  with assms(2) show ?thesis using lower_char_not_upper by (auto simp: to_lower_ascii)
qed

text \<open>A concrete exchange, shared by the witnesses.\<close>

definition example_request :: request where
  "example_request = \<lparr>rq_method = ''GET'', rq_path = ''/'', rq_raw_path = [], rq_query = [], rq_host = ''Demo.tunnl.at:80'',
     rq_header = [(''Accept'', [''*/*''])], rq_body = [], rq_remote_addr = ''203.0.113.7:5000'', rq_tls = False\<rparr>"

definition example_reply :: response where
  "example_reply = \<lparr>rs_status = 200, rs_header = [(''Connection'', [''close'']), (''Etag'', [''a''])],
     rs_body = ''hello''\<rparr>"

definition example_exchange :: exchange where
  "example_exchange = \<lparr>ex_stream = True, ex_reply = Some example_reply, ex_written = 5,
     ex_copy_failed = False\<rparr>"

lemma example_base: "base_domain_ok ''tunnl.at''"
  by (simp add: base_domain_ok_def plain_def lower_char_def has_suffix_def)

lemma example_name: "tunnel_name ''demo''"
  by (simp add: tunnel_name_def dns_label_def label_char_def name_rune_def reserved_def)

lemma example_host: "names_host id ''Demo.tunnl.at:80'' ''demo.tunnl.at''"
proof -
  have "to_lower id ''Demo.tunnl.at:80'' = ''demo.tunnl.at'' @ '':'' @ ''80''"
    by (simp add: to_lower_ascii lower_char_def go_simps)
  moreover have "plain ''80''" by (simp add: plain_def)
  ultimately show ?thesis unfolding names_host_def by blast
qed

section \<open>Properties\<close>

text \<open>
  A request for a tunnel reaches it however the visitor writes the host: in any letter
  case, with a port, or with a trailing dot, for every registered legal name and every
  lower-case base domain; the client receives the cleaned request on its own connection.
\<close>

theorem request_reaches_tunnel:
  assumes "base_domain_ok (BaseDomain c)" "BaseDomain c \<noteq> []" "tunnel_name d"
    and "names_host ul (rq_host r) (d @ ''.'' @ BaseDomain c)"
    and "header_get ''Upgrade'' (rq_header r) = []"
    and "map_of reg d = Some v" "ex_stream x"
  shows "pr_sent (proxy ul c reg x r m) = Some (s_conn v, outgoing c r)"
  using assms tunnel_host(2) [OF assms(1-4)]
  by (intro proxy_routed) (auto simp: tunnel_name_no_dot open_conn_def)

theorem request_reaches_tunnel_witness:
  "pr_sent (proxy id example_config [(''demo'', sample_session ''demo'' ''h'' 7)] example_exchange
     example_request (newMetrics 0)) = Some (7, outgoing example_config example_request)"
proof -
  let ?v = "sample_session ''demo'' ''h'' 7"
  have "pr_sent (proxy id example_config [(''demo'', ?v)] example_exchange example_request
      (newMetrics 0)) = Some (s_conn ?v, outgoing example_config example_request)"
    by (rule request_reaches_tunnel [where d = "''demo''"])
      (use example_base example_name example_host in \<open>simp_all add: example_config_def
        example_request_def example_exchange_def header_get_def header_values_def canonical_names\<close>)
  then show ?thesis by (simp add: sample_session_def)
qed

text \<open>
  C36: no request reaches a tunnel other than the one its host names: whenever the proxy sends
  a request anywhere, the lower-cased host without port is one dot-free label and the base
  domain, and the receiver is the connection registered for exactly that label.
\<close>

theorem request_reaches_only_its_tunnel:
  assumes "pr_sent (proxy ul c reg x r m) = Some (conn, q)"
  shows "\<exists>d v. to_lower ul (hostWithoutPort ul (rq_host r)) = d @ ''.'' @ BaseDomain c
    \<and> CHR ''.'' \<notin> set d \<and> map_of reg d = Some v \<and> s_conn v = conn \<and> q = outgoing c r"
proof -
  from proxy_sent_cases [OF assms] obtain d
    where "to_lower ul (hostWithoutPort ul (rq_host r)) = d @ ''.'' @ BaseDomain c"
      "CHR ''.'' \<notin> set d" "open_conn d reg = Some conn" "q = outgoing c r"
    by blast
  then show ?thesis by (auto simp: open_conn_def)
qed

theorem request_reaches_only_its_tunnel_witness:
  "\<exists>d. to_lower id (hostWithoutPort id ''Demo.tunnl.at:80'') = d @ ''.tunnl.at'' \<and> CHR ''.'' \<notin> set d"
proof -
  have "to_lower id (hostWithoutPort id (rq_host example_request)) = ''demo'' @ ''.'' @ BaseDomain example_config"
    using tunnel_host(2) [of "''tunnl.at''" "''demo''" id "''Demo.tunnl.at:80''"]
      example_base example_name example_host
    by (simp add: example_config_def example_request_def)
  then have "pr_sent (proxy id example_config [(''demo'', sample_session ''demo'' ''h'' 7)]
      example_exchange example_request (newMetrics 0)) = Some (7, outgoing example_config example_request)"
    by (rule proxy_routed)
      (simp_all add: example_request_def example_exchange_def header_get_def header_values_def
        canonical_names open_conn_def sample_session_def)
  from request_reaches_only_its_tunnel [OF this] show ?thesis
    by (auto simp: example_config_def example_request_def)
qed

text \<open>
  C39: the headers of the forwarded request, key by key. The relay writes the host, the scheme
  and, when the visitor's address splits, the client address (after the first value of the
  visitor's own \<open>X-Forwarded-For\<close> only when proxy headers are trusted); an untrusted visitor
  cannot pass \<open>Forwarded\<close> or \<open>X-Real-IP\<close>; no hop-by-hop header and none the \<open>Connection\<close>
  header names is forwarded; every other header is forwarded unchanged. Naming a forwarding
  header in \<open>Connection\<close> does not remove what the relay writes.
\<close>

theorem forwarded_headers:
  "map_of (rq_header (outgoing c r)) k =
    (let h = rq_header r;
         trust = TrustProxyHeaders c;
         existing = (if hop_by_hop h ''X-Forwarded-For'' then [] else header_get ''X-Forwarded-For'' h)
     in if k = ''X-Forwarded-Proto'' then Some [if rq_tls r then ''https'' else ''http'']
        else if k = ''X-Forwarded-Host'' then Some [rq_host r]
        else if \<not> trust \<and> k \<in> {''Forwarded'', ''X-Real-Ip''} then None
        else if k = ''X-Forwarded-For'' \<and> is_ok (SplitHostPort (rq_remote_addr r)) then
          Some [(if trust \<and> existing \<noteq> [] then existing @ '', '' else [])
                @ (case SplitHostPort (rq_remote_addr r) of Inr (ip, _) \<Rightarrow> ip | Inl _ \<Rightarrow> [])]
        else if hop_by_hop h k then None
        else map_of h k)"
proof -
  let ?h = "removeHopByHopHeaders (rq_header r)"
  have "header_get ''X-Forwarded-For'' ?h =
      (if hop_by_hop (rq_header r) ''X-Forwarded-For'' then []
       else header_get ''X-Forwarded-For'' (rq_header r))"
    by (simp add: header_get_def header_values_def map_of_removeHopByHop canonical_names)
  then show ?thesis
    by (cases "SplitHostPort (rq_remote_addr r)")
      (auto simp: outgoing_def addForwardingHeaders_def Let_def canonical_names
        map_of_removeHopByHop split: prod.split)
qed

text \<open>
  C40: the response the visitor gets carries the status of the tunnel's response and, for every
  header name, all of its values in their order, except that hop-by-hop headers and those its
  \<open>Connection\<close> header names are gone and \<open>Via\<close> is the relay's own.
\<close>

theorem relayed_response_headers:
  assumes "distinct (keys_of (rs_header reply))"
    and "\<forall>k \<in> set (keys_of (rs_header reply)). canonical_key k = k"
  shows "rs_status (relay_response x reply) = rs_status reply
    \<and> header_values k (rs_header (relay_response x reply)) =
        (if canonical_key k = ''Via'' then [''tunnl'']
         else if hop_by_hop (rs_header reply) (canonical_key k) then []
         else header_values k (rs_header reply))"
  using header_values_copy [OF assms, of k]
  by (auto simp: relay_response_def header_values_def canonical_names)

theorem relayed_response_headers_witness:
  "header_values ''Via'' (rs_header (relay_response example_exchange example_reply)) = [''tunnl'']
   \<and> header_values ''Connection'' (rs_header (relay_response example_exchange example_reply)) = []"
proof -
  have "canonical_key ''Etag'' = ''Etag''" by code_simp
  then have ok: "distinct (keys_of (rs_header example_reply))"
    "\<forall>k \<in> set (keys_of (rs_header example_reply)). canonical_key k = k"
    by (simp_all add: example_reply_def canonical_names)
  show ?thesis
    using relayed_response_headers [OF ok, of example_exchange "''Via''"]
      relayed_response_headers [OF ok, of example_exchange "''Connection''"]
    by (simp add: canonical_names hop_by_hop_def hopByHopHeaders_def)
qed

text \<open>
  The counters are exact: one call counts one request; it counts one failure exactly when
  no complete response of the tunnel was delivered (refused upgrade, unknown host, tunnel
  offline, no stream, no response, or a broken copy), and it counts the bytes delivered.
\<close>

theorem proxy_accounting:
  "let p = proxy ul c reg x r m;
       replied = (pr_sent p \<noteq> None \<and> ex_reply x \<noteq> None)
   in pr_metrics p = m\<lparr>total_requests := total_requests m + 1,
        failed_requests := failed_requests m + (if replied \<and> \<not> ex_copy_failed x then 0 else 1),
        response_bytes := response_bytes m + (if replied then of_nat (ex_written x) else 0)\<rparr>"
  by (auto simp: proxy_def Let_def proxy_fail_def count_request_def count_failure_def
      count_bytes_def split: option.split)

text \<open>
  The health endpoint never shadows a tunnel: because \<open>status\<close> is a reserved name, a request
  with a clean path whose host names a tunnel is always proxied to it, on the health path too.
\<close>

theorem health_does_not_shadow_tunnels:
  assumes "base_domain_ok (BaseDomain c)" "BaseDomain c \<noteq> []" "BaseDomain c \<noteq> ''0.0.1''"
    and "tunnel_name d" "names_host ul (rq_host r) (d @ ''.'' @ BaseDomain c)"
    and "mux_clean (EscapedPath (rq_path r) (rq_raw_path r)) = EscapedPath (rq_path r) (rq_raw_path r)"
  shows "routes moved ul c reg x r m = proxy ul c reg x r m"
proof -
  let ?b = "BaseDomain c"
  have h: "hostWithoutPort ul (rq_host r) = d @ ''.'' @ ?b"
    by (rule tunnel_host(1) [OF assms(1,2,4,5)])
  have low: "to_lower ul ?b = ?b"
    using assms(1) by (subst to_lower_ascii) (auto simp: base_domain_ok_def list_all_iff intro!: map_idI)
  have d: "CHR ''.'' \<notin> set d" "d \<noteq> ''status''"
    using assms(4) tunnel_name_no_dot by (auto simp: tunnel_name_def reserved_def)
  have "s \<noteq> ''localhost'' \<and> s \<noteq> ''::1''" if "CHR ''.'' \<in> set s" for s :: string
    using that by auto
  then have no: "d @ ''.'' @ ?b \<noteq> ''localhost'' \<and> d @ ''.'' @ ?b \<noteq> ''::1''" by simp
  have "d @ ''.'' @ ?b \<noteq> ''127.0.0.1''"
  proof
    assume eq: "d @ ''.'' @ ?b = ''127.0.0.1''"
    have "dropWhile (\<lambda>c. c \<noteq> CHR ''.'') d = []" using d(1) by auto
    with arg_cong [OF eq, of "dropWhile (\<lambda>c. c \<noteq> CHR ''.'')"] assms(3) show False
      by (simp add: dropWhile_append)
  qed
  moreover have "d @ ''.'' @ ?b \<noteq> ''status.'' @ ?b"
  proof
    assume "d @ ''.'' @ ?b = ''status.'' @ ?b"
    then have "(d @ ''.'') @ ?b = ''status.'' @ ?b" by simp
    then have "d @ ''.'' = ''status'' @ ''.''" by (simp only: append_same_eq) simp
    with d(2) show False by (simp only: append_same_eq)
  qed
  ultimately show ?thesis
    using no assms(6) by (simp add: routes_def health_def Let_def h low)
qed

theorem health_does_not_shadow_tunnels_witness:
  "routes moved id example_config [] example_exchange (example_request\<lparr>rq_path := ''/_tunnl/health''\<rparr>) (newMetrics 0)
   = proxy id example_config [] example_exchange (example_request\<lparr>rq_path := ''/_tunnl/health''\<rparr>) (newMetrics 0)"
proof (rule health_does_not_shadow_tunnels [where d = "''demo''"])
  have "EscapedPath ''/_tunnl/health'' [] = ''/_tunnl/health''" by code_simp
  then show "mux_clean (EscapedPath (rq_path (example_request\<lparr>rq_path := ''/_tunnl/health''\<rparr>))
        (rq_raw_path (example_request\<lparr>rq_path := ''/_tunnl/health''\<rparr>)))
      = EscapedPath (rq_path (example_request\<lparr>rq_path := ''/_tunnl/health''\<rparr>))
        (rq_raw_path (example_request\<lparr>rq_path := ''/_tunnl/health''\<rparr>))"
    by (simp add: example_request_def mux_clean_def path_clean_def path_elements_def clean_step_def)
qed (use example_base example_name example_host in
  \<open>simp_all add: example_config_def example_request_def\<close>)

text \<open>
  The proxy compares the lower-cased host with the base domain as configured, so an
  upper-case letter in the base domain makes every tunnel unreachable: no request with an ASCII
  host is ever sent to a client, whatever is registered.
\<close>

theorem mixed_case_base_unreachable:
  assumes "u \<in> set (BaseDomain c)" "65 \<le> ord u" "ord u \<le> 90"
    and "list_all (\<lambda>x. ord x < 128) (rq_host r)"
  shows "pr_sent (proxy ul c reg x r m) = None
    \<and> rs_status (pr_response (proxy ul c reg x r m)) \<in> {404, 501}"
proof -
  let ?h = "to_lower ul (hostWithoutPort ul (rq_host r))"
  have "\<not> has_suffix ?h (''.'' @ BaseDomain c)"
  proof
    assume "has_suffix ?h (''.'' @ BaseDomain c)"
    then obtain q where "?h = q @ ''.'' @ BaseDomain c" unfolding has_suffix_iff by blast
    with assms(1) have "u \<in> set ?h" by simp
    with lowered_host_not_upper [OF assms(4)] assms(2,3) show False by blast
  qed
  then show ?thesis by (simp add: proxy_def Let_def proxy_fail_def http_error_def)
qed

theorem mixed_case_base_unreachable_witness:
  "pr_sent (proxy id (example_config\<lparr>BaseDomain := ''Tunnl.at''\<rparr>)
     [(''demo'', sample_session ''demo'' ''h'' 7)] example_exchange example_request (newMetrics 0)) = None"
proof -
  have "ord CHR ''T'' = 84" by simp
  with mixed_case_base_unreachable [of "CHR ''T''" "example_config\<lparr>BaseDomain := ''Tunnl.at''\<rparr>"
      example_request id "[(''demo'', sample_session ''demo'' ''h'' 7)]" example_exchange "newMetrics 0"]
  show ?thesis by (simp add: example_request_def)
qed

section \<open>Hosts and headers at the edge\<close>

text \<open>
  A trailing dot is removed only from a host without a port, so a fully qualified host with a port is
  unknown; and of several \<open>X-Forwarded-For\<close> lines a trusted proxy sent, only the first is passed on.
\<close>

lemma dot_before_port_unreachable:
  assumes "rq_host r = ''demo.tunnl.at.:443''" "BaseDomain c = ''tunnl.at''"
    and "header_get ''Upgrade'' (rq_header r) = []"
  shows "pr_sent (proxy id c reg x r m) = None \<and> rs_status (pr_response (proxy id c reg x r m)) = 404"
proof -
  have "hostWithoutPort id ''demo.tunnl.at.:443'' = ''demo.tunnl.at.''" by code_simp
  moreover have "\<not> has_suffix (to_lower id ''demo.tunnl.at.'') (''.'' @ ''tunnl.at'')" by code_simp
  ultimately show ?thesis using assms by (simp add: proxy_def Let_def proxy_fail_def http_error_def)
qed

lemma later_forwarded_lines_lost:
  assumes "TrustProxyHeaders c" "SplitHostPort (rq_remote_addr r) = Inr (ip, port)"
    and "\<not> hop_by_hop (rq_header r) ''X-Forwarded-For''"
    and "map_of (rq_header r) ''X-Forwarded-For'' = Some (first # rest)" "first \<noteq> []"
  shows "map_of (rq_header (outgoing c r)) ''X-Forwarded-For'' = Some [first @ '', '' @ ip]"
  using assms
  by (simp add: outgoing_def addForwardingHeaders_def Let_def canonical_names map_of_removeHopByHop
      header_get_def header_values_def)

end
