(* ===== verification/Protocol.thy ===== *)
theory Protocol
  imports Server_Config
begin

text \<open>
  \<^verbatim>\<open>internal/protocol/protocol.go\<close>: the messages of the control stream, as the values
  \<open>encoding/json\<close> decodes them to, and the public URL the relay announces.
\<close>

definition Version :: int where
  "Version = 1"

definition ALPN :: string where
  "ALPN = ''tunnl/1''"

record Hello =
  h_version :: int
  h_token :: string
  h_domain :: string
  h_mode :: string

record Welcome =
  wl_ok :: bool
  wl_error :: string
  wl_domain :: string
  wl_url :: string

record Control =
  c_type :: string

text \<open>The zero value \<open>protocol.Welcome{Error: ...}\<close> and the answer to an accepted hello.\<close>

definition refusal :: "string \<Rightarrow> Welcome" where
  "refusal e = \<lparr>wl_ok = False, wl_error = e, wl_domain = [], wl_url = []\<rparr>"

definition publicURL :: "config \<Rightarrow> string \<Rightarrow> string" where
  "publicURL c domain =
     (let u = ''https://'' @ domain @ ''.'' @ BaseDomain c in
      if PublicPort c \<noteq> 0 \<and> PublicPort c \<noteq> 443 then u @ '':'' @ itoa (PublicPort c) else u)"

definition acceptance :: "config \<Rightarrow> string \<Rightarrow> Welcome" where
  "acceptance c domain =
     \<lparr>wl_ok = True, wl_error = [], wl_domain = domain, wl_url = publicURL c domain\<rparr>"

end
