(* ===== verification/Tunnel.thy ===== *)
theory Tunnel
  imports Protocol Store Registry Metrics
begin

text \<open>
  \<open>handleTunnel\<close> of \<^verbatim>\<open>internal/server/server.go\<close> and \<open>RevokeToken\<close> of
  \<^verbatim>\<open>internal/server/admin.go\<close> as concurrent activities. Each connection handler and each
  revocation is a goroutine: its program counter is a \<open>phase\<close>, with the local variables that are
  live there. One step of an activity is the code between two points at which other goroutines
  can interleave: a read from the control stream, one database transaction, one critical section
  of the registry, one group of \<open>CloseWithError\<close> calls. Messages sent and connections closed are
  logged in order.
\<close>

section \<open>Tokens\<close>

text \<open>SHA-256 is the parameter \<open>sum256\<close>; what the code compares is its value.\<close>

record relay =
  lower_table :: "rune \<Rightarrow> rune"
  sum256 :: "string \<Rightarrow> 8 word list"
  cfg :: config

definition constantTimeEqual :: "relay \<Rightarrow> string \<Rightarrow> string \<Rightarrow> bool" where
  "constantTimeEqual P left right \<longleftrightarrow> sum256 P left = sum256 P right"

definition hashToken :: "relay \<Rightarrow> string \<Rightarrow> string" where
  "hashToken P token = hex_encode (sum256 P token)"

definition authenticate :: "relay \<Rightarrow> exec_env \<Rightarrow> string \<Rightarrow> db \<Rightarrow> bool \<times> db" where
  "authenticate P e token s =
     (let valid = fold (\<lambda>candidate valid. if constantTimeEqual P token candidate then True else valid)
                    (AuthTokens (cfg P)) False
      in if valid then (True, s)
         else
           (case AuthenticateClientToken e (hashToken P token) s of
              (Inl _, s') \<Rightarrow> (False, s')
            | (Inr matched, s') \<Rightarrow> (matched, s')))"

section \<open>The world\<close>

datatype phase =
  Idle
| Handshake string
| Checked Hello string
| Claiming Hello string nat
| Claimed string string string
| Added session "close_call list"
| Connected session
| Serving session
| Leaving session
| Closing
| Finished

datatype revoker =
  R_Idle
| R_Found string string
| R_Deleted string
| R_Closing "close_call list"
| R_Done bool

record world =
  w_db :: db
  w_registry :: registry
  w_metrics :: metrics
  w_phase :: "conn_id \<Rightarrow> phase"
  w_revoker :: "nat \<Rightarrow> revoker"
  w_sent :: "(conn_id \<times> Welcome) list"
  w_closes :: "close_call list"

definition start :: "db \<Rightarrow> time \<Rightarrow> world" where
  "start s now = \<lparr>w_db = s, w_registry = newRegistry, w_metrics = newMetrics now,
     w_phase = (\<lambda>_. Idle), w_revoker = (\<lambda>_. R_Idle), w_sent = [], w_closes = []\<rparr>"

definition goto :: "conn_id \<Rightarrow> phase \<Rightarrow> world \<Rightarrow> world" where
  [act_defs]: "goto c p w = w\<lparr>w_phase := (w_phase w)(c := p)\<rparr>"

definition CloseWithError :: "conn_id \<Rightarrow> nat \<Rightarrow> string \<Rightarrow> world \<Rightarrow> world" where
  [act_defs]: "CloseWithError c code reason w =
     w\<lparr>w_closes := w_closes w @ [\<lparr>c_conn = c, c_code = code, c_reason = reason\<rparr>]\<rparr>"

definition send :: "conn_id \<Rightarrow> Welcome \<Rightarrow> world \<Rightarrow> world" where
  [act_defs]: "send c m w = w\<lparr>w_sent := w_sent w @ [(c, m)]\<rparr>"

text \<open>The refusals of the handshake: send an error, close with code 1, return.\<close>

definition refuse :: "conn_id \<Rightarrow> string \<Rightarrow> string \<Rightarrow> world \<Rightarrow> world" where
  [act_defs]: "refuse c msg reason w = goto c Closing (CloseWithError c 1 reason (send c (refusal msg) w))"

section \<open>Steps of a connection handler\<close>

definition on_accept :: "conn_id \<Rightarrow> string \<Rightarrow> world \<Rightarrow> world" where
  [world_defs]: "on_accept c addr w = goto c (Handshake addr) w"

text \<open>What \<open>AcceptStream\<close> and the first \<open>Decode\<close> give.\<close>

datatype greeting = No_Stream | Bad_Hello | Greeting Hello

definition on_hello :: "conn_id \<Rightarrow> string \<Rightarrow> greeting \<Rightarrow> world \<Rightarrow> world" where
  [world_defs]: "on_hello c addr g w =
     (case g of
        No_Stream \<Rightarrow> goto c Closing (CloseWithError c 1 ''control stream required'' w)
      | Bad_Hello \<Rightarrow> goto c Closing (CloseWithError c 1 ''invalid handshake'' w)
      | Greeting h \<Rightarrow>
          if h_version h \<noteq> Version
          then refuse c ''incompatible protocol version'' ''incompatible protocol'' w
          else goto c (Checked h addr) w)"

definition on_authenticate :: "relay \<Rightarrow> conn_id \<Rightarrow> Hello \<Rightarrow> string \<Rightarrow> exec_env \<Rightarrow> world \<Rightarrow> world" where
  [world_defs]: "on_authenticate P c h addr e w =
     (case authenticate P e (h_token h) (w_db w) of
        (valid, s) \<Rightarrow>
          (let w' = w\<lparr>w_db := s\<rparr> in
           if \<not> valid then refuse c ''authentication failed'' ''authentication failed'' w'
           else if h_mode h \<noteq> ''http'' then refuse c ''unsupported tunnel mode'' ''unsupported mode'' w'
           else goto c (Claiming h addr 0) w'))"

text \<open>
  One transaction of the claim: a requested name is reserved in one; an empty request runs the
  loop of \<open>Allocate\<close>, one iteration per step, at most 32.
\<close>

definition on_claim ::
  "relay \<Rightarrow> conn_id \<Rightarrow> Hello \<Rightarrow> string \<Rightarrow> nat \<Rightarrow> attempt \<Rightarrow> world \<Rightarrow> world" where
  [world_defs]: "on_claim P c h addr n a w =
     (let tokenHash = hashToken P (h_token h);
          unavailable = (\<lambda>msg w. refuse c msg ''domain unavailable'' w)
      in if h_domain h = [] then
           (if n \<ge> 32 then unavailable (store_error_msg NoAvailableDomain) w
            else
              (case alloc_try a tokenHash (w_db w) of
                 (None, s) \<Rightarrow> goto c (Claiming h addr (Suc n)) (w\<lparr>w_db := s\<rparr>)
               | (Some (Inl err), s) \<Rightarrow> unavailable (store_error_msg err) (w\<lparr>w_db := s\<rparr>)
               | (Some (Inr d), s) \<Rightarrow> goto c (Claimed d tokenHash addr) (w\<lparr>w_db := s\<rparr>)))
         else
           (case Normalize (lower_table P) (h_domain h) of
              Inl err \<Rightarrow> unavailable (name_error_msg err) w
            | Inr d \<Rightarrow>
                (case Reserve (attempt_env a) d tokenHash (w_db w) of
                   (Inl err, s) \<Rightarrow> unavailable (store_error_msg err) (w\<lparr>w_db := s\<rparr>)
                 | (Inr _, s) \<Rightarrow> goto c (Claimed d tokenHash addr) (w\<lparr>w_db := s\<rparr>))))"

text \<open>\<open>register\<close>: the critical section, then the close of the session it displaced.\<close>

definition on_register :: "conn_id \<Rightarrow> string \<Rightarrow> string \<Rightarrow> string \<Rightarrow> time \<Rightarrow> world \<Rightarrow> world" where
  [world_defs]: "on_register c d h addr now w =
     (let v = \<lparr>s_domain = d, s_token_hash = h, s_remote = addr, s_connected_at = now, s_conn = c\<rparr>
      in case register v (w_registry w) of
           (r, displaced) \<Rightarrow> goto c (Added v displaced) (w\<lparr>w_registry := r\<rparr>))"

definition on_displace :: "conn_id \<Rightarrow> session \<Rightarrow> close_call list \<Rightarrow> world \<Rightarrow> world" where
  [world_defs]: "on_displace c v displaced w =
     goto c (Connected v) (w\<lparr>w_closes := w_closes w @ displaced\<rparr>)"

definition on_welcome :: "relay \<Rightarrow> conn_id \<Rightarrow> session \<Rightarrow> bool \<Rightarrow> world \<Rightarrow> world" where
  [world_defs]: "on_welcome P c v encoded w =
     (let w' = w\<lparr>w_metrics := (w_metrics w)\<lparr>total_connections := total_connections (w_metrics w) + 1\<rparr>\<rparr>
      in if encoded then goto c (Serving v) (send c (acceptance (cfg P) (s_domain v)) w')
         else goto c (Leaving v) w')"

text \<open>One round of the heartbeat loop; \<open>None\<close> is a failed read (closed, timed out, bad JSON).\<close>

definition on_control :: "conn_id \<Rightarrow> session \<Rightarrow> Control option \<Rightarrow> world \<Rightarrow> world" where
  [world_defs]: "on_control c v msg w =
     (case msg of
        None \<Rightarrow> goto c (Leaving v) w
      | Some m \<Rightarrow>
          if c_type m \<noteq> ''ping''
          then goto c (Leaving v) (CloseWithError c 1 ''invalid control message'' w)
          else w)"

text \<open>The deferred calls, last in first out.\<close>

definition on_unregister :: "conn_id \<Rightarrow> session \<Rightarrow> world \<Rightarrow> world" where
  [world_defs]: "on_unregister c v w = goto c Closing (w\<lparr>w_registry := unregister v (w_registry w)\<rparr>)"

definition on_finish :: "conn_id \<Rightarrow> world \<Rightarrow> world" where
  [world_defs]: "on_finish c w = goto c Finished (CloseWithError c 0 ''tunnel session ended'' w)"

section \<open>Steps of a revocation\<close>

definition rgoto :: "nat \<Rightarrow> revoker \<Rightarrow> world \<Rightarrow> world" where
  [act_defs]: "rgoto i p w = w\<lparr>w_revoker := (w_revoker w)(i := p)\<rparr>"

definition on_lookup :: "nat \<Rightarrow> string \<Rightarrow> string option \<Rightarrow> world \<Rightarrow> world" where
  [world_defs]: "on_lookup i ident q w =
     (if ident = [] then rgoto i (R_Done False) w
      else
        (case ClientTokenHash q ident (w_db w) of
           Inl _ \<Rightarrow> rgoto i (R_Done False) w
         | Inr h \<Rightarrow> rgoto i (R_Found ident h) w))"

definition on_delete :: "nat \<Rightarrow> string \<Rightarrow> string \<Rightarrow> exec_env \<Rightarrow> world \<Rightarrow> world" where
  [world_defs]: "on_delete i ident h e w =
     (case DeleteClientToken e ident (w_db w) of
        (Inl _, s) \<Rightarrow> rgoto i (R_Done False) (w\<lparr>w_db := s\<rparr>)
      | (Inr deleted, s) \<Rightarrow> rgoto i (if \<not> deleted then R_Done False else R_Deleted h) (w\<lparr>w_db := s\<rparr>))"

definition on_match :: "nat \<Rightarrow> string \<Rightarrow> world \<Rightarrow> world" where
  [world_defs]: "on_match i h w = rgoto i (R_Closing (fst (disconnectToken h (w_registry w)))) w"

definition on_disconnect :: "nat \<Rightarrow> close_call list \<Rightarrow> world \<Rightarrow> world" where
  [world_defs]: "on_disconnect i cs w = rgoto i (R_Done True) (w\<lparr>w_closes := w_closes w @ cs\<rparr>)"

section \<open>The step relation\<close>

datatype event =
  Accept conn_id string
| Hello conn_id greeting
| Authenticate conn_id exec_env
| Claim conn_id attempt
| Register conn_id time
| Displace conn_id
| Welcome conn_id bool
| Control conn_id "Control option"
| Unregister conn_id
| Finish conn_id
| Lookup nat string "string option"
| Delete nat exec_env
| Match nat
| Disconnect nat
| Create exec_env string string string string

inductive step :: "relay \<Rightarrow> world \<Rightarrow> event \<Rightarrow> world \<Rightarrow> bool" for P where
  accept: "w_phase w c = Idle \<Longrightarrow> step P w (Accept c addr) (on_accept c addr w)"
| hello: "w_phase w c = Handshake addr \<Longrightarrow> step P w (Hello c g) (on_hello c addr g w)"
| authenticate: "w_phase w c = Checked h addr \<Longrightarrow>
    step P w (Authenticate c e) (on_authenticate P c h addr e w)"
| claim: "w_phase w c = Claiming h addr n \<Longrightarrow> step P w (Claim c a) (on_claim P c h addr n a w)"
| register: "w_phase w c = Claimed d hash addr \<Longrightarrow>
    step P w (Register c now) (on_register c d hash addr now w)"
| displace: "w_phase w c = Added v cs \<Longrightarrow> step P w (Displace c) (on_displace c v cs w)"
| welcoming: "w_phase w c = Connected v \<Longrightarrow> step P w (Welcome c encoded) (on_welcome P c v encoded w)"
| control: "w_phase w c = Serving v \<Longrightarrow> step P w (Control c msg) (on_control c v msg w)"
| unregister: "w_phase w c = Leaving v \<Longrightarrow> step P w (Unregister c) (on_unregister c v w)"
| finish: "w_phase w c = Closing \<Longrightarrow> step P w (Finish c) (on_finish c w)"
| lookup: "w_revoker w i = R_Idle \<Longrightarrow> step P w (Lookup i ident q) (on_lookup i ident q w)"
| delete: "w_revoker w i = R_Found ident hash \<Longrightarrow>
    step P w (Delete i e) (on_delete i ident hash e w)"
| matching: "w_revoker w i = R_Deleted hash \<Longrightarrow> step P w (Match i) (on_match i hash w)"
| disconnect: "w_revoker w i = R_Closing cs \<Longrightarrow> step P w (Disconnect i) (on_disconnect i cs w)"
| create: "step P w (Create e ident label hash pre)
    (w\<lparr>w_db := snd (CreateClientToken e ident label hash pre (w_db w))\<rparr>)"

inductive steps :: "relay \<Rightarrow> world \<Rightarrow> event list \<Rightarrow> world \<Rightarrow> bool" for P where
  none: "steps P w [] w"
| more: "steps P w evs w' \<Longrightarrow> step P w' ev w'' \<Longrightarrow> steps P w (evs @ [ev]) w''"

definition reachable :: "relay \<Rightarrow> world \<Rightarrow> bool" where
  "reachable P w \<longleftrightarrow> (\<exists>s now evs. db_ok s \<and> steps P (start s now) evs w)"

text \<open>The relation as a function: the next state when the event is possible.\<close>

fun do_event :: "relay \<Rightarrow> event \<Rightarrow> world \<Rightarrow> world option" where
  "do_event P (Accept c addr) w =
     (case w_phase w c of Idle \<Rightarrow> Some (on_accept c addr w) | _ \<Rightarrow> None)"
| "do_event P (Hello c g) w =
     (case w_phase w c of Handshake addr \<Rightarrow> Some (on_hello c addr g w) | _ \<Rightarrow> None)"
| "do_event P (Authenticate c e) w =
     (case w_phase w c of Checked h addr \<Rightarrow> Some (on_authenticate P c h addr e w) | _ \<Rightarrow> None)"
| "do_event P (Claim c a) w =
     (case w_phase w c of Claiming h addr n \<Rightarrow> Some (on_claim P c h addr n a w) | _ \<Rightarrow> None)"
| "do_event P (Register c now) w =
     (case w_phase w c of Claimed d hash addr \<Rightarrow> Some (on_register c d hash addr now w) | _ \<Rightarrow> None)"
| "do_event P (Displace c) w =
     (case w_phase w c of Added v cs \<Rightarrow> Some (on_displace c v cs w) | _ \<Rightarrow> None)"
| "do_event P (Welcome c encoded) w =
     (case w_phase w c of Connected v \<Rightarrow> Some (on_welcome P c v encoded w) | _ \<Rightarrow> None)"
| "do_event P (Control c msg) w =
     (case w_phase w c of Serving v \<Rightarrow> Some (on_control c v msg w) | _ \<Rightarrow> None)"
| "do_event P (Unregister c) w =
     (case w_phase w c of Leaving v \<Rightarrow> Some (on_unregister c v w) | _ \<Rightarrow> None)"
| "do_event P (Finish c) w =
     (case w_phase w c of Closing \<Rightarrow> Some (on_finish c w) | _ \<Rightarrow> None)"
| "do_event P (Lookup i ident q) w =
     (case w_revoker w i of R_Idle \<Rightarrow> Some (on_lookup i ident q w) | _ \<Rightarrow> None)"
| "do_event P (Delete i e) w =
     (case w_revoker w i of R_Found ident hash \<Rightarrow> Some (on_delete i ident hash e w) | _ \<Rightarrow> None)"
| "do_event P (Match i) w =
     (case w_revoker w i of R_Deleted hash \<Rightarrow> Some (on_match i hash w) | _ \<Rightarrow> None)"
| "do_event P (Disconnect i) w =
     (case w_revoker w i of R_Closing cs \<Rightarrow> Some (on_disconnect i cs w) | _ \<Rightarrow> None)"
| "do_event P (Create e ident label hash pre) w =
     Some (w\<lparr>w_db := snd (CreateClientToken e ident label hash pre (w_db w))\<rparr>)"

fun do_events :: "relay \<Rightarrow> event list \<Rightarrow> world \<Rightarrow> world option" where
  "do_events P [] w = Some w"
| "do_events P (ev # evs) w =
     (case do_event P ev w of None \<Rightarrow> None | Some w' \<Rightarrow> do_events P evs w')"

inductive_cases step_matchE: "step P w (Match i) w'"
inductive_simps steps_none [simp]: "steps P w [] w'"

lemma step_iff: "step P w ev w' \<longleftrightarrow> do_event P ev w = Some w'"
  by (cases ev)
    (auto elim: step.cases intro: step.intros split: phase.splits revoker.splits)

lemma steps_append: "steps P w' evs' w'' \<Longrightarrow> steps P w evs w' \<Longrightarrow> steps P w (evs @ evs') w''"
  by (induction rule: steps.induct) (auto simp flip: append_assoc intro: steps.more)

lemma steps_one: "step P w ev w' \<Longrightarrow> steps P w [ev] w'"
  using steps.more [OF steps.none, of P w ev w'] by simp

lemma do_events_steps: "do_events P evs w = Some w' \<Longrightarrow> steps P w evs w'"
proof (induction evs arbitrary: w)
  case (Cons ev evs)
  then obtain w1 where "step P w ev w1" "steps P w1 evs w'"
    by (auto simp: step_iff split: option.splits)
  then show ?case using steps_append [OF _ steps_one] by fastforce
qed simp

end
