(* ===== verification/Tunnel_Safety.thy ===== *)
theory Tunnel_Safety
  imports Tunnel Store_Runs
begin

text \<open>
  What holds in every reachable state of the relay, however the connection handlers and the
  revocations interleave: a live tunnel belongs to the owner of its name, the registry holds
  only running handlers, a displaced session is disconnected, revocation disconnects.
\<close>

section \<open>Effect of the single steps\<close>

lemma static_token:
  "fold (\<lambda>x valid. if p x then True else valid) xs b \<longleftrightarrow> b \<or> (\<exists>x \<in> set xs. p x)"
  by (induction xs arbitrary: b) auto

lemma authenticate_state:
  "owners (snd (authenticate P e t s)) = owners s" "creds (snd (authenticate P e t s)) = creds s"
  "db_ok s \<Longrightarrow> db_ok (snd (authenticate P e t s))"
  using auth_state [of e "hashToken P t" s]
  by (auto simp: authenticate_def Let_def split: prod.split sum.split)

lemma authenticate_accepts:
  assumes "db_ok s" "fst (authenticate P e t s)"
  shows "hashToken P t \<in> hashToken P ` set (AuthTokens (cfg P)) \<or> hashToken P t \<in> accepted s"
proof (cases "\<exists>x \<in> set (AuthTokens (cfg P)). constantTimeEqual P t x")
  case True
  then show ?thesis by (auto simp: constantTimeEqual_def hashToken_def image_iff)
next
  case False
  obtain r s' where A: "AuthenticateClientToken e (hashToken P t) s = (r, s')" by fastforce
  with False assms(2) have "r = Inr True"
    by (simp add: authenticate_def static_token split: sum.splits)
  with A auth_result [OF assms(1)] show ?thesis
    by (metis ran_creds [OF assms(1)])
qed

lemma on_authenticate_cases:
  obtains (passed) s' where "authenticate P e (h_token h) (w_db w) = (True, s')"
      "on_authenticate P c h addr e w = goto c (Claiming h addr 0) (w\<lparr>w_db := s'\<rparr>)"
  | (refused) s' msg reason where "s' = snd (authenticate P e (h_token h) (w_db w))"
      "on_authenticate P c h addr e w = refuse c msg reason (w\<lparr>w_db := s'\<rparr>)"
proof (cases "authenticate P e (h_token h) (w_db w)")
  case (Pair b s')
  show thesis
  proof (cases "b \<and> h_mode h = ''http''")
    case True
    with Pair show thesis by (intro passed [of s']) (simp_all add: on_authenticate_def)
  next
    case False
    with Pair show thesis
      by (cases b) (simp_all add: on_authenticate_def refused)
  qed
qed

lemma on_claim_cases:
  obtains (claimed) d s' where "owners s' = (owners (w_db w))(d \<mapsto> hashToken P (h_token h))"
      "owners (w_db w) \<subseteq>\<^sub>m owners s'" "tunnel_name d"
      "creds s' = creds (w_db w)" "db_ok (w_db w) \<Longrightarrow> db_ok s'"
      "on_claim P c h addr n a w = goto c (Claimed d (hashToken P (h_token h)) addr) (w\<lparr>w_db := s'\<rparr>)"
  | (again) "on_claim P c h addr n a w = goto c (Claiming h addr (Suc n)) w" "n < 32"
  | (refused) msg where "on_claim P c h addr n a w = refuse c msg ''domain unavailable'' w"
proof -
  let ?hash = "hashToken P (h_token h)"
  have reserved: thesis
    if R: "Reserve env d ?hash (w_db w) = (Inr u, s')" and "tunnel_name d"
      and "on_claim P c h addr n a w = goto c (Claimed d ?hash addr) (w\<lparr>w_db := s'\<rparr>)" for env d s' u
  proof (rule claimed)
    show "owners s' = (owners (w_db w))(d \<mapsto> ?hash)" by (rule Reserve_effect(1) [OF R])
    show "owners (w_db w) \<subseteq>\<^sub>m owners s'"
      using Reserve_state(1) [of "w_db w" env d ?hash] R by simp
    show "creds s' = creds (w_db w)" using Reserve_creds [of env d ?hash "w_db w"] R by simp
    show "db_ok s'" if "db_ok (w_db w)" by (rule Reserve_effect(4) [OF R that])
  qed (use that in auto)
  show thesis
  proof (cases "h_domain h = []")
    case True
    show thesis
    proof (cases "n < 32")
      case False
      with True refused show thesis by (simp add: on_claim_def Let_def)
    next
      case lt: True
      show thesis
      proof (rule alloc_try_cases [of a ?hash "w_db w"])
        fix b s' assume "Reserve (attempt_env a) (random_domain b) ?hash (w_db w) = (Inr (), s')"
          "alloc_try a ?hash (w_db w) = (Some (Inr (random_domain b)), s')"
        with True lt reserved show thesis by (simp add: on_claim_def Let_def random_domain_name)
      next
        fix err assume "alloc_try a ?hash (w_db w) = (Some (Inl err), w_db w)"
        with True lt refused show thesis by (simp add: on_claim_def Let_def)
      next
        assume "alloc_try a ?hash (w_db w) = (None, w_db w)"
        with True lt again show thesis by (simp add: on_claim_def Let_def)
      qed
    qed
  next
    case False
    show thesis
    proof (cases "Normalize (lower_table P) (h_domain h)")
      case (Inl err)
      with False refused show thesis by (simp add: on_claim_def Let_def)
    next
      case (Inr d)
      then have "tunnel_name d" by (rule normalize_sound)
      obtain r s' where R: "Reserve (attempt_env a) d ?hash (w_db w) = (r, s')" by fastforce
      show thesis
      proof (cases r)
        case (Inl err)
        with R have "s' = w_db w" by (auto dest: Reserve_error)
        with Inl R False \<open>Normalize _ _ = Inr d\<close> refused show thesis
          by (simp add: on_claim_def Let_def)
      next
        case (Inr u)
        with R False \<open>Normalize _ _ = Inr d\<close> \<open>tunnel_name d\<close> reserved show thesis
          by (simp add: on_claim_def Let_def)
      qed
    qed
  qed
qed

text \<open>No step takes a name from its owner or breaks the tables.\<close>

lemma step_db:
  assumes "step P w ev w'"
  shows "owners (w_db w) \<subseteq>\<^sub>m owners (w_db w') \<and> (db_ok (w_db w) \<longrightarrow> db_ok (w_db w'))"
  using assms
proof cases
  case (authenticate c h addr e)
  then show ?thesis
    using authenticate_state [where P = P and e = e and t = "h_token h" and s = "w_db w"]
    by (rule_tac on_authenticate_cases [of P e h w c addr]) (auto simp: act_defs)
next
  case (claim c h addr n a)
  then show ?thesis
    by (rule_tac on_claim_cases [of w P h c addr n a]) (auto simp: act_defs)
next
  case (delete i ident hash e)
  then show ?thesis
    using delete_state [of e ident "w_db w"]
    by (auto simp: act_defs world_defs split: prod.split sum.split)
next
  case (create e ident label hash pre)
  then show ?thesis by (simp add: Create_state)
qed (auto simp: act_defs world_defs Let_def split: greeting.split option.split sum.split prod.split)

lemma step_closes:
  assumes "step P w ev w'"
  shows "\<exists>cs. w_closes w' = w_closes w @ cs"
  using assms
proof cases
  case (authenticate c h addr e)
  then show ?thesis
    by (rule_tac on_authenticate_cases [of P e h w c addr]) (simp_all add: act_defs)
next
  case (claim c h addr n a)
  then show ?thesis
    by (rule_tac on_claim_cases [of w P h c addr n a]) (simp_all add: act_defs)
qed (auto simp: act_defs world_defs Let_def split: greeting.split option.split sum.split prod.split)

text \<open>The session a handler has put into the registry and not yet taken out.\<close>

fun hosted :: "phase \<Rightarrow> session option" where
  "hosted (Added v cs) = Some v"
| "hosted (Connected v) = Some v"
| "hosted (Serving v) = Some v"
| "hosted (Leaving v) = Some v"
| "hosted p = None"

definition plain_phase :: "phase \<Rightarrow> bool" where
  "plain_phase p \<longleftrightarrow> (case p of Claimed d h a \<Rightarrow> False | Added v cs \<Rightarrow> False | _ \<Rightarrow> True)"

lemma plain_phases [simp]:
  "plain_phase (Handshake a)" "plain_phase (Checked h a)" "plain_phase (Claiming h a n)"
  "plain_phase (Connected v)" "plain_phase (Serving v)" "plain_phase (Leaving v)"
  "plain_phase Closing" "plain_phase Finished" "\<not> plain_phase (Claimed d t a)" "\<not> plain_phase (Added v cs)"
  by (simp_all add: plain_phase_def)

text \<open>
  Every step is of one of five kinds: it leaves the handlers alone, it moves one handler without
  touching the registry, it ends a claim, it registers, or it unregisters.
\<close>

lemma step_kinds:
  assumes "step P w ev w'"
  obtains (admin) "w_registry w' = w_registry w" "w_phase w' = w_phase w"
  | (moved) c p where "w_registry w' = w_registry w" "w_phase w' = (w_phase w)(c := p)"
      "hosted p = hosted (w_phase w c)" "plain_phase p"
      "\<forall>v cs. w_phase w c = Added v cs \<longrightarrow> set cs \<subseteq> set (w_closes w')"
  | (claimed) c d h addr where "w_registry w' = w_registry w"
      "w_phase w' = (w_phase w)(c := Claimed d h addr)" "hosted (w_phase w c) = None"
      "plain_phase (w_phase w c)" "owners (w_db w') d = Some h" "tunnel_name d"
  | (registered) c d h addr now where "w_phase w c = Claimed d h addr"
      "w' = on_register c d h addr now w"
  | (unregistered) c v where "w_phase w c = Leaving v" "w' = on_unregister c v w"
  using assms
proof cases
  case (authenticate c h addr e)
  then show thesis
    by (rule_tac on_authenticate_cases [of P e h w c addr]; rule_tac moved [of c "w_phase w' c"])
      (simp_all add: act_defs)
next
  case (claim c h addr n a)
  show thesis
  proof (rule on_claim_cases [of w P h c addr n a])
    fix d s' assume "owners s' = (owners (w_db w))(d \<mapsto> hashToken P (h_token h))" "tunnel_name d"
      "on_claim P c h addr n a w = goto c (Claimed d (hashToken P (h_token h)) addr) (w\<lparr>w_db := s'\<rparr>)"
    with claim show thesis by (intro claimed [of c d "hashToken P (h_token h)" addr]) (simp_all add: act_defs)
  qed (use claim in \<open>(rule_tac moved [of c "w_phase w' c"], simp_all add: act_defs)+\<close>)
next
  case (hello c addr g)
  then show thesis
    by (rule_tac moved [of c "w_phase w' c"]) (auto simp: act_defs world_defs split: greeting.split)
next
  case (welcoming c v encoded)
  then show thesis
    by (rule_tac moved [of c "w_phase w' c"]) (auto simp: act_defs world_defs Let_def)
next
  case (control c v msg)
  then show thesis
    by (rule_tac moved [of c "w_phase w' c"]) (auto simp: act_defs world_defs split: option.split)
next
  case (accept c addr)
  then show thesis by (rule_tac moved [of c "w_phase w' c"]) (simp_all add: act_defs world_defs)
next
  case (displace c v cs)
  then show thesis by (rule_tac moved [of c "w_phase w' c"]) (simp_all add: act_defs world_defs)
next
  case (finish c)
  then show thesis by (rule_tac moved [of c "w_phase w' c"]) (simp_all add: act_defs world_defs)
qed (auto simp: act_defs world_defs Let_def intro: registered unregistered admin
    split: option.split sum.split prod.split)

section \<open>The invariant\<close>

definition owned :: "world \<Rightarrow> session \<Rightarrow> bool" where
  "owned w v \<longleftrightarrow> owners (w_db w) (s_domain v) = Some (s_token_hash v) \<and> tunnel_name (s_domain v)"

definition world_ok :: "world \<Rightarrow> bool" where
  "world_ok w \<longleftrightarrow>
     db_ok (w_db w) \<and> registry_ok (w_registry w)
     \<and> (\<forall>c d h a. w_phase w c = Claimed d h a \<longrightarrow> owners (w_db w) d = Some h \<and> tunnel_name d)
     \<and> (\<forall>c v. hosted (w_phase w c) = Some v \<longrightarrow> s_conn v = c \<and> owned w v)
     \<and> (\<forall>d v. map_of (w_registry w) d = Some v \<longrightarrow> hosted (w_phase w (s_conn v)) = Some v)"

lemma world_ok_start: "db_ok s \<Longrightarrow> world_ok (start s now)"
  by (simp add: world_ok_def start_def registry_ok_def newRegistry_def)

text \<open>Ownership carries over to the next state.\<close>

lemma owned_mono: "owners (w_db w) \<subseteq>\<^sub>m owners (w_db w') \<Longrightarrow> owned w v \<Longrightarrow> owned w' v"
  unfolding owned_def by (metis domI map_le_def)

lemma owners_mono: "owners s \<subseteq>\<^sub>m owners s' \<Longrightarrow> owners s d = Some h \<Longrightarrow> owners s' d = Some h"
  by (metis domI map_le_def)

lemma step_world_ok:
  assumes "step P w ev w'" "world_ok w"
  shows "world_ok w'"
proof -
  from assms(2) have ok: "db_ok (w_db w)" "registry_ok (w_registry w)"
    and cl: "\<And>c d h a. w_phase w c = Claimed d h a \<Longrightarrow> owners (w_db w) d = Some h \<and> tunnel_name d"
    and ho: "\<And>c v. hosted (w_phase w c) = Some v \<Longrightarrow> s_conn v = c \<and> owned w v"
    and re: "\<And>d v. map_of (w_registry w) d = Some v \<Longrightarrow> hosted (w_phase w (s_conn v)) = Some v"
    by (auto simp: world_ok_def)
  note own = owned_mono [OF conjunct1 [OF step_db [OF assms(1)]]]
    and owns = owners_mono [OF conjunct1 [OF step_db [OF assms(1)]]]
  have db': "db_ok (w_db w')" using step_db [OF assms(1)] ok by simp
  show ?thesis
  proof (rule step_kinds [OF assms(1)])
    assume "w_registry w' = w_registry w" "w_phase w' = w_phase w"
    then show ?thesis
      unfolding world_ok_def using db' ok cl ho re own owns by auto
  next
    fix c p assume *: "w_registry w' = w_registry w" "w_phase w' = (w_phase w)(c := p)"
      "hosted p = hosted (w_phase w c)" "plain_phase p"
    then have "\<And>d h a. p \<noteq> Claimed d h a" by auto
    with * show ?thesis
      unfolding world_ok_def using db' ok cl ho re own owns by auto
  next
    fix c d h addr assume "w_registry w' = w_registry w"
      "w_phase w' = (w_phase w)(c := Claimed d h addr)" "hosted (w_phase w c) = None"
      "owners (w_db w') d = Some h" "tunnel_name d"
    then show ?thesis
      unfolding world_ok_def using db' ok cl ho re own owns by auto
  next
    fix c d h addr now assume *: "w_phase w c = Claimed d h addr" "w' = on_register c d h addr now w"
    define v where "v = \<lparr>s_domain = d, s_token_hash = h, s_remote = addr, s_connected_at = now, s_conn = c\<rparr>"
    have w': "w_registry w' = fst (register v (w_registry w))"
      "w_phase w' = (w_phase w)(c := Added v (snd (register v (w_registry w))))" "w_db w' = w_db w"
      by (simp_all add: * on_register_def v_def [symmetric] goto_def split: prod.split)
    have v: "s_conn v = c" "owned w' v" using cl [OF *(1)] by (simp_all add: v_def owned_def w')
    have "s_conn u \<noteq> c" if "map_of (w_registry w) e = Some u" for e u
      using re [OF that] *(1) by auto
    then show ?thesis
      unfolding world_ok_def using db' ok cl ho re own owns v register_ok
      by (auto simp: w')
  next
    fix c v assume *: "w_phase w c = Leaving v" "w' = on_unregister c v w"
    have w': "w_registry w' = unregister v (w_registry w)" "w_phase w' = (w_phase w)(c := Closing)"
      "w_db w' = w_db w"
      by (simp_all add: * on_unregister_def goto_def)
    have v: "s_conn v = c" using ho [of c v] *(1) by simp
    have "s_conn u \<noteq> c" if "map_of (unregister v (w_registry w)) e = Some u" for e u
    proof
      assume "s_conn u = c"
      moreover have u: "map_of (w_registry w) e = Some u"
        using that by (auto simp: map_of_unregister split: if_splits)
      ultimately have "u = v" using re [OF u] *(1) by simp
      with u that ok(2) show False by (auto simp: map_of_unregister registry_ok_def)
    qed
    moreover have "hosted (w_phase w (s_conn u)) = Some u"
      if "map_of (unregister v (w_registry w)) e = Some u" for e u
      using that re by (auto simp: map_of_unregister split: if_splits)
    ultimately show ?thesis
      unfolding world_ok_def using db' ok cl ho re own owns unregister_ok
      by (auto simp: w')
  qed
qed

lemma steps_ok: "steps P w evs w' \<Longrightarrow> world_ok w \<Longrightarrow> world_ok w'"
  by (induction rule: steps.induct) (auto intro: step_world_ok)

lemma steps_owners: "steps P w evs w' \<Longrightarrow> owners (w_db w) \<subseteq>\<^sub>m owners (w_db w')"
  by (induction rule: steps.induct) (auto dest!: step_db intro: map_le_trans)

lemma reachable_ok: "reachable P w \<Longrightarrow> world_ok w"
  by (auto simp: reachable_def intro: steps_ok world_ok_start)

lemma reachable_invariant:
  assumes "reachable P w" and init: "\<And>s now. db_ok s \<Longrightarrow> I (start s now)"
    and pres: "\<And>w ev w'. step P w ev w' \<Longrightarrow> world_ok w \<Longrightarrow> I w \<Longrightarrow> I w'"
  shows "I w"
proof -
  have "world_ok w0 \<Longrightarrow> I w0 \<Longrightarrow> I w'" if "steps P w0 evs w'" for w0 evs w'
    using that by (induction rule: steps.induct) (auto intro: pres steps_ok)
  then show ?thesis using assms(1) world_ok_start init unfolding reachable_def by blast
qed

lemma registered_session:
  assumes "world_ok w" "map_of (w_registry w) d = Some v"
  shows "s_domain v = d" "tunnel_name d" "owners (w_db w) d = Some (s_token_hash v)"
    "hosted (w_phase w (s_conn v)) = Some v"
proof -
  have "s_domain v = d \<and> hosted (w_phase w (s_conn v)) = Some v"
    using assms by (auto simp: world_ok_def registry_ok_def)
  moreover from this have "owned w v" using assms(1) by (auto simp: world_ok_def)
  ultimately show "s_domain v = d" "tunnel_name d" "owners (w_db w) d = Some (s_token_hash v)"
    "hosted (w_phase w (s_conn v)) = Some v"
    by (auto simp: owned_def)
qed

text \<open>A handler that is no longer routed to has been, or is about to be, disconnected.\<close>

definition replaced_close :: "conn_id \<Rightarrow> close_call" where
  "replaced_close c = \<lparr>c_conn = c, c_code = 2, c_reason = ''tunnel replaced by a newer connection''\<rparr>"

definition displacing :: "world \<Rightarrow> conn_id \<Rightarrow> bool" where
  "displacing w c \<longleftrightarrow> (\<exists>c' v cs. w_phase w c' = Added v cs \<and> replaced_close c \<in> set cs)"

definition settled :: "world \<Rightarrow> session \<Rightarrow> bool" where
  "settled w v \<longleftrightarrow> map_of (w_registry w) (s_domain v) = Some v
     \<or> replaced_close (s_conn v) \<in> set (w_closes w) \<or> displacing w (s_conn v)"

lemma displacing_moved:
  assumes "displacing w x" "w_phase w' = (w_phase w)(c := p)"
    and "\<forall>v cs. w_phase w c = Added v cs \<longrightarrow> set cs \<subseteq> set (w_closes w')"
  shows "displacing w' x \<or> replaced_close x \<in> set (w_closes w')"
proof -
  from assms(1) obtain c' v cs where c': "w_phase w c' = Added v cs" "replaced_close x \<in> set cs"
    unfolding displacing_def by blast
  show ?thesis
  proof (cases "c' = c")
    case True
    with c' assms(3) show ?thesis by auto
  next
    case False
    with c' assms(2) have "w_phase w' c' = Added v cs" by simp
    with c'(2) show ?thesis unfolding displacing_def by blast
  qed
qed

lemma step_settled:
  assumes "step P w ev w'" "world_ok w" "\<forall>c v. hosted (w_phase w c) = Some v \<longrightarrow> settled w v"
  shows "\<forall>c v. hosted (w_phase w' c) = Some v \<longrightarrow> settled w' v"
proof -
  obtain cs where cs: "w_closes w' = w_closes w @ cs" using step_closes [OF assms(1)] by blast
  have keep: "settled w' v"
    if "settled w v" "map_of (w_registry w) (s_domain v) = Some v \<Longrightarrow> map_of (w_registry w') (s_domain v) = Some v"
      "w_phase w' = (w_phase w)(c := p)"
      "\<forall>v cs. w_phase w c = Added v cs \<longrightarrow> set cs \<subseteq> set (w_closes w')" for v c p
    using that(1,2) displacing_moved [OF _ that(3,4)] cs unfolding settled_def by auto
  show ?thesis
  proof (rule step_kinds [OF assms(1)])
    assume "w_registry w' = w_registry w" "w_phase w' = w_phase w"
    then show ?thesis using assms(3) cs by (auto simp: settled_def displacing_def)
  next
    fix c p assume *: "w_registry w' = w_registry w" "w_phase w' = (w_phase w)(c := p)"
      "hosted p = hosted (w_phase w c)"
      "\<forall>v cs. w_phase w c = Added v cs \<longrightarrow> set cs \<subseteq> set (w_closes w')"
    then have "hosted (w_phase w' x) = hosted (w_phase w x)" for x by simp
    with * assms(3) show ?thesis using keep [OF _ _ *(2,4)] by simp
  next
    fix c d h addr assume *: "w_registry w' = w_registry w"
      "w_phase w' = (w_phase w)(c := Claimed d h addr)" "hosted (w_phase w c) = None"
    then have "hosted (w_phase w' x) = hosted (w_phase w x)" for x by simp
    moreover have "\<forall>v cs. w_phase w c = Added v cs \<longrightarrow> set cs \<subseteq> set (w_closes w')" using *(3) by auto
    ultimately show ?thesis using * assms(3) keep [OF _ _ *(2)] by simp
  next
    fix c d h addr now assume *: "w_phase w c = Claimed d h addr" "w' = on_register c d h addr now w"
    define v where "v = \<lparr>s_domain = d, s_token_hash = h, s_remote = addr, s_connected_at = now, s_conn = c\<rparr>"
    define out where "out = snd (register v (w_registry w))"
    have w': "w_registry w' = fst (register v (w_registry w))"
      "w_phase w' = (w_phase w)(c := Added v out)"
      by (simp_all add: * on_register_def out_def v_def [symmetric] goto_def split: prod.split)
    have added: "\<forall>v cs. w_phase w c = Added v cs \<longrightarrow> set cs \<subseteq> set (w_closes w')" by (simp add: *(1))
    have "settled w' u" if u: "hosted (w_phase w x) = Some u" "x \<noteq> c" for x u
    proof (cases "map_of (w_registry w) d = Some u")
      case True
      have "s_conn u = x" using assms(2) u(1) by (auto simp: world_ok_def)
      with u(2) have ne: "s_conn u \<noteq> s_conn v" by (simp add: v_def)
      have "s_domain v = d" by (simp add: v_def)
      with ne True have "replaced_close (s_conn u) \<in> set out"
        by (simp add: out_def register_def replaced_close_def)
      then have "displacing w' (s_conn u)" by (auto simp: displacing_def w')
      then show ?thesis by (simp add: settled_def)
    next
      case False
      with assms(3) u have "settled w u" by blast
      moreover have "map_of (w_registry w') (s_domain u) = Some u"
        if "map_of (w_registry w) (s_domain u) = Some u"
        using that False by (auto simp: w' v_def)
      ultimately show ?thesis using keep [OF _ _ w'(2) added] by blast
    qed
    moreover have "settled w' v" by (simp add: settled_def w')
    ultimately show ?thesis by (auto simp: w')
  next
    fix c v assume *: "w_phase w c = Leaving v" "w' = on_unregister c v w"
    have w': "w_registry w' = unregister v (w_registry w)" "w_phase w' = (w_phase w)(c := Closing)"
      by (simp_all add: * on_unregister_def goto_def)
    have conn: "s_conn u = x" if "hosted (w_phase w x) = Some u" for x u
      using assms(2) that by (auto simp: world_ok_def)
    have "settled w' u" if u: "hosted (w_phase w x) = Some u" "x \<noteq> c" for x u
    proof (rule keep [OF _ _ w'(2)])
      show "settled w u" using assms(3) u(1) by blast
      have "s_conn v \<noteq> s_conn u" using conn [of c v] conn [OF u(1)] u(2) *(1) by simp
      then show "map_of (w_registry w') (s_domain u) = Some u"
        if "map_of (w_registry w) (s_domain u) = Some u"
        using that by (simp add: w' map_of_unregister)
    qed (simp add: *(1))
    then show ?thesis by (auto simp: w')
  qed
qed

lemma reachable_settled:
  assumes "reachable P w"
  shows "\<forall>c v. hosted (w_phase w c) = Some v \<longrightarrow> settled w v"
  using assms by (rule reachable_invariant) (simp add: start_def, rule step_settled)

end
