(* ===== verification/Revocation.thy ===== *)
theory Revocation
  imports Tunnel_Safety
begin

text \<open>
  Revocation of a managed token while handshakes run. \<open>RevokeToken\<close> deletes the token and then
  closes the sessions it finds in the registry; a handshake checks the token first and registers
  its session last. The lemmas show that a revocation disconnects every tunnel of the token when
  no handshake with it is between the two; the last property is a run in which one is, and which
  ends with a revoked token's tunnel connected.
\<close>

section \<open>Conditions on a run\<close>

text \<open>The token hash of a handler between its check and its registration.\<close>

fun carries :: "relay \<Rightarrow> phase \<Rightarrow> string option" where
  "carries P (Claiming h addr n) = Some (hashToken P (h_token h))"
| "carries P (Claimed d hash addr) = Some hash"
| "carries P p = None"

definition inflight :: "relay \<Rightarrow> world \<Rightarrow> string \<Rightarrow> bool" where
  "inflight P w hash \<longleftrightarrow> (\<exists>c. carries P (w_phase w c) = Some hash)"

text \<open>
  No handshake overtakes a revocation, the driver reports the number of deleted rows, and a
  random identifier is not one that is being revoked.
\<close>

definition calm :: "relay \<Rightarrow> world \<Rightarrow> event \<Rightarrow> bool" where
  "calm P w ev \<longleftrightarrow>
     (case ev of
        Match i \<Rightarrow> (\<forall>hash. w_revoker w i = R_Deleted hash \<longrightarrow> \<not> inflight P w hash)
      | Delete i e \<Rightarrow> rows_err e = None
      | Create e ident label hash pre \<Rightarrow> (\<forall>i h. w_revoker w i \<noteq> R_Found ident h)
      | _ \<Rightarrow> True)"

inductive calm_steps :: "relay \<Rightarrow> world \<Rightarrow> world \<Rightarrow> bool" for P where
  calm_none: "calm_steps P w w"
| calm_more: "calm_steps P w w' \<Longrightarrow> step P w' ev w'' \<Longrightarrow> calm P w' ev \<Longrightarrow> calm_steps P w w''"

section \<open>Which tokens are in force\<close>

definition static_hashes :: "relay \<Rightarrow> string set" where
  "static_hashes P = hashToken P ` set (AuthTokens (cfg P))"

definition in_force :: "relay \<Rightarrow> world \<Rightarrow> string \<Rightarrow> bool" where
  "in_force P w h \<longleftrightarrow> h \<in> static_hashes P \<or> h \<in> ran (creds (w_db w)) \<or> (\<exists>i. w_revoker w i = R_Deleted h)"

definition found_ok :: "world \<Rightarrow> bool" where
  "found_ok w \<longleftrightarrow> (\<forall>i ident h. w_revoker w i = R_Found ident h \<longrightarrow>
     creds (w_db w) ident = None \<or> creds (w_db w) ident = Some h)"

lemma token_hash_creds: "ClientTokenHash q i s = Inr h \<Longrightarrow> creds s i = Some h"
proof -
  assume "ClientTokenHash q i s = Inr h"
  then obtain t ts where "filter (\<lambda>t. ct_id t = i) (client_tokens s) = t # ts" "ct_hash t = h"
    by (auto simp: ClientTokenHash_def split: option.splits list.splits)
  moreover have "map_of (map (\<lambda>t. (ct_id t, ct_hash t)) xs) i = Some (ct_hash t)"
    if "filter (\<lambda>t. ct_id t = i) xs = t # ts" for xs
    using that by (induction xs) (auto split: if_splits)
  ultimately show ?thesis by (simp add: creds_def)
qed

text \<open>Only the deletion of a token takes a credential away.\<close>

lemma handler_creds:
  assumes "step P w ev w'" "\<forall>i e. ev \<noteq> Delete i e" "\<forall>e i l h p. ev \<noteq> Create e i l h p"
  shows "creds (w_db w') = creds (w_db w)"
  using assms
proof cases
  case (authenticate c h addr e)
  then show ?thesis
    using authenticate_state [where P = P and e = e and t = "h_token h" and s = "w_db w"]
    by (rule_tac on_authenticate_cases [of P e h w c addr]) (auto simp: act_defs)
next
  case (claim c h addr n a)
  then show ?thesis
    by (rule_tac on_claim_cases [of w P h c addr n a]) (auto simp: act_defs)
qed (auto simp: act_defs world_defs Let_def split: greeting.split option.split sum.split prod.split)

lemma handler_revoker:
  assumes "step P w ev w'"
    and "case ev of Lookup i ident q \<Rightarrow> False | Delete i e \<Rightarrow> False | Match i \<Rightarrow> False
      | Disconnect i \<Rightarrow> False | _ \<Rightarrow> True"
  shows "w_revoker w' = w_revoker w"
  using assms
proof cases
  case (authenticate c h addr e)
  then show ?thesis
    by (rule_tac on_authenticate_cases [of P e h w c addr]) (auto simp: act_defs)
next
  case (claim c h addr n a)
  then show ?thesis
    by (rule_tac on_claim_cases [of w P h c addr n a]) (auto simp: act_defs)
qed (auto simp: act_defs world_defs Let_def split: greeting.split option.split sum.split prod.split)

lemma on_delete_cases:
  assumes "db_ok (w_db w)" "rows_err e = None"
    and "creds (w_db w) ident = None \<or> creds (w_db w) ident = Some h"
  obtains (gone) s' where "creds (w_db w) ident = Some h" "creds s' = (creds (w_db w))(ident := None)"
      "on_delete i ident h e w = rgoto i (R_Deleted h) (w\<lparr>w_db := s'\<rparr>)"
  | (absent) s' where "creds s' = creds (w_db w)"
      "on_delete i ident h e w = rgoto i (R_Done False) (w\<lparr>w_db := s'\<rparr>)"
proof -
  obtain r s' where D: "DeleteClientToken e ident (w_db w) = (r, s')" by fastforce
  show thesis
  proof (cases r)
    case (Inl err)
    with D have "s' = w_db w" using delete_error assms(2) by blast
    have "on_delete i ident h e w = rgoto i (R_Done False) (w\<lparr>w_db := s'\<rparr>)"
      by (simp add: on_delete_def D Inl)
    moreover have "creds s' = creds (w_db w)" by (simp add: \<open>s' = w_db w\<close>)
    ultimately show thesis by (rule absent [rotated])
  next
    case (Inr b)
    with D have "b \<longleftrightarrow> creds (w_db w) ident \<noteq> None" "creds s' = (creds (w_db w))(ident := None)"
      using delete_effect [OF assms(1)] by auto
    with D Inr assms(3) gone [of s'] absent [of s'] show thesis
      by (cases b) (auto simp: on_delete_def fun_upd_idem_iff)
  qed
qed

lemma found_ok_step:
  assumes "step P w ev w'" "calm P w ev" "world_ok w" "found_ok w"
  shows "found_ok w'"
proof -
  have ok: "db_ok (w_db w)" using assms(3) by (simp add: world_ok_def)
  have found: "creds (w_db w) ident = None \<or> creds (w_db w) ident = Some h"
    if "w_revoker w i = R_Found ident h" for i ident h
    using assms(4) that unfolding found_ok_def by blast
  show ?thesis
    using assms(1)
  proof cases
    case (lookup i ident q)
    then show ?thesis
      using found by (auto simp: found_ok_def act_defs world_defs dest: token_hash_creds split: sum.splits if_splits)
  next
    case (delete i ident hash e)
    have "rows_err e = None" using assms(2) delete by (simp add: calm_def)
    then show ?thesis
      by (rule on_delete_cases [OF ok _ found [OF delete(3)], of e i])
        (use delete found in \<open>auto simp: found_ok_def act_defs split: if_splits\<close>)
  next
    case (create e ident label hash pre)
    have "creds (w_db w') ident' = creds (w_db w) ident'" if "w_revoker w i = R_Found ident' h" for i ident' h
    proof -
      have "ident' \<noteq> ident" using assms(2) create that by (auto simp: calm_def)
      then show ?thesis using create Create_creds [OF ok, of e ident label hash pre] by auto
    qed
    with found create(2) show ?thesis by (auto simp: found_ok_def)
  qed (use handler_creds [OF assms(1)] handler_revoker [OF assms(1)] found in
      \<open>auto simp: found_ok_def on_match_def on_disconnect_def rgoto_def split: if_splits\<close>)
qed

lemma in_force_keep:
  assumes "in_force P w h" "w_revoker w' = (w_revoker w)(i := p)" "w_revoker w i \<noteq> R_Deleted h"
    and "h \<in> ran (creds (w_db w)) \<Longrightarrow> h \<in> ran (creds (w_db w')) \<or> p = R_Deleted h"
  shows "in_force P w' h"
proof -
  consider "h \<in> static_hashes P" | "h \<in> ran (creds (w_db w))" | j where "w_revoker w j = R_Deleted h"
    using assms(1) unfolding in_force_def by blast
  then show ?thesis
  proof cases
    case 3
    then have "j \<noteq> i" using assms(3) by auto
    with 3 assms(2) have "w_revoker w' j = R_Deleted h" by simp
    then show ?thesis unfolding in_force_def by blast
  next
    case 2
    with assms(4) consider "h \<in> ran (creds (w_db w'))" | "p = R_Deleted h" by blast
    then show ?thesis
    proof cases
      case 2
      with assms(2) have "w_revoker w' i = R_Deleted h" by simp
      then show ?thesis unfolding in_force_def by blast
    qed (simp add: in_force_def)
  qed (simp add: in_force_def)
qed

lemma in_force_step:
  assumes "step P w ev w'" "calm P w ev" "world_ok w" "found_ok w" "in_force P w h"
  shows "in_force P w' h \<or> (\<exists>i. ev = Match i \<and> w_revoker w i = R_Deleted h)"
proof -
  have ok: "db_ok (w_db w)" using assms(3) by (simp add: world_ok_def)
  show ?thesis
    using assms(1)
  proof cases
    case (lookup i ident q)
    have "in_force P w' h"
      by (rule in_force_keep [OF assms(5), of w' i "w_revoker w' i"])
        (use lookup in \<open>auto simp: act_defs world_defs split: sum.split\<close>)
    then show ?thesis ..
  next
    case (delete i ident hash e)
    have "creds (w_db w) ident = None \<or> creds (w_db w) ident = Some hash"
      using assms(4) delete(3) unfolding found_ok_def by blast
    moreover have "rows_err e = None" using assms(2) delete by (simp add: calm_def)
    ultimately show ?thesis
    proof (rule_tac on_delete_cases [OF ok, of e ident hash i])
      fix s' assume s': "creds (w_db w) ident = Some hash" "creds s' = (creds (w_db w))(ident := None)"
        "on_delete i ident hash e w = rgoto i (R_Deleted hash) (w\<lparr>w_db := s'\<rparr>)"
      have "h \<in> ran (creds s') \<or> h = hash" if hran: "h \<in> ran (creds (w_db w))"
      proof -
        obtain j where j: "creds (w_db w) j = Some h" using hran unfolding ran_def by blast
        show ?thesis
        proof (cases "j = ident")
          case False
          with j s'(2) have "creds s' j = Some h" by simp
          then show ?thesis by (auto intro: ranI)
        qed (use j s'(1) in simp)
      qed
      then have "in_force P w' h"
        by (intro in_force_keep [OF assms(5), of w' i "R_Deleted hash"])
          (use delete s'(3) in \<open>auto simp: act_defs\<close>)
      then show ?thesis ..
    next
      fix s' assume s': "creds s' = creds (w_db w)"
        "on_delete i ident hash e w = rgoto i (R_Done False) (w\<lparr>w_db := s'\<rparr>)"
      then have "in_force P w' h"
        by (intro in_force_keep [OF assms(5), of w' i "R_Done False"])
          (use delete s' in \<open>auto simp: act_defs\<close>)
      then show ?thesis ..
    qed
  next
    case (create e ident label hash pre)
    then show ?thesis
      using assms(5) Create_creds [OF ok, of e ident label hash pre]
      by (auto simp: in_force_def ran_map_upd)
  next
    case (matching i hash)
    show ?thesis
    proof (cases "hash = h")
      case False
      then have "in_force P w' h"
        by (intro in_force_keep [OF assms(5), of w' i "w_revoker w' i"])
          (use matching in \<open>auto simp: act_defs world_defs\<close>)
      then show ?thesis ..
    qed (use matching in blast)
  next
    case (disconnect i cs)
    have "in_force P w' h"
      by (rule in_force_keep [OF assms(5), of w' i "w_revoker w' i"])
        (use disconnect in \<open>auto simp: act_defs world_defs\<close>)
    then show ?thesis ..
  qed (use handler_creds [OF assms(1)] handler_revoker [OF assms(1)] assms(5) in
      \<open>auto simp: in_force_def\<close>)
qed

section \<open>Revoked tunnels are disconnected\<close>

definition revoked_close :: "conn_id \<Rightarrow> close_call" where
  "revoked_close c = \<lparr>c_conn = c, c_code = 4, c_reason = ''client token revoked''\<rparr>"

definition disconnecting :: "world \<Rightarrow> conn_id \<Rightarrow> bool" where
  "disconnecting w c \<longleftrightarrow> (\<exists>i cs. w_revoker w i = R_Closing cs \<and> revoked_close c \<in> set cs)"

definition calm_ok :: "relay \<Rightarrow> world \<Rightarrow> bool" where
  "calm_ok P w \<longleftrightarrow>
     (\<forall>h. inflight P w h \<longrightarrow> in_force P w h)
     \<and> (\<forall>d v. map_of (w_registry w) d = Some v \<longrightarrow>
          in_force P w (s_token_hash v) \<or> revoked_close (s_conn v) \<in> set (w_closes w)
          \<or> disconnecting w (s_conn v))"

lemma inflight_move:
  assumes "inflight P w' h" "w_phase w' = (w_phase w)(c := p)"
  shows "inflight P w h \<or> carries P p = Some h"
  using assms unfolding inflight_def by (auto split: if_splits)

lemma inflight_step:
  assumes "step P w ev w'" "db_ok (w_db w)" "inflight P w' h"
  shows "inflight P w h \<or> (\<exists>c e. ev = Authenticate c e \<and> (h \<in> static_hashes P \<or> h \<in> accepted (w_db w)))"
  using assms(1)
proof cases
  case (authenticate c hl addr e)
  show ?thesis
  proof (rule on_authenticate_cases [of P e hl w c addr])
    fix s' assume a: "authenticate P e (h_token hl) (w_db w) = (True, s')"
      "on_authenticate P c hl addr e w = goto c (Claiming hl addr 0) (w\<lparr>w_db := s'\<rparr>)"
    then have "w_phase w' = (w_phase w)(c := Claiming hl addr 0)"
      using authenticate(2) by (simp add: act_defs)
    from inflight_move [OF assms(3) this] show ?thesis
      using authenticate_accepts [OF assms(2), of P e "h_token hl"] a(1) authenticate(1)
      by (auto simp: static_hashes_def)
  next
    fix s' msg reason assume "on_authenticate P c hl addr e w = refuse c msg reason (w\<lparr>w_db := s'\<rparr>)"
    then have "w_phase w' = (w_phase w)(c := Closing)"
      using authenticate(2) by (simp add: act_defs)
    from inflight_move [OF assms(3) this] show ?thesis by auto
  qed
next
  case (claim c hl addr n a)
  have "carries P (w_phase w c) = Some (hashToken P (h_token hl))"
    using claim(3) by simp
  then have old: "inflight P w (hashToken P (h_token hl))" unfolding inflight_def by blast
  have "\<exists>p. w_phase w' = (w_phase w)(c := p) \<and> carries P p \<in> {None, Some (hashToken P (h_token hl))}"
    by (rule on_claim_cases [of w P hl c addr n a]) (use claim(2) in \<open>auto simp: act_defs\<close>)
  then obtain p where p: "w_phase w' = (w_phase w)(c := p)"
    "carries P p \<in> {None, Some (hashToken P (h_token hl))}" by blast
  from inflight_move [OF assms(3) p(1)] p(2) old show ?thesis by auto
next
  case (hello c addr g)
  then have "w_phase w' = (w_phase w)(c := w_phase w' c)" "carries P (w_phase w' c) = None"
    by (auto simp: act_defs world_defs split: greeting.split)
  from inflight_move [OF assms(3) this(1)] this(2) show ?thesis by simp
qed (use assms(3) in \<open>auto simp: inflight_def act_defs world_defs Let_def
    split: option.splits sum.splits prod.splits if_splits\<close>)

lemma registry_step:
  assumes "step P w ev w'" "map_of (w_registry w') d = Some v"
  shows "map_of (w_registry w) d = Some v \<or> inflight P w (s_token_hash v)"
proof (rule step_kinds [OF assms(1)])
  fix c e h addr now assume *: "w_phase w c = Claimed e h addr" "w' = on_register c e h addr now w"
  have "carries P (w_phase w c) = Some h" using *(1) by simp
  then have "inflight P w h" unfolding inflight_def by blast
  then show ?thesis
    using assms(2) by (auto simp: * on_register_def goto_def Let_def split: prod.splits if_splits
        dest!: arg_cong [of "register _ _" _ fst])
next
  fix c u assume "w' = on_unregister c u w"
  then show ?thesis
    using assms(2) by (auto simp: on_unregister_def goto_def map_of_unregister split: if_splits)
qed (use assms(2) in auto)

lemma disconnecting_step:
  assumes "step P w ev w'" "disconnecting w c"
  shows "disconnecting w' c \<or> revoked_close c \<in> set (w_closes w')"
proof -
  obtain i cs where i: "w_revoker w i = R_Closing cs" "revoked_close c \<in> set cs"
    using assms(2) unfolding disconnecting_def by blast
  have "w_revoker w' i = R_Closing cs \<or> set cs \<subseteq> set (w_closes w')"
    using assms(1)
  proof cases
    case (authenticate c h addr e)
    then show ?thesis using handler_revoker [OF assms(1)] i by simp
  next
    case (claim c h addr n a)
    then show ?thesis using handler_revoker [OF assms(1)] i by simp
  qed (use i in \<open>auto simp: act_defs world_defs Let_def
      split: greeting.split option.split sum.split prod.split\<close>)
  with i show ?thesis unfolding disconnecting_def by blast
qed

lemma calm_ok_step:
  assumes "step P w ev w'" "calm P w ev" "world_ok w" "found_ok w" "calm_ok P w"
  shows "calm_ok P w'"
proof -
  have ok: "db_ok (w_db w)" using assms(3) by (simp add: world_ok_def)
  note force = in_force_step [OF assms(1-4)]
  have fly: "in_force P w' h" if "inflight P w h" for h
  proof -
    have "\<not> (\<exists>i. ev = Match i \<and> w_revoker w i = R_Deleted h)"
      using assms(2) that by (auto simp: calm_def)
    moreover have "in_force P w h" using assms(5) that by (simp add: calm_ok_def)
    ultimately show ?thesis using force by blast
  qed
  have "in_force P w' h" if new: "inflight P w' h" for h
  proof (cases "inflight P w h")
    case False
    with inflight_step [OF assms(1) ok new] obtain c e
      where e: "ev = Authenticate c e" "h \<in> static_hashes P \<or> h \<in> accepted (w_db w)" by blast
    then have "in_force P w h" by (auto simp: in_force_def ran_creds [OF ok])
    with force e(1) show ?thesis by blast
  qed (rule fly)
  moreover have "in_force P w' (s_token_hash v) \<or> revoked_close (s_conn v) \<in> set (w_closes w')
      \<or> disconnecting w' (s_conn v)" if v: "map_of (w_registry w') d = Some v" for d v
  proof (cases "map_of (w_registry w) d = Some v")
    case False
    with registry_step [OF assms(1) v] fly show ?thesis by blast
  next
    case True
    obtain cs where cs: "w_closes w' = w_closes w @ cs" using step_closes [OF assms(1)] by blast
    from assms(5) True consider (a) "in_force P w (s_token_hash v)"
      | (b) "revoked_close (s_conn v) \<in> set (w_closes w)" | (c) "disconnecting w (s_conn v)"
      unfolding calm_ok_def by blast
    then show ?thesis
    proof cases
      case a
      show ?thesis
      proof (cases "in_force P w' (s_token_hash v)")
        case False
        with force [OF a] obtain i where i: "ev = Match i" "w_revoker w i = R_Deleted (s_token_hash v)" by blast
        have "(d, v) \<in> set (w_registry w)" by (rule map_of_in_set [OF True])
        then have "revoked_close (s_conn v) \<in> set (fst (disconnectToken (s_token_hash v) (w_registry w)))"
          by (force simp: disconnectToken_def revoked_close_def)
        moreover have "w_revoker w' i = R_Closing (fst (disconnectToken (s_token_hash v) (w_registry w)))"
          using assms(1) i by (auto elim!: step_matchE simp: on_match_def rgoto_def)
        ultimately show ?thesis unfolding disconnecting_def by blast
      qed simp
    next
      case b
      with cs show ?thesis by simp
    next
      case c
      with disconnecting_step [OF assms(1)] show ?thesis by blast
    qed
  qed
  ultimately show ?thesis unfolding calm_ok_def by blast
qed

lemma calm_run:
  assumes "calm_steps P w0 w" "world_ok w0" "found_ok w0" "calm_ok P w0"
  shows "world_ok w \<and> found_ok w \<and> calm_ok P w"
  using assms
  by (induction rule: calm_steps.induct) (simp, blast intro: step_world_ok found_ok_step calm_ok_step)

lemma calm_start: "found_ok (start s now)" "calm_ok P (start s now)"
  by (simp_all add: found_ok_def calm_ok_def start_def newRegistry_def inflight_def)

end
