(* ===== verification/Tunnel_Properties.thy ===== *)
theory Tunnel_Properties
  imports Revocation Proxy
begin

text \<open>
  The properties of the tunnel server over all interleavings of its handlers and revocations,
  each applied in its witness to a concrete run in which one client connects.
\<close>

section \<open>A concrete run\<close>

definition example_relay :: relay where
  "example_relay = \<lparr>lower_table = id, sum256 = (\<lambda>t. [of_nat (length t)]), cfg = example_config\<rparr>"

definition quiet_exec :: exec_env where
  "quiet_exec = \<lparr>x_err = None, rows_err = None, x_now = 0\<rparr>"

definition quiet_attempt :: attempt where
  "quiet_attempt = \<lparr>random = Inl [], attempt_env =
     \<lparr>begin_err = None, query_err = None, exec_err = None, commit_err = None, tx_now = 0\<rparr>\<rparr>"

definition example_hello :: Hello where
  "example_hello = \<lparr>h_version = 1, h_token = ''secret'', h_domain = ''demo'', h_mode = ''http''\<rparr>"

definition handshake_events :: "conn_id \<Rightarrow> event list" where
  "handshake_events c = [Accept c ''a'', Hello c (Greeting example_hello), Authenticate c quiet_exec,
     Claim c quiet_attempt]"

definition connect_events :: "conn_id \<Rightarrow> event list" where
  "connect_events c = handshake_events c @ [Register c 5, Displace c, Welcome c True]"

definition issue_event :: event where
  "issue_event = Create quiet_exec ''id1'' ''laptop'' ''06'' ''tnl_''"

lemma example_hash: "hashToken example_relay ''secret'' = ''06''"
  by (simp add: hashToken_def example_relay_def hex_encode_def hex_byte_def hex_digit_def)

definition example_db :: db where
  "example_db = \<lparr>domain_reservations = [], client_tokens = [\<lparr>ct_id = ''id1'', ct_label = ''laptop'',
     ct_hash = ''06'', ct_prefix = ''tnl_'', ct_created_at = 0, ct_last_used_at = None\<rparr>], dns_row = None\<rparr>"

lemma issued: "do_event P issue_event (start empty_db t) = Some ((start empty_db t)\<lparr>w_db := example_db\<rparr>)"
  by (simp add: issue_event_def CreateClientToken_def insert_token_def quiet_exec_def empty_db_def
      start_def example_db_def)

definition example_db2 :: db where
  "example_db2 = \<lparr>domain_reservations = [(''demo'', \<lparr>token_hash = ''06'', created_at = 0, last_seen_at = 0\<rparr>)],
     client_tokens = [\<lparr>ct_id = ''id1'', ct_label = ''laptop'',
     ct_hash = ''06'', ct_prefix = ''tnl_'', ct_created_at = 0, ct_last_used_at = Some 0\<rparr>], dns_row = None\<rparr>"

lemma authenticated:
  "authenticate example_relay quiet_exec ''secret'' example_db
     = (True, example_db\<lparr>client_tokens := client_tokens example_db2\<rparr>)"
  by (simp add: authenticate_def example_hash)
    (simp add: example_relay_def example_config_def AuthenticateClientToken_def update_last_used_def
      quiet_exec_def example_db_def example_db2_def)

lemma handshaken:
  "do_events example_relay (handshake_events c) ((start empty_db t)\<lparr>w_db := example_db\<rparr>)
     = Some ((start empty_db t)\<lparr>w_db := example_db2,
         w_phase := (\<lambda>_. Idle)(c := Claimed ''demo'' ''06'' ''a'')\<rparr>)"
proof -
  have "Normalize id ''demo'' = Inr ''demo''" by (rule tunnel_name_fixed [OF example_name])
  moreover have "lower_table example_relay = id" by (simp add: example_relay_def)
  moreover have "Reserve (attempt_env quiet_attempt) ''demo'' ''06''
      (example_db\<lparr>client_tokens := client_tokens example_db2\<rparr>) = (Inr (), example_db2)"
    by (simp add: Reserve_def quiet_attempt_def select_owner_def insert_reservation_def commit_def
        example_db_def example_db2_def)
  ultimately show ?thesis
    by (simp add: handshake_events_def start_def act_defs world_defs example_hello_def Version_def
        authenticated example_hash)
qed

definition example_session :: "conn_id \<Rightarrow> session" where
  "example_session c = \<lparr>s_domain = ''demo'', s_token_hash = ''06'', s_remote = ''a'',
     s_connected_at = 5, s_conn = c\<rparr>"

lemma registered_steps:
  assumes "w_registry w = []" "w_phase w = (\<lambda>_. Idle)(c := Claimed ''demo'' ''06'' ''a'')"
  shows "do_events example_relay [Register c 5, Displace c, Welcome c True] w
   = Some (w\<lparr>w_registry := [(''demo'', example_session c)],
            w_metrics := (w_metrics w)\<lparr>total_connections := total_connections (w_metrics w) + 1\<rparr>,
            w_phase := (\<lambda>_. Idle)(c := Serving (example_session c)),
            w_sent := w_sent w @ [(c, acceptance (cfg example_relay) ''demo'')]\<rparr>)"
  using assms by (simp add: act_defs world_defs register_def Let_def example_session_def)

lemma do_events_append:
  "do_events P (evs @ evs') w = (case do_events P evs w of None \<Rightarrow> None | Some w' \<Rightarrow> do_events P evs' w')"
  by (induction evs arbitrary: w) (auto split: option.split)

definition revoke_events :: "event list" where
  "revoke_events = [Lookup 0 ''id1'' None, Delete 0 quiet_exec, Match 0, Disconnect 0]"

lemma revoked_steps:
  assumes "w_db w = example_db2" "w_revoker w = (\<lambda>_. R_Idle)"
  shows "do_events P revoke_events w =
    Some (w\<lparr>w_db := example_db2\<lparr>client_tokens := []\<rparr>,
       w_revoker := (\<lambda>_. R_Idle)(0 := R_Done True),
       w_closes := w_closes w @ fst (disconnectToken ''06'' (w_registry w))\<rparr>)"
  using assms
  by (simp add: revoke_events_def act_defs world_defs ClientTokenHash_def DeleteClientToken_def
      delete_token_def quiet_exec_def example_db2_def)

text \<open>One client connects, and the token is revoked afterwards.\<close>

definition connected_world :: world where
  "connected_world = \<lparr>w_db = example_db2, w_registry = [(''demo'', example_session 7)],
     w_metrics = (newMetrics 0)\<lparr>total_connections := 1\<rparr>,
     w_phase = (\<lambda>_. Idle)(7 := Serving (example_session 7)), w_revoker = (\<lambda>_. R_Idle),
     w_sent = [(7, acceptance (cfg example_relay) ''demo'')], w_closes = []\<rparr>"

lemma connects:
  "do_events example_relay (connect_events 7) ((start empty_db 0)\<lparr>w_db := example_db\<rparr>)
     = Some connected_world"
proof -
  let ?w2 = "(start empty_db 0)\<lparr>w_db := example_db2,
      w_phase := (\<lambda>_. Idle)(7 := Claimed ''demo'' ''06'' ''a'')\<rparr>"
  have "do_events example_relay [Register 7 5, Displace 7, Welcome 7 True] ?w2 = Some connected_world"
    by (subst registered_steps)
      (simp_all add: start_def newRegistry_def connected_world_def newMetrics_def)
  then show ?thesis by (simp only: connect_events_def do_events_append handshaken option.case)
qed

lemma example_connected:
  "steps example_relay (start empty_db 0) (issue_event # connect_events 7) connected_world"
  by (rule do_events_steps) (simp only: do_events.simps(2) issued option.case connects)

lemma example_reachable: "steps P (start empty_db 0) evs w \<Longrightarrow> reachable P w"
  unfolding reachable_def using db_ok_empty by blast

lemma connected_reachable: "reachable example_relay connected_world"
  by (rule example_reachable [OF example_connected])

lemma connected_demo:
  "map_of (w_registry connected_world) ''demo'' = Some (example_session 7)"
  "w_phase connected_world 7 = Serving (example_session 7)"
  "s_conn (example_session 7) = 7" "s_domain (example_session 7) = ''demo''"
  "s_token_hash (example_session 7) = ''06''"
  by (simp_all add: connected_world_def example_session_def)

section \<open>Ownership\<close>

text \<open>
  C3: in every reachable state each live tunnel is filed under its own legal name, and that name
  is reserved in the database for the hash of the token its client presented.
\<close>

theorem live_tunnels_are_owned:
  assumes "reachable P w" "map_of (w_registry w) d = Some v"
  shows "s_domain v = d \<and> tunnel_name d \<and> owners (w_db w) d = Some (s_token_hash v)"
  using registered_session [OF reachable_ok [OF assms(1)] assms(2)] by simp

theorem live_tunnels_are_owned_witness:
  "owners (w_db connected_world) ''demo'' = Some ''06''"
  using live_tunnels_are_owned [OF connected_reachable connected_demo(1)] connected_demo by simp

text \<open>
  C1: no takeover: once a token has served a name, no client with a different token serves that
  name at any later moment of any run, also after disconnects, restarts of the client and
  revocations.
\<close>

theorem no_takeover:
  assumes "reachable P w" "steps P w evs w'"
    and "map_of (w_registry w) d = Some v" "map_of (w_registry w') d = Some v'"
  shows "s_token_hash v' = s_token_hash v"
proof -
  have ok: "world_ok w" by (rule reachable_ok [OF assms(1)])
  have "owners (w_db w') d = Some (s_token_hash v)"
    using registered_session(3) [OF ok assms(3)] owners_mono [OF steps_owners [OF assms(2)]] by blast
  then show ?thesis
    using registered_session(3) [OF steps_ok [OF assms(2) ok] assms(4)] by simp
qed

theorem no_takeover_witness:
  "\<exists>w v. steps example_relay connected_world [Control 7 (Some \<lparr>c_type = ''ping''\<rparr>)] w
    \<and> map_of (w_registry w) ''demo'' = Some v \<and> s_token_hash v = ''06''"
proof -
  have "step example_relay connected_world (Control 7 (Some \<lparr>c_type = ''ping''\<rparr>)) connected_world"
    by (simp add: step_iff connected_world_def on_control_def)
  then have run: "steps example_relay connected_world [Control 7 (Some \<lparr>c_type = ''ping''\<rparr>)] connected_world"
    by (rule steps_one)
  from no_takeover [OF connected_reachable run connected_demo(1,1)] run connected_demo
  show ?thesis by blast
qed

lemma step_accepted:
  assumes "step P w ev w'" "db_ok (w_db w)" "h \<in> accepted (w_db w')"
  shows "h \<in> accepted (w_db w) \<or> (\<exists>e i l p. ev = Create e i l h p)"
proof -
  have ok': "db_ok (w_db w')" using step_db [OF assms(1)] assms(2) by blast
  have ran: "ran (creds (w_db w)) = accepted (w_db w)" "ran (creds (w_db w')) = accepted (w_db w')"
    by (rule ran_creds [OF assms(2)], rule ran_creds [OF ok'])
  consider (del) i e where "ev = Delete i e" | (cre) e i l k p where "ev = Create e i l k p"
    | (other) "creds (w_db w') = creds (w_db w)"
    using handler_creds [OF assms(1)] by blast
  then show ?thesis
  proof cases
    case (del i e)
    then obtain ident hash where "w' = on_delete i ident hash e w"
      using assms(1) by (auto elim: step.cases)
    then have "w_db w' = snd (DeleteClientToken e ident (w_db w))"
      by (simp add: on_delete_def rgoto_def split: prod.split sum.split)
    then have "ran (creds (w_db w')) \<subseteq> ran (creds (w_db w))"
      using Delete_creds [of e ident "w_db w"] by (auto simp: ran_def split: if_splits)
    with ran assms(3) show ?thesis by auto
  next
    case (cre e i l k p)
    then have "w_db w' = snd (CreateClientToken e i l k p (w_db w))"
      using assms(1) by (auto elim: step.cases)
    then show ?thesis
      using Create_creds [OF assms(2), of e i l k p] ran assms(3) cre
      by (auto simp: ran_map_upd)
  next
    case other
    with ran assms(3) show ?thesis by simp
  qed
qed

definition known :: "relay \<Rightarrow> world \<Rightarrow> string \<Rightarrow> bool" where
  "known P w h \<longleftrightarrow> inflight P w h \<or> (\<exists>d v. map_of (w_registry w) d = Some v \<and> s_token_hash v = h)
     \<or> h \<in> accepted (w_db w)"

lemma step_known:
  assumes "step P w ev w'" "db_ok (w_db w)" "known P w' h"
  shows "known P w h \<or> h \<in> static_hashes P \<or> (\<exists>e i l p. ev = Create e i l h p)"
proof -
  from assms(3) consider "inflight P w' h" | d v where "map_of (w_registry w') d = Some v" "s_token_hash v = h"
    | "h \<in> accepted (w_db w')"
    unfolding known_def by blast
  then show ?thesis
  proof cases
    case 1
    with inflight_step [OF assms(1,2)] show ?thesis unfolding known_def by blast
  next
    case 2
    with registry_step [OF assms(1)] show ?thesis unfolding known_def by blast
  next
    case 3
    with step_accepted [OF assms(1,2)] show ?thesis unfolding known_def by blast
  qed
qed

lemma steps_known:
  assumes "steps P w0 evs w" "world_ok w0" "known P w h"
  shows "known P w0 h \<or> h \<in> static_hashes P \<or> (\<exists>e i l p. Create e i l h p \<in> set evs)"
  using assms
proof (induction rule: steps.induct)
  case (more w evs w' ev w'')
  have "db_ok (w_db w')"
    using steps_ok [OF more.hyps(1) more.prems(1)] by (simp add: world_ok_def)
  from step_known [OF more.hyps(2) this more.prems(2)] more.IH [OF more.prems(1)]
  show ?case by auto
qed simp

text \<open>
  C4: only authenticated clients are routed to: the token hash of every live tunnel is that of a
  configured static token, of a token in the database at the start, or of one the admin panel
  created during the run.
\<close>

theorem only_authenticated_tunnels:
  assumes "db_ok s" "steps P (start s now) evs w" "map_of (w_registry w) d = Some v"
  shows "s_token_hash v \<in> hashToken P ` set (AuthTokens (cfg P)) \<union> accepted s
    \<union> {h. \<exists>e i l p. Create e i l h p \<in> set evs}"
proof -
  have "known P w (s_token_hash v)" using assms(3) unfolding known_def by blast
  from steps_known [OF assms(2) world_ok_start [OF assms(1)] this] show ?thesis
    by (auto simp: known_def start_def newRegistry_def inflight_def static_hashes_def)
qed

theorem only_authenticated_tunnels_witness:
  "''06'' \<in> hashToken example_relay ` set (AuthTokens (cfg example_relay)) \<union> accepted empty_db
    \<union> {h. \<exists>e i l p. Create e i l h p \<in> set (issue_event # connect_events 7)}"
  using only_authenticated_tunnels [OF db_ok_empty example_connected connected_demo(1)]
  by (simp only: connected_demo)

section \<open>Replacement and disconnection\<close>



text \<open>
  C19: the registry holds no ghosts and keeps the live: every entry belongs to a handler that is
  still running, each connection is routed to under at most one name, and when a superseded handler
  finally unregisters, the newer session of the same name stays routed.
\<close>

theorem registry_matches_handlers:
  assumes "reachable P w" "map_of (w_registry w) d = Some v"
  shows "w_phase w (s_conn v) \<notin> {Idle, Closing, Finished}
    \<and> (\<forall>d' v'. map_of (w_registry w) d' = Some v' \<and> s_conn v' = s_conn v \<longrightarrow> d' = d)
    \<and> (\<forall>c u. w_phase w c = Leaving u \<and> c \<noteq> s_conn v \<longrightarrow>
         map_of (w_registry (on_unregister c u w)) d = Some v)"
proof -
  have ok: "world_ok w" by (rule reachable_ok [OF assms(1)])
  note v = registered_session [OF ok assms(2)]
  have "d' = d" if "map_of (w_registry w) d' = Some v'" "s_conn v' = s_conn v" for d' v'
    using registered_session [OF ok that(1)] v that(2) by (metis option.inject)
  moreover have "map_of (w_registry (on_unregister c u w)) d = Some v"
    if "w_phase w c = Leaving u" "c \<noteq> s_conn v" for c u
  proof -
    have "s_conn u = c" using ok that(1) by (auto simp: world_ok_def)
    moreover have "open_conn d (w_registry w) = Some (s_conn v)" by (simp add: open_conn_def assms(2))
    ultimately have "open_conn d (unregister u (w_registry w)) = Some (s_conn v)"
      using that(2) by (intro routes.remove_other) auto
    moreover have "w_registry (on_unregister c u w) = unregister u (w_registry w)"
      by (simp add: on_unregister_def goto_def)
    ultimately show ?thesis
      using assms(2) by (auto simp: open_conn_def map_of_unregister split: if_splits)
  qed
  moreover have "w_phase w (s_conn v) \<notin> {Idle, Closing, Finished}"
    using v(4) by auto
  ultimately show ?thesis by blast
qed

theorem registry_matches_handlers_witness:
  "w_phase connected_world 7 \<notin> {Idle, Closing, Finished}"
  using registry_matches_handlers [OF connected_reachable connected_demo(1)]
  by (simp add: connected_demo)

fun handler_of :: "event \<Rightarrow> conn_id option" where
  "handler_of (Accept c addr) = Some c"
| "handler_of (Hello c g) = Some c"
| "handler_of (Authenticate c e) = Some c"
| "handler_of (Claim c a) = Some c"
| "handler_of (Register c now) = Some c"
| "handler_of (Displace c) = Some c"
| "handler_of (Welcome c encoded) = Some c"
| "handler_of (Control c msg) = Some c"
| "handler_of (Unregister c) = Some c"
| "handler_of (Finish c) = Some c"
| "handler_of ev = None"

definition finishes :: "relay \<Rightarrow> conn_id \<Rightarrow> world \<Rightarrow> bool" where
  "finishes P c w \<longleftrightarrow>
     (\<exists>evs w'. steps P w evs w' \<and> (\<forall>ev \<in> set evs. handler_of ev = Some c)
       \<and> w_phase w' c = Finished \<and> (\<exists>cl \<in> set (w_closes w'). c_conn cl = c))"

lemma finishes_step:
  assumes "step P w ev w'" "handler_of ev = Some c" "finishes P c w'"
  shows "finishes P c w"
proof -
  obtain evs w'' where "steps P w' evs w''" "\<forall>ev \<in> set evs. handler_of ev = Some c"
    "w_phase w'' c = Finished" "\<exists>cl \<in> set (w_closes w''). c_conn cl = c"
    using assms(3) unfolding finishes_def by blast
  moreover from this(1) have "steps P w ([ev] @ evs) w''"
    by (rule steps_append [OF _ steps_one [OF assms(1)]])
  ultimately show ?thesis
    unfolding finishes_def using assms(2) by (intro exI [of _ "[ev] @ evs"] exI [of _ w'']) simp
qed

lemma finishes_closing: "w_phase w c = Closing \<Longrightarrow> finishes P c w"
proof -
  assume c: "w_phase w c = Closing"
  have "steps P w [Finish c] (on_finish c w)"
    using c by (intro steps_one) (simp add: step_iff)
  then show ?thesis
    unfolding finishes_def by (intro exI [of _ "[Finish c]"] exI) (auto simp: act_defs world_defs)
qed

lemma finishes_leaving: "w_phase w c = Leaving v \<Longrightarrow> finishes P c w"
  by (rule finishes_step [of P w "Unregister c" "on_unregister c v w"])
    (simp_all add: step_iff act_defs world_defs finishes_closing)

lemma finishes_serving: "w_phase w c = Serving v \<Longrightarrow> finishes P c w"
  by (rule finishes_step [of P w "Control c None" "on_control c v None w"])
    (simp_all add: step_iff act_defs world_defs finishes_leaving)

lemma finishes_connected: "w_phase w c = Connected v \<Longrightarrow> finishes P c w"
  by (rule finishes_step [of P w "Welcome c False" "on_welcome P c v False w"])
    (simp_all add: step_iff act_defs world_defs finishes_leaving)

lemma finishes_added: "w_phase w c = Added v cs \<Longrightarrow> finishes P c w"
  by (rule finishes_step [of P w "Displace c" "on_displace c v cs w"])
    (simp_all add: step_iff act_defs world_defs finishes_connected)

lemma finishes_claimed: "w_phase w c = Claimed d h a \<Longrightarrow> finishes P c w"
  by (rule finishes_step [of P w "Register c 0" "on_register c d h a 0 w"])
    (simp_all add: step_iff act_defs world_defs Let_def finishes_added split: prod.split)

lemma finishes_claiming: "w_phase w c = Claiming h a n \<Longrightarrow> finishes P c w"
proof -
  assume c: "w_phase w c = Claiming h a n"
  let ?a = "quiet_attempt\<lparr>attempt_env := (attempt_env quiet_attempt)\<lparr>begin_err := Some []\<rparr>\<rparr>"
  show ?thesis
  proof (rule finishes_step [of P w "Claim c ?a" "on_claim P c h a n ?a w"])
    show "step P w (Claim c ?a) (on_claim P c h a n ?a w)" "handler_of (Claim c ?a) = Some c"
      by (simp_all add: step_iff c)
    have "w_phase (on_claim P c h a n ?a w) c = Closing"
      by (simp add: on_claim_def Let_def alloc_try_def Reserve_def quiet_attempt_def act_defs split: sum.split)
    then show "finishes P c (on_claim P c h a n ?a w)" by (rule finishes_closing)
  qed
qed

lemma finishes_checked: "w_phase w c = Checked h a \<Longrightarrow> finishes P c w"
proof (rule finishes_step [of P w "Authenticate c quiet_exec" "on_authenticate P c h a quiet_exec w"])
  assume c: "w_phase w c = Checked h a"
  then show "step P w (Authenticate c quiet_exec) (on_authenticate P c h a quiet_exec w)"
    "handler_of (Authenticate c quiet_exec) = Some c"
    by (simp_all add: step_iff)
  show "finishes P c (on_authenticate P c h a quiet_exec w)"
    by (rule on_authenticate_cases [of P quiet_exec h w c a])
      (auto simp: act_defs intro: finishes_claiming finishes_closing)
qed

text \<open>
  C20: every handler can finish by itself: in any reachable state a handler that has started can
  run to its end with steps of its own only, whatever phase it is in and whatever the other
  activities did; at the end its connection is closed and no name is routed to it.
\<close>

theorem handlers_can_finish:
  assumes "reachable P w" "w_phase w c \<notin> {Idle, Finished}"
  shows "\<exists>evs w'. steps P w evs w' \<and> (\<forall>ev \<in> set evs. handler_of ev = Some c)
    \<and> w_phase w' c = Finished \<and> (\<exists>cl \<in> set (w_closes w'). c_conn cl = c)
    \<and> (\<forall>d. open_conn d (w_registry w') \<noteq> Some c)"
proof -
  have "finishes P c w"
  proof (cases "w_phase w c")
    case (Handshake a)
    then show ?thesis
      by (intro finishes_step [of P w "Hello c No_Stream" "on_hello c a No_Stream w"])
        (simp_all add: step_iff act_defs world_defs finishes_closing)
  qed (use assms finishes_checked finishes_claiming finishes_claimed finishes_added finishes_connected
      finishes_serving finishes_leaving finishes_closing in auto)
  then obtain evs w' where run: "steps P w evs w'" "\<forall>ev \<in> set evs. handler_of ev = Some c"
    "w_phase w' c = Finished" "\<exists>cl \<in> set (w_closes w'). c_conn cl = c"
    unfolding finishes_def by blast
  have "world_ok w'" by (rule steps_ok [OF run(1) reachable_ok [OF assms(1)]])
  then have "open_conn d (w_registry w') \<noteq> Some c" for d
    using registered_session(4) [of w' d] run(3) by (auto simp: open_conn_def)
  with run show ?thesis by blast
qed

theorem handlers_can_finish_witness:
  "\<exists>evs w'. steps example_relay connected_world evs w' \<and> w_phase w' 7 = Finished"
proof -
  have "w_phase connected_world 7 \<notin> {Idle, Finished}" by (simp add: connected_demo)
  from handlers_can_finish [OF connected_reachable this] show ?thesis by blast
qed

section \<open>Revocation\<close>

text \<open>
  C7: revoking a token disconnects its tunnels: in a run where no handshake with the token is
  between its check and its registration while a revocation looks for its sessions, a tunnel that
  is still registered for a token that is neither static nor in the database has been closed as
  revoked once no revocation of the token is under way.
\<close>

theorem revocation_disconnects:
  assumes "db_ok s" "calm_steps P (start s now) w" "map_of (w_registry w) d = Some v"
    and "s_token_hash v \<notin> static_hashes P" "s_token_hash v \<notin> accepted (w_db w)"
    and "\<forall>i. w_revoker w i \<noteq> R_Deleted (s_token_hash v) \<and> (\<forall>cs. w_revoker w i \<noteq> R_Closing cs)"
  shows "revoked_close (s_conn v) \<in> set (w_closes w)"
proof -
  have w: "world_ok w" "calm_ok P w"
    using calm_run [OF assms(2) world_ok_start [OF assms(1)] calm_start] by auto
  then have "db_ok (w_db w)" by (simp add: world_ok_def)
  then have "\<not> in_force P w (s_token_hash v)"
    using assms(4-6) by (auto simp: in_force_def ran_creds)
  moreover have "\<not> disconnecting w (s_conn v)" using assms(6) by (auto simp: disconnecting_def)
  ultimately show ?thesis using w(2) assms(3) by (auto simp: calm_ok_def)
qed

lemma calm_trans: "calm_steps P w' w'' \<Longrightarrow> calm_steps P w w' \<Longrightarrow> calm_steps P w w''"
  by (induction rule: calm_steps.induct) (auto intro: calm_steps.intros)

lemma calm_one: "step P w ev w' \<Longrightarrow> calm P w ev \<Longrightarrow> calm_steps P w w'"
  by (rule calm_more [OF calm_none])

lemma handlers_are_calm:
  "do_events P evs w = Some w' \<Longrightarrow> \<forall>ev \<in> set evs. handler_of ev \<noteq> None \<Longrightarrow> calm_steps P w w'"
proof (induction evs arbitrary: w)
  case (Cons ev evs)
  then obtain w1 where w1: "do_event P ev w = Some w1" "calm_steps P w1 w'"
    by (auto split: option.splits)
  moreover have "calm P w ev" using Cons.prems(2) by (cases ev) (auto simp: calm_def)
  ultimately show ?case using calm_trans calm_one step_iff by metis
qed (simp add: calm_none)

definition revoked_world :: world where
  "revoked_world = connected_world\<lparr>w_db := example_db2\<lparr>client_tokens := []\<rparr>,
     w_revoker := (\<lambda>_. R_Idle)(0 := R_Done True), w_closes := [revoked_close 7]\<rparr>"

lemma revoked_calmly: "calm_steps example_relay (start empty_db 0) revoked_world"
proof -
  have c1: "calm_steps example_relay (start empty_db 0) ((start empty_db 0)\<lparr>w_db := example_db\<rparr>)"
    using issued by (intro calm_one [of _ _ issue_event]) (simp add: step_iff, simp add: calm_def issue_event_def start_def)
  have c2: "calm_steps example_relay ((start empty_db 0)\<lparr>w_db := example_db\<rparr>) connected_world"
    by (rule handlers_are_calm [OF connects]) (simp add: connect_events_def handshake_events_def)
  let ?w1 = "connected_world\<lparr>w_revoker := (\<lambda>_. R_Idle)(0 := R_Found ''id1'' ''06'')\<rparr>"
  let ?w2 = "connected_world\<lparr>w_db := example_db2\<lparr>client_tokens := []\<rparr>,
      w_revoker := (\<lambda>_. R_Idle)(0 := R_Deleted ''06'')\<rparr>"
  let ?w3 = "connected_world\<lparr>w_db := example_db2\<lparr>client_tokens := []\<rparr>,
      w_revoker := (\<lambda>_. R_Idle)(0 := R_Closing [revoked_close 7])\<rparr>"
  have c3: "calm_steps example_relay connected_world ?w1"
    by (rule calm_one [of _ _ "Lookup 0 ''id1'' None"])
      (simp_all add: step_iff calm_def connected_world_def on_lookup_def ClientTokenHash_def example_db2_def rgoto_def)
  have c4: "calm_steps example_relay ?w1 ?w2"
    by (rule calm_one [of _ _ "Delete 0 quiet_exec"])
      (simp_all add: step_iff calm_def connected_world_def on_delete_def DeleteClientToken_def
        delete_token_def quiet_exec_def example_db2_def rgoto_def)
  have "\<not> inflight example_relay ?w2 ''06''" by (simp add: inflight_def connected_world_def)
  then have c5: "calm_steps example_relay ?w2 ?w3"
    by (intro calm_one [of _ _ "Match 0"])
      (simp_all add: step_iff calm_def connected_world_def on_match_def disconnectToken_def rgoto_def
        revoked_close_def example_session_def)
  have c6: "calm_steps example_relay ?w3 revoked_world"
    by (rule calm_one [of _ _ "Disconnect 0"])
      (simp_all add: step_iff calm_def connected_world_def on_disconnect_def rgoto_def revoked_world_def)
  show ?thesis
    by (rule calm_trans [OF c6 calm_trans [OF c5 calm_trans [OF c4 calm_trans [OF c3 calm_trans [OF c2 c1]]]]])
qed

theorem revocation_disconnects_witness:
  "revoked_close 7 \<in> set (w_closes revoked_world)
   \<and> map_of (w_registry revoked_world) ''demo'' = Some (example_session 7)"
proof -
  have v: "map_of (w_registry revoked_world) ''demo'' = Some (example_session 7)"
    using connected_demo(1) by (simp add: revoked_world_def)
  have "revoked_close (s_conn (example_session 7)) \<in> set (w_closes revoked_world)"
    by (rule revocation_disconnects [OF db_ok_empty revoked_calmly v])
      (simp_all add: static_hashes_def example_relay_def example_config_def revoked_world_def accepted_def)
  with v show ?thesis by (simp add: connected_demo)
qed

text \<open>
  C8: the condition of the previous property is needed: in the code a revocation can complete,
  successfully and without closing anything, between the check of a token and the registration of
  the session, and the revoked token's tunnel then serves requests.
\<close>

theorem revocation_race:
  "\<exists>P s evs w v. db_ok s \<and> steps P (start s 0) evs w
    \<and> map_of (w_registry w) ''demo'' = Some v \<and> w_phase w (s_conn v) = Serving v
    \<and> s_token_hash v \<notin> static_hashes P \<union> accepted (w_db w)
    \<and> w_revoker w 0 = R_Done True \<and> w_closes w = []"
proof -
  let ?w1 = "(start empty_db 0)\<lparr>w_db := example_db\<rparr>"
  let ?w2 = "(start empty_db 0)\<lparr>w_db := example_db2,
      w_phase := (\<lambda>_. Idle)(7 := Claimed ''demo'' ''06'' ''a'')\<rparr>"
  let ?w3 = "?w2\<lparr>w_db := example_db2\<lparr>client_tokens := []\<rparr>, w_revoker := (\<lambda>_. R_Idle)(0 := R_Done True)\<rparr>"
  let ?w4 = "?w3\<lparr>w_registry := [(''demo'', example_session 7)],
      w_metrics := (newMetrics 0)\<lparr>total_connections := 1\<rparr>,
      w_phase := (\<lambda>_. Idle)(7 := Serving (example_session 7)),
      w_sent := [(7, acceptance (cfg example_relay) ''demo'')]\<rparr>"
  have 3: "do_events example_relay revoke_events ?w2 = Some ?w3"
    by (subst revoked_steps) (simp_all add: start_def newRegistry_def disconnectToken_def)
  have 4: "do_events example_relay [Register 7 5, Displace 7, Welcome 7 True] ?w3 = Some ?w4"
    by (subst registered_steps) (simp_all add: start_def newRegistry_def newMetrics_def)
  have "do_events example_relay [issue_event] (start empty_db 0) = Some ?w1"
    by (simp only: do_events.simps issued option.case)
  then have "do_events example_relay ([issue_event] @ handshake_events 7 @ revoke_events
      @ [Register 7 5, Displace 7, Welcome 7 True]) (start empty_db 0) = Some ?w4"
    by (simp only: option.case do_events_append handshaken 3 4)
  then have run: "steps example_relay (start empty_db 0) ([issue_event] @ handshake_events 7
      @ revoke_events @ [Register 7 5, Displace 7, Welcome 7 True]) ?w4"
    by (rule do_events_steps)
  moreover have "map_of (w_registry ?w4) ''demo'' = Some (example_session 7)"
    "w_phase ?w4 (s_conn (example_session 7)) = Serving (example_session 7)"
    "s_token_hash (example_session 7) \<notin> static_hashes example_relay \<union> accepted (w_db ?w4)"
    "w_revoker ?w4 0 = R_Done True" "w_closes ?w4 = []"
    by (simp_all add: static_hashes_def accepted_def example_relay_def example_config_def start_def
        example_session_def)
  ultimately show ?thesis using db_ok_empty by blast
qed

section \<open>From the welcome message to the proxy\<close>










end
