(* ===== verification/Cloudflare.thy ===== *)
theory Cloudflare
  imports Go_Encoding
begin

text \<open>
  \<^verbatim>\<open>internal/dns/cloudflare.go\<close>: reconciling the two DNS records of the relay through the
  Cloudflare API. The service is a parameter: \<open>api\<close> answers a call in a state of its own. What
  the JSON decoder finds in an answer for each destination type is part of the answer. The calls
  made, with their answers, are logged in order. \<open>json.Marshal\<close> of the request body and
  \<open>http.NewRequest\<close> on the escaped paths cannot fail and have no error branch here.
\<close>

section \<open>The API\<close>

definition managedComment :: string where
  "managedComment = ''Managed by tunnl''"

record dns_record =
  dr_id :: string
  dr_type :: string
  dr_name :: string
  dr_content :: string
  dr_comment :: string

record zone_entry =
  ze_id :: string
  ze_name :: string

record record_body =
  rb_type :: string
  rb_name :: string
  rb_content :: string
  rb_ttl :: int
  rb_proxied :: bool
  rb_comment :: string

record api_call =
  ac_auth :: string
  ac_method :: string
  ac_path :: string
  ac_body :: "record_body option"

text \<open>The envelope, decoded into each of the destinations the code uses.\<close>

record envelope =
  as_zones :: "zone_entry list option"
  as_records :: "dns_record list option"
  as_record :: "dns_record option"
  en_success :: bool
  en_errors :: "string list"

datatype api_reply = No_Response string | Answer nat string "string + envelope"

datatype cf_error =
  Token_Missing
| Zone_Mismatch
| Bad_Target
| Transport string
| Bad_Status string
| Bad_Decode
| Api_Failed string
| Zone_Not_Found string
| Multiple_Records string string
| Unmanaged_Record string
| Reconcile_Failed string cf_error

record 's cf_state =
  remote :: 's
  calls :: "(api_call \<times> api_reply) list"

type_synonym 's api = "api_call \<Rightarrow> 's \<Rightarrow> api_reply \<times> 's"

section \<open>Operations\<close>

text \<open>The \<open>Authorization\<close> header of every call.\<close>

definition bearer :: "string \<Rightarrow> string" where
  "bearer tk = ''Bearer '' @ tk"

definition call_api ::
  "'s api \<Rightarrow> string \<Rightarrow> (envelope \<Rightarrow> 'a option) \<Rightarrow> string \<Rightarrow> string \<Rightarrow> record_body option \<Rightarrow> 's cf_state
     \<Rightarrow> (cf_error + 'a) \<times> 's cf_state" where
  "call_api api tk view method path body st =
     (let call = \<lparr>ac_auth = bearer tk, ac_method = method, ac_path = path, ac_body = body\<rparr> in
      case api call (remote st) of
        (reply, r) \<Rightarrow>
          (let st' = st\<lparr>remote := r, calls := calls st @ [(call, reply)]\<rparr> in
           case reply of
             No_Response m \<Rightarrow> (Inl (Transport m), st')
           | Answer _ _ (Inl m) \<Rightarrow> (Inl (Transport m), st')
           | Answer code status (Inr e) \<Rightarrow>
               if code < 200 \<or> code \<ge> 300 then (Inl (Bad_Status status), st')
               else
                 (case view e of
                    None \<Rightarrow> (Inl Bad_Decode, st')
                  | Some x \<Rightarrow>
                      if \<not> en_success e then
                        (if en_errors e \<noteq> [] \<and> hd (en_errors e) \<noteq> []
                         then (Inl (Api_Failed (hd (en_errors e))), st')
                         else (Inl (Api_Failed ''Cloudflare API operation failed''), st'))
                      else (Inr x, st'))))"

definition zoneID ::
  "(rune \<Rightarrow> rune) \<Rightarrow> 's api \<Rightarrow> string \<Rightarrow> string \<Rightarrow> 's cf_state \<Rightarrow> (cf_error + string) \<times> 's cf_state" where
  "zoneID sf api tk zone st =
     (case call_api api tk as_zones ''GET'' (''/zones?name='' @ query_escape zone) None st of
        (Inl err, st') \<Rightarrow> (Inl err, st')
      | (Inr zones, st') \<Rightarrow>
          (case zones of
             [z] \<Rightarrow> if equal_fold sf (ze_name z) zone then (Inr (ze_id z), st')
                    else (Inl (Zone_Not_Found zone), st')
           | _ \<Rightarrow> (Inl (Zone_Not_Found zone), st')))"

definition records_path :: "string \<Rightarrow> string" where
  "records_path zone_id = ''/zones/'' @ path_escape zone_id @ ''/dns_records''"

definition list_path :: "string \<Rightarrow> string \<Rightarrow> string \<Rightarrow> string" where
  "list_path zone_id recordType name =
     records_path zone_id @ ''?type='' @ query_escape recordType @ ''&name='' @ query_escape name"

definition managed_body :: "string \<Rightarrow> string \<Rightarrow> string \<Rightarrow> bool \<Rightarrow> record_body" where
  "managed_body recordType name target proxied =
     \<lparr>rb_type = recordType, rb_name = name, rb_content = target, rb_ttl = 1, rb_proxied = proxied,
      rb_comment = managedComment\<rparr>"

definition upsertRecord ::
  "'s api \<Rightarrow> string \<Rightarrow> string \<Rightarrow> string \<Rightarrow> string \<Rightarrow> string \<Rightarrow> bool \<Rightarrow> 's cf_state
     \<Rightarrow> (cf_error + unit) \<times> 's cf_state" where
  "upsertRecord api tk zone_id recordType name target proxied st =
     (case call_api api tk as_records ''GET'' (list_path zone_id recordType name) None st of
        (Inl err, st1) \<Rightarrow> (Inl err, st1)
      | (Inr listed, st1) \<Rightarrow>
          (let body = managed_body recordType name target proxied;
               write = (\<lambda>method path.
                 (case call_api api tk as_record method path (Some body) st1 of
                    (Inl err, st2) \<Rightarrow> (Inl (Reconcile_Failed name err), st2)
                  | (Inr _, st2) \<Rightarrow> (Inr (), st2)))
           in case listed of
                [] \<Rightarrow> write ''POST'' (records_path zone_id)
              | [existing] \<Rightarrow>
                  if dr_comment existing \<noteq> managedComment then (Inl (Unmanaged_Record name), st1)
                  else write ''PUT'' (records_path zone_id @ ''/'' @ path_escape (dr_id existing))
              | _ \<Rightarrow> (Inl (Multiple_Records recordType name), st1)))"

definition clean_domain :: "(rune \<Rightarrow> rune) \<Rightarrow> string \<Rightarrow> string" where
  "clean_domain ul s = trim_suffix (to_lower ul (trim_space s)) ''.''"

text \<open>The base domain is the zone or lies in it.\<close>

definition in_zone :: "string \<Rightarrow> string \<Rightarrow> bool" where
  "in_zone base zone \<longleftrightarrow> \<not> (zone = [] \<or> (base \<noteq> zone \<and> \<not> has_suffix base (''.'' @ zone)))"

definition record_target :: "nat list \<Rightarrow> string \<times> string" where
  "record_target ip = (case To4 ip of Some b \<Rightarrow> (''A'', v4_string b) | None \<Rightarrow> (''AAAA'', ip_string ip))"

definition Reconcile ::
  "(rune \<Rightarrow> rune) \<Rightarrow> (rune \<Rightarrow> rune) \<Rightarrow> 's api \<Rightarrow> string \<Rightarrow> string \<Rightarrow> string \<Rightarrow> string \<Rightarrow> 's cf_state
     \<Rightarrow> (cf_error + unit) \<times> 's cf_state" where
  "Reconcile ul sf api token zone0 base0 target0 st =
     (if token = [] then (Inl Token_Missing, st)
      else
        (let zone = clean_domain ul zone0; base = clean_domain ul base0 in
         if \<not> in_zone base zone then (Inl Zone_Mismatch, st)
         else
           (case ParseIP (trim_space target0) of
              None \<Rightarrow> (Inl Bad_Target, st)
            | Some ip \<Rightarrow>
                (case record_target ip of
                   (recordType, target) \<Rightarrow>
                     (case zoneID sf api token zone st of
                        (Inl err, st1) \<Rightarrow> (Inl err, st1)
                      | (Inr zone_id, st1) \<Rightarrow>
                          (case upsertRecord api token zone_id recordType (''*.'' @ base) target True st1 of
                             (Inl err, st2) \<Rightarrow> (Inl err, st2)
                           | (Inr _, st2) \<Rightarrow>
                               upsertRecord api token zone_id recordType (''relay.'' @ base) target False st2))))))"

section \<open>The shape of the call log\<close>

definition good_answer :: "(envelope \<Rightarrow> 'a option) \<Rightarrow> 'a \<Rightarrow> api_reply \<Rightarrow> bool" where
  "good_answer view x reply \<longleftrightarrow>
     (\<exists>code status e. reply = Answer code status (Inr e) \<and> 200 \<le> code \<and> code < 300
        \<and> view e = Some x \<and> en_success e)"

lemma call_api_cases:
  obtains (ok) x reply r where "good_answer view x reply"
      "call_api api tk view method path body st = (Inr x, st\<lparr>remote := r,
         calls := calls st @ [(\<lparr>ac_auth = bearer tk, ac_method = method, ac_path = path, ac_body = body\<rparr>, reply)]\<rparr>)"
      "api \<lparr>ac_auth = bearer tk, ac_method = method, ac_path = path, ac_body = body\<rparr> (remote st) = (reply, r)"
  | (failed) err reply r where
      "call_api api tk view method path body st = (Inl err, st\<lparr>remote := r,
         calls := calls st @ [(\<lparr>ac_auth = bearer tk, ac_method = method, ac_path = path, ac_body = body\<rparr>, reply)]\<rparr>)"
      "api \<lparr>ac_auth = bearer tk, ac_method = method, ac_path = path, ac_body = body\<rparr> (remote st) = (reply, r)"
proof -
  let ?call = "\<lparr>ac_auth = bearer tk, ac_method = method, ac_path = path, ac_body = body\<rparr>"
  obtain reply r where R: "api ?call (remote st) = (reply, r)" by fastforce
  show thesis
  proof (cases "\<exists>x. good_answer view x reply")
    case True
    then obtain x where x: "good_answer view x reply" ..
    with R have "call_api api tk view method path body st =
        (Inr x, st\<lparr>remote := r, calls := calls st @ [(?call, reply)]\<rparr>)"
      by (auto simp: call_api_def good_answer_def)
    with x show thesis using R by (rule ok)
  next
    case False
    with R have "\<exists>err. call_api api tk view method path body st =
        (Inl err, st\<lparr>remote := r, calls := calls st @ [(?call, reply)]\<rparr>)"
      by (auto simp: call_api_def Let_def good_answer_def not_less split: api_reply.split sum.split option.split)
    then show thesis using failed R by blast
  qed
qed

definition get_call :: "string \<Rightarrow> string \<Rightarrow> api_call" where
  "get_call tk path = \<lparr>ac_auth = bearer tk, ac_method = ''GET'', ac_path = path, ac_body = None\<rparr>"

text \<open>A write that the answer just before it justifies.\<close>

definition justified ::
  "string \<Rightarrow> string \<Rightarrow> string \<Rightarrow> string \<Rightarrow> string \<Rightarrow> bool \<Rightarrow> api_call \<times> api_reply \<Rightarrow> api_call \<Rightarrow> bool" where
  "justified tk zid ty name target proxied q c \<longleftrightarrow>
     fst q = get_call tk (list_path zid ty name) \<and> ac_auth c = bearer tk \<and> ac_body c = Some (managed_body ty name target proxied)
     \<and> (\<exists>rs. good_answer as_records rs (snd q) \<and>
          ((rs = [] \<and> ac_method c = ''POST'' \<and> ac_path c = records_path zid)
           \<or> (\<exists>rec. rs = [rec] \<and> dr_comment rec = managedComment \<and> ac_method c = ''PUT''
                \<and> ac_path c = records_path zid @ ''/'' @ path_escape (dr_id rec))))"

definition upsert_log ::
  "string \<Rightarrow> string \<Rightarrow> string \<Rightarrow> string \<Rightarrow> string \<Rightarrow> bool \<Rightarrow> bool \<Rightarrow> (api_call \<times> api_reply) list \<Rightarrow> bool" where
  "upsert_log tk zid ty name target proxied good l \<longleftrightarrow>
     (\<exists>reply. l = [(get_call tk (list_path zid ty name), reply)] \<and> \<not> good)
     \<or> (\<exists>q c reply. l = [q, (c, reply)] \<and> justified tk zid ty name target proxied q c
          \<and> (good \<longrightarrow> (\<exists>x. good_answer as_record x reply)))"

lemma upsert_write:
  assumes "justified tk zid ty name target proxied q c" "c = \<lparr>ac_auth = bearer tk, ac_method = m, ac_path = p, ac_body = b\<rparr>"
    and "calls sta = calls st @ [q]"
    and "(case call_api api tk as_record m p b sta of
            (Inl err, st2) \<Rightarrow> (Inl (Reconcile_Failed name err), st2)
          | (Inr _, st2) \<Rightarrow> (Inr (), st2)) = (r, st')"
  shows "\<exists>l. calls st' = calls st @ l \<and> upsert_log tk zid ty name target proxied (is_ok r) l"
proof (rule call_api_cases [of as_record api tk m p b sta])
  fix x reply r' assume "good_answer as_record x reply"
    "call_api api tk as_record m p b sta = (Inr x, sta\<lparr>remote := r',
       calls := calls sta @ [(\<lparr>ac_auth = bearer tk, ac_method = m, ac_path = p, ac_body = b\<rparr>, reply)]\<rparr>)"
  with assms show ?thesis by (cases q) (auto simp: upsert_log_def)
next
  fix err reply r' assume
    "call_api api tk as_record m p b sta = (Inl err, sta\<lparr>remote := r',
       calls := calls sta @ [(\<lparr>ac_auth = bearer tk, ac_method = m, ac_path = p, ac_body = b\<rparr>, reply)]\<rparr>)"
  with assms show ?thesis by (cases q) (auto simp: upsert_log_def)
qed

lemma upsert_calls:
  assumes "upsertRecord api tk zid ty name target proxied st = (r, st')"
  shows "\<exists>l. calls st' = calls st @ l \<and> upsert_log tk zid ty name target proxied (is_ok r) l"
proof (rule call_api_cases [of as_records api tk "''GET''" "list_path zid ty name" None st])
  fix err reply r' assume
    "call_api api tk as_records ''GET'' (list_path zid ty name) None st = (Inl err, st\<lparr>remote := r',
       calls := calls st @ [(\<lparr>ac_auth = bearer tk, ac_method = ''GET'', ac_path = list_path zid ty name, ac_body = None\<rparr>, reply)]\<rparr>)"
  with assms show ?thesis by (auto simp: upsertRecord_def upsert_log_def get_call_def)
next
  fix rs and reply :: api_reply and r'
  let ?q = "(get_call tk (list_path zid ty name), reply)"
  let ?st1 = "st\<lparr>remote := r', calls := calls st @ [?q]\<rparr>"
  assume good: "good_answer as_records rs reply"
    and "call_api api tk as_records ''GET'' (list_path zid ty name) None st = (Inr rs, st\<lparr>remote := r',
       calls := calls st @ [(\<lparr>ac_auth = bearer tk, ac_method = ''GET'', ac_path = list_path zid ty name, ac_body = None\<rparr>, reply)]\<rparr>)"
  then have G: "call_api api tk as_records ''GET'' (list_path zid ty name) None st = (Inr rs, ?st1)"
    by (simp add: get_call_def)
  have only: "\<exists>l. calls ?st1 = calls st @ l \<and> upsert_log tk zid ty name target proxied False l"
    by (auto simp: upsert_log_def)
  let ?body = "Some (managed_body ty name target proxied)"
  note written = upsert_write [OF _ refl, where sta = ?st1 and q = ?q and st = st]
  show ?thesis
  proof (cases rs)
    case Nil
    have "justified tk zid ty name target proxied ?q
        \<lparr>ac_auth = bearer tk, ac_method = ''POST'', ac_path = records_path zid, ac_body = ?body\<rparr>"
      using good Nil by (auto simp: justified_def)
    from written [OF this] assms Nil G show ?thesis by (simp add: upsertRecord_def Let_def)
  next
    case (Cons rec rest)
    show ?thesis
    proof (cases "rest = [] \<and> dr_comment rec = managedComment")
      case True
      then have "justified tk zid ty name target proxied ?q
          \<lparr>ac_auth = bearer tk, ac_method = ''PUT'', ac_path = records_path zid @ ''/'' @ path_escape (dr_id rec), ac_body = ?body\<rparr>"
        using good Cons by (auto simp: justified_def)
      from written [OF this] assms Cons True G show ?thesis by (simp add: upsertRecord_def Let_def)
    next
      case False
      with assms Cons G have "st' = ?st1 \<and> \<not> is_ok r"
        by (cases rest) (auto simp: upsertRecord_def Let_def)
      with only show ?thesis by simp
    qed
  qed
qed

lemma upsert_log_auth:
  "upsert_log tk zid ty name target proxied b l \<Longrightarrow> q \<in> set l \<Longrightarrow> ac_auth (fst q) = bearer tk"
  by (auto simp: upsert_log_def justified_def get_call_def)

text \<open>Which calls one reconciliation makes.\<close>

definition relay_records :: "string \<Rightarrow> (string \<times> bool) list" where
  "relay_records base = [(''*.'' @ base, True), (''relay.'' @ base, False)]"

lemma reconcile_calls:
  assumes "Reconcile ul sf api token zone0 base0 target0 st = (r, st')"
  obtains (rejected) "st' = st" "r \<in> {Inl Token_Missing, Inl Zone_Mismatch, Inl Bad_Target}"
  | (zone_failed) reply where "\<not> is_ok r"
      "calls st' = calls st @ [(get_call token (''/zones?name='' @ query_escape (clean_domain ul zone0)), reply)]"
      "token \<noteq> []" "in_zone (clean_domain ul base0) (clean_domain ul zone0)"
  | (upserted) ip reply zid l1 l2 b1 where "token \<noteq> []"
      "in_zone (clean_domain ul base0) (clean_domain ul zone0)" "ParseIP (trim_space target0) = Some ip"
      "calls st' = calls st @ (get_call token (''/zones?name='' @ query_escape (clean_domain ul zone0)), reply) # l1 @ l2"
      "upsert_log token zid (fst (record_target ip)) (''*.'' @ clean_domain ul base0) (snd (record_target ip)) True b1 l1"
      "if b1 then upsert_log token zid (fst (record_target ip)) (''relay.'' @ clean_domain ul base0)
           (snd (record_target ip)) False (is_ok r) l2
       else l2 = [] \<and> \<not> is_ok r"
proof (cases "token \<noteq> [] \<and> in_zone (clean_domain ul base0) (clean_domain ul zone0)")
  case False
  with assms rejected show thesis by (cases "token = []") (simp_all add: Reconcile_def)
next
  case ok: True
  let ?zone = "clean_domain ul zone0" and ?base = "clean_domain ul base0"
  show thesis
  proof (cases "ParseIP (trim_space target0)")
    case None
    with ok assms rejected show thesis by (simp add: Reconcile_def Let_def)
  next
    case (Some ip)
    obtain ty target where t: "record_target ip = (ty, target)" by fastforce
    obtain z st1 where Z: "zoneID sf api token ?zone st = (z, st1)" by fastforce
    have "\<exists>reply. calls st1 = calls st @ [(get_call token (''/zones?name='' @ query_escape ?zone), reply)]"
      by (rule call_api_cases [of as_zones api token "''GET''" "''/zones?name='' @ query_escape ?zone" None st])
        (use Z in \<open>auto simp: zoneID_def get_call_def split: list.splits if_splits\<close>)
    then obtain reply where zc: "calls st1 = calls st @ [(get_call token (''/zones?name='' @ query_escape ?zone), reply)]" ..
    show thesis
    proof (cases z)
      case (Inl err)
      with ok Some t Z assms have "r = Inl err" "st' = st1" by (simp_all add: Reconcile_def Let_def)
      with zc ok show thesis by (intro zone_failed) auto
    next
      case (Inr zid)
      obtain u st2 where U: "upsertRecord api token zid ty (''*.'' @ ?base) target True st1 = (u, st2)" by fastforce
      obtain l1 where l1: "calls st2 = calls st1 @ l1" "upsert_log token zid ty (''*.'' @ ?base) target True (is_ok u) l1"
        using upsert_calls [OF U] by blast
      show thesis
      proof (cases u)
        case (Inl err)
        with ok Some t Z Inr U assms have "r = Inl err" "st' = st2"
          by (simp_all add: Reconcile_def Let_def)
        with ok Some t zc l1 Inl show thesis
          by (intro upserted [of ip reply l1 "[]" zid False]) auto
      next
        case (Inr v)
        with ok Some t Z \<open>z = Inr zid\<close> U assms
        have "upsertRecord api token zid ty (''relay.'' @ ?base) target False st2 = (r, st')"
          by (simp add: Reconcile_def Let_def)
        from upsert_calls [OF this] obtain l2 where l2: "calls st' = calls st2 @ l2"
          "upsert_log token zid ty (''relay.'' @ ?base) target False (is_ok r) l2" by blast
        with ok Some t zc l1 Inr show thesis
          by (intro upserted [of ip reply l1 l2 zid True]) auto
      qed
    qed
  qed
qed

fun justified_writes ::
  "(api_call \<times> api_reply \<Rightarrow> api_call \<Rightarrow> bool) \<Rightarrow> (api_call \<times> api_reply) option
     \<Rightarrow> (api_call \<times> api_reply) list \<Rightarrow> bool" where
  "justified_writes J prev [] = True"
| "justified_writes J prev ((c, reply) # l) =
     ((ac_method c = ''GET'' \<or> (\<exists>q. prev = Some q \<and> J q c)) \<and> justified_writes J (Some (c, reply)) l)"

lemma justified_writes_append:
  "justified_writes J prev (l1 @ l2) \<longleftrightarrow>
     justified_writes J prev l1 \<and> justified_writes J (if l1 = [] then prev else Some (last l1)) l2"
  by (induction l1 arbitrary: prev) auto

lemma upsert_log_justified:
  "upsert_log tk zid ty name target proxied b l \<Longrightarrow>
     (\<And>q c. justified tk zid ty name target proxied q c \<Longrightarrow> J q c) \<Longrightarrow> justified_writes J prev l"
  by (auto simp: upsert_log_def get_call_def) (auto simp: justified_def get_call_def)

lemma in_zone_iff: "in_zone base zone \<longleftrightarrow> zone \<noteq> [] \<and> (base = zone \<or> (\<exists>p. base = p @ ''.'' @ zone))"
  by (auto simp: in_zone_def has_suffix_iff)

lemma relay_name_in_zone:
  assumes "in_zone base zone" "(name, b) \<in> set (relay_records base)"
  shows "has_suffix name (''.'' @ zone)"
proof -
  obtain p where "name = p @ ''.'' @ base"
  proof -
    have "name = ''*'' @ ''.'' @ base \<or> name = ''relay'' @ ''.'' @ base"
      using assms(2) by (auto simp: relay_records_def)
    then show thesis using that by blast
  qed
  then show ?thesis using assms(1) by (auto simp: in_zone_iff has_suffix_iff)
qed

text \<open>A zone without the two records, on a service that accepts every write.\<close>

definition example_api :: "unit api" where
  "example_api call s =
     (Answer 200 ''200 OK'' (Inr \<lparr>as_zones = Some [\<lparr>ze_id = ''z1'', ze_name = ''tunnl.at''\<rparr>],
        as_records = Some [], as_record = Some \<lparr>dr_id = ''r1'', dr_type = ''A'', dr_name = ''n'',
          dr_content = ''c'', dr_comment = managedComment\<rparr>, en_success = True, en_errors = []\<rparr>), s)"

lemma example_domain: "clean_domain id ''tunnl.at'' = ''tunnl.at''"
  by (simp add: clean_domain_def trim_space_ascii is_space_def to_lower_ascii lower_char_def
      trim_suffix_def has_suffix_def go_simps)

lemma example_target: "ParseIP (trim_space ''192.0.2.1'') = Some (replicate 10 0 @ [255, 255, 192, 0, 2, 1])"
  by (simp add: trim_space_ascii is_space_def ParseIP_def parse_v4_def parse_v4_fields_def is_digit_def)

lemma example_reconcile:
  "\<exists>st'. Reconcile id id example_api ''t'' ''tunnl.at'' ''tunnl.at'' ''192.0.2.1''
     \<lparr>remote = (), calls = []\<rparr> = (Inr (), st')"
  by (simp add: Reconcile_def example_domain example_target in_zone_def record_target_def To4_def
      zoneID_def call_api_def example_api_def equal_fold_def upsertRecord_def Let_def)

section \<open>Properties\<close>

text \<open>
  C23: a reconciliation writes only what it may: whatever the API answers, every call carries the
  configured token as its bearer credential, and every call that is not
  a \<open>GET\<close> writes the wildcard or the relay record of the base domain, a name inside the configured
  zone, with the type and the normalised text of the parsed target and the managed comment; and it
  follows directly on an answer that listed either no record of that name (then it is a \<open>POST\<close>) or
  exactly one record carrying the managed comment (then it is a \<open>PUT\<close> to that record).
\<close>

theorem reconcile_writes_only_managed:
  assumes "Reconcile ul sf api token zone0 base0 target0 st = (r, st')"
  shows "\<exists>l. calls st' = calls st @ l \<and> length l \<le> 5 \<and>
    (\<forall>q \<in> set l. ac_auth (fst q) = bearer token) \<and>
    justified_writes (\<lambda>q c. \<exists>zid ip name proxied.
        (name, proxied) \<in> set (relay_records (clean_domain ul base0))
        \<and> has_suffix name (''.'' @ clean_domain ul zone0)
        \<and> ParseIP (trim_space target0) = Some ip
        \<and> justified token zid (fst (record_target ip)) name (snd (record_target ip)) proxied q c) None l"
  using assms
proof (cases rule: reconcile_calls)
  case rejected
  then show ?thesis by (intro exI [of _ "[]"]) simp
next
  case (zone_failed reply)
  then show ?thesis
    by (intro exI [of _ "[(get_call token (''/zones?name='' @ query_escape (clean_domain ul zone0)), reply)]"])
      (simp add: get_call_def)
next
  case (upserted ip reply zid l1 l2 b1)
  let ?base = "clean_domain ul base0"
  let ?J = "\<lambda>q c. \<exists>zid ip name proxied. (name, proxied) \<in> set (relay_records ?base)
        \<and> has_suffix name (''.'' @ clean_domain ul zone0)
        \<and> ParseIP (trim_space target0) = Some ip
        \<and> justified token zid (fst (record_target ip)) name (snd (record_target ip)) proxied q c"
  have names: "(''*.'' @ ?base, True) \<in> set (relay_records ?base)"
    "(''relay.'' @ ?base, False) \<in> set (relay_records ?base)"
    by (simp_all add: relay_records_def)
  note suffix = relay_name_in_zone [OF upserted(2)]
  have J1: "justified_writes ?J prev l1" for prev
    by (rule upsert_log_justified [OF upserted(5)]) (use names(1) suffix upserted(3) in blast)
  have J2: "justified_writes ?J prev l2" for prev
  proof (cases b1)
    case True
    with upserted(6) have "upsert_log token zid (fst (record_target ip)) (''relay.'' @ ?base)
        (snd (record_target ip)) False (is_ok r) l2" by simp
    then show ?thesis
      by (rule upsert_log_justified) (use names(2) suffix upserted(3) in blast)
  qed (use upserted(6) in simp)
  have "length l1 \<le> 2" "length l2 \<le> 2"
    using upserted(5,6) by (auto simp: upsert_log_def split: if_splits)
  moreover have "\<forall>q \<in> set (l1 @ l2). ac_auth (fst q) = bearer token"
    using upsert_log_auth upserted(5,6) by (fastforce split: if_splits)
  ultimately show ?thesis
    by (intro exI [of _ "(get_call token (''/zones?name='' @ query_escape (clean_domain ul zone0)), reply) # l1 @ l2"])
      (use upserted(4) J1 J2 in \<open>simp add: get_call_def justified_writes_append\<close>)
qed

theorem reconcile_writes_only_managed_witness:
  "\<exists>st'. Reconcile id id example_api ''t'' ''tunnl.at'' ''tunnl.at'' ''192.0.2.1''
     \<lparr>remote = (), calls = []\<rparr> = (Inr (), st') \<and> length (calls st') \<le> 5"
proof -
  obtain st' where R: "Reconcile id id example_api ''t'' ''tunnl.at'' ''tunnl.at'' ''192.0.2.1''
      \<lparr>remote = (), calls = []\<rparr> = (Inr (), st')"
    using example_reconcile by blast
  from reconcile_writes_only_managed [OF R] have "length (calls st') \<le> 5" by auto
  with R show ?thesis by blast
qed

text \<open>
  Success means both records were written: a reconciliation that reports success has made
  exactly five calls, and the API has confirmed a justified write of the proxied wildcard record
  and one of the unproxied relay record, with the address family of the target.
\<close>

theorem reconcile_success:
  assumes "Reconcile ul sf api token zone0 base0 target0 st = (Inr (), st')"
  shows "\<exists>ip zid z q1 c1 a1 q2 c2 a2 x1 x2.
    ParseIP (trim_space target0) = Some ip
    \<and> calls st' = calls st @ [z, q1, (c1, a1), q2, (c2, a2)]
    \<and> justified token zid (fst (record_target ip)) (''*.'' @ clean_domain ul base0) (snd (record_target ip)) True q1 c1
    \<and> good_answer as_record x1 a1
    \<and> justified token zid (fst (record_target ip)) (''relay.'' @ clean_domain ul base0) (snd (record_target ip)) False q2 c2
    \<and> good_answer as_record x2 a2"
  using assms
proof (cases rule: reconcile_calls)
  case (upserted ip reply zid l1 l2 b1)
  from upserted(6) have b1 and l2: "upsert_log token zid (fst (record_target ip))
      (''relay.'' @ clean_domain ul base0) (snd (record_target ip)) False True l2"
    by (auto split: if_splits)
  from upserted(5) \<open>b1\<close> obtain q1 c1 a1 x1 where "l1 = [q1, (c1, a1)]" "good_answer as_record x1 a1"
    "justified token zid (fst (record_target ip)) (''*.'' @ clean_domain ul base0) (snd (record_target ip)) True q1 c1"
    unfolding upsert_log_def by blast
  moreover from l2 obtain q2 c2 a2 x2 where "l2 = [q2, (c2, a2)]" "good_answer as_record x2 a2"
    "justified token zid (fst (record_target ip)) (''relay.'' @ clean_domain ul base0) (snd (record_target ip)) False q2 c2"
    unfolding upsert_log_def by blast
  ultimately show ?thesis
    using upserted(3,4) by (simp only: append_Cons append_Nil) blast
qed simp_all

end
