(* ===== verification/Tls_Source.thy ===== *)
theory Tls_Source
  imports Server_Config Metrics
begin

text \<open>
  \<^verbatim>\<open>internal/tlsutil/tls.go\<close>: where the relay's certificate comes from and what the admin panel
  shows about it. The ACME client (certmagic), the file system and the certificate encoder are
  parameters: what they return for a call is an argument of the operation.
\<close>

section \<open>State\<close>

record tls_options =
  o_cert_path :: string
  o_key_path :: string
  o_base_domain :: string
  o_acme_enabled :: bool
  o_acme_email :: string
  o_acme_storage :: string
  o_acme_staging :: bool
  o_cloudflare_token :: string

text \<open>The fields of a parsed X.509 certificate the code reads or sets.\<close>

record leaf =
  dns_names :: "string list"
  issuer_cn :: string
  serial_number :: int
  not_before :: time
  not_after :: time

text \<open>A \<open>tls.Certificate\<close>: its chain is empty, or its leaf parses, or it does not.\<close>

datatype certificate = Empty_Chain | Parsed leaf | Unparsable string

record source =
  s_certificate :: "certificate option"
  s_managed :: bool
  s_generated :: bool
  s_mode :: string
  s_base_domain :: string
  s_staging :: bool
  s_last_event :: string
  s_last_event_at :: time
  s_last_error :: string

record tls_status =
  ts_mode :: string
  ts_state :: string
  ts_provider :: string
  ts_staging :: bool
  ts_names :: "string list"
  ts_issuer :: string
  ts_serial :: string
  ts_not_before :: time
  ts_not_after :: time
  ts_renewal_window_start :: time
  ts_last_event :: string
  ts_last_event_at :: time
  ts_last_error :: string

datatype tls_error =
  Acme_Manual_Exclusive
| Base_Domain_Required
| Acme_Email_Required
| Acme_Storage_Required
| Acme_Token_Required
| Acme_Storage_Failed string
| Acme_Obtain_Failed string
| Both_Files_Required
| Key_Pair_Failed string

section \<open>Loading and generating\<close>

definition minute :: duration where
  "minute = 60 * second"

definition hour :: duration where
  "hour = 3600 * second"

text \<open>The template of the development certificate.\<close>

definition development_leaf :: "string \<Rightarrow> int \<Rightarrow> time \<Rightarrow> leaf" where
  "development_leaf baseDomain serial now =
     \<lparr>dns_names = [''localhost'', baseDomain, ''*.'' @ baseDomain],
      issuer_cn = ''tunnl development certificate'', serial_number = serial,
      not_before = now - minute, not_after = now + 24 * hour\<rparr>"

text \<open>
  \<open>load\<close> is what \<open>tls.LoadX509KeyPair\<close> returns for the two files, \<open>serial\<close> the random serial
  number and \<open>encode\<close> what encoding the self-signed template and reading it back gives.
\<close>

definition LoadOrGenerate ::
  "(string + certificate) \<Rightarrow> (string + int) \<Rightarrow> (leaf \<Rightarrow> string + certificate) \<Rightarrow> time
     \<Rightarrow> string \<Rightarrow> string \<Rightarrow> string \<Rightarrow> (tls_error + certificate) \<times> bool" where
  "LoadOrGenerate load serial encode now certPath keyPath baseDomain =
     (if certPath \<noteq> [] \<or> keyPath \<noteq> [] then
        (if certPath = [] \<or> keyPath = [] then (Inl Both_Files_Required, False)
         else (map_sum Key_Pair_Failed id load, False))
      else
        (case serial of
           Inl m \<Rightarrow> (Inl (Key_Pair_Failed m), True)
         | Inr n \<Rightarrow> (map_sum Key_Pair_Failed id (encode (development_leaf baseDomain n now)), True)))"

definition acme_source :: "tls_options \<Rightarrow> source" where
  "acme_source opts = \<lparr>s_certificate = None, s_managed = True, s_generated = False, s_mode = ''acme'',
     s_base_domain = o_base_domain opts, s_staging = o_acme_staging opts, s_last_event = [],
     s_last_event_at = zero_time, s_last_error = []\<rparr>"

section \<open>Events\<close>

definition known_events :: "string list" where
  "known_events = [''cert_obtaining'', ''cert_obtained'', ''cert_failed'', ''cert_ocsp_revoked'',
     ''cached_managed_cert'']"

definition onEvent :: "time \<Rightarrow> string \<Rightarrow> string \<Rightarrow> source \<Rightarrow> source" where
  "onEvent now event err s =
     (if event \<notin> set known_events then s
      else
        (let s1 = s\<lparr>s_last_event := event, s_last_event_at := now\<rparr> in
         if event = ''cert_failed'' then s1\<lparr>s_last_error := err\<rparr>
         else if event = ''cert_obtained'' \<or> event = ''cached_managed_cert'' then s1\<lparr>s_last_error := []\<rparr>
         else s1))"

definition run_events :: "(time \<times> string \<times> string) list \<Rightarrow> source \<Rightarrow> source" where
  "run_events evs s = fold (\<lambda>(now, event, err). onEvent now event err) evs s"

section \<open>Opening a source\<close>

text \<open>
  \<open>mkdir\<close> and \<open>manage\<close> are the results of \<open>os.MkdirAll\<close> and of certmagic's \<open>ManageSync\<close> for the
  wildcard of the base domain, with the events certmagic reports to \<open>onEvent\<close> meanwhile.
\<close>

definition NewSource ::
  "string option \<Rightarrow> (string list \<Rightarrow> (time \<times> string \<times> string) list \<times> string option)
     \<Rightarrow> (string + certificate) \<Rightarrow> (string + int)
     \<Rightarrow> (leaf \<Rightarrow> string + certificate) \<Rightarrow> time \<Rightarrow> tls_options \<Rightarrow> tls_error + source" where
  "NewSource mkdir manage load serial encode now opts =
     (if o_acme_enabled opts then
        (if o_cert_path opts \<noteq> [] \<or> o_key_path opts \<noteq> [] then Inl Acme_Manual_Exclusive
         else if o_base_domain opts = [] then Inl Base_Domain_Required
         else if o_acme_email opts = [] then Inl Acme_Email_Required
         else if o_acme_storage opts = [] then Inl Acme_Storage_Required
         else if o_cloudflare_token opts = [] then Inl Acme_Token_Required
         else
           (case mkdir of
              Some m \<Rightarrow> Inl (Acme_Storage_Failed m)
            | None \<Rightarrow>
                (case manage [''*.'' @ o_base_domain opts] of
                   (_, Some m) \<Rightarrow> Inl (Acme_Obtain_Failed m)
                 | (events, None) \<Rightarrow> Inr (run_events events (acme_source opts)))))
      else
        (case LoadOrGenerate load serial encode now (o_cert_path opts) (o_key_path opts) (o_base_domain opts) of
           (Inl e, _) \<Rightarrow> Inl e
         | (Inr cert, generated) \<Rightarrow>
             Inr \<lparr>s_certificate = Some cert, s_managed = False, s_generated = generated,
                  s_mode = (if generated then ''development'' else ''manual''),
                  s_base_domain = o_base_domain opts, s_staging = False, s_last_event = [],
                  s_last_event_at = zero_time, s_last_error = []\<rparr>))"

text \<open>The options \<open>Server.Run\<close> passes.\<close>

definition source_options :: "config \<Rightarrow> tls_options" where
  "source_options c = \<lparr>o_cert_path = TLSCert c, o_key_path = TLSKey c, o_base_domain = BaseDomain c,
     o_acme_enabled = ACMEEnabled c, o_acme_email = ACMEEmail c, o_acme_storage = ACMEStorage c,
     o_acme_staging = ACMEStaging c, o_cloudflare_token = CloudflareAPIToken c\<rparr>"

section \<open>What the listeners get\<close>

definition VersionTLS12 :: nat where
  "VersionTLS12 = 0x0303"

definition VersionTLS13 :: nat where
  "VersionTLS13 = 0x0304"

text \<open>\<open>tc_certificate\<close> is \<open>None\<close> when the certificate comes from the manager at each handshake.\<close>

record tls_config =
  tc_min_version :: nat
  tc_next_protos :: "string list"
  tc_certificate :: "certificate option"

definition TLSConfig :: "source \<Rightarrow> nat \<Rightarrow> string list \<Rightarrow> tls_config" where
  "TLSConfig s minVersion nextProtos =
     \<lparr>tc_min_version = minVersion, tc_next_protos = nextProtos,
      tc_certificate = (if s_managed s then None else s_certificate s)\<rparr>"

definition Generated :: "source \<Rightarrow> bool" where
  "Generated s = s_generated s"

definition Managed :: "source \<Rightarrow> bool" where
  "Managed s = s_managed s"

fun ValidateFiles :: "(string \<Rightarrow> string option) \<Rightarrow> string list \<Rightarrow> string + unit" where
  "ValidateFiles stat_error [] = Inr ()"
| "ValidateFiles stat_error (p # ps) =
     (if p = [] then ValidateFiles stat_error ps
      else (case stat_error p of Some m \<Rightarrow> Inl m | None \<Rightarrow> ValidateFiles stat_error ps))"

section \<open>Status\<close>

text \<open>Signed 64-bit negation and division by a positive number, as Go computes them.\<close>

definition neg64 :: "int \<Rightarrow> int" where
  "neg64 d = (if d = - (2 ^ 63) then d else - d)"

definition quot :: "int \<Rightarrow> int \<Rightarrow> int" where
  "quot a b = (if a < 0 then - ((- a) div b) else a div b)"

fun nat_to_hex :: "nat \<Rightarrow> string" where
  "nat_to_hex n = (if n < 16 then [hex_digit n] else nat_to_hex (n div 16) @ [hex_digit n])"

declare nat_to_hex.simps [simp del]

definition int_text16 :: "int \<Rightarrow> string" where
  "int_text16 i = (if i < 0 then ''-'' @ nat_to_hex (nat (- i)) else nat_to_hex (nat i))"

definition renewal_start :: "leaf \<Rightarrow> time" where
  "renewal_start l = not_after l + quot (neg64 (time_sub (not_after l) (not_before l))) 3"

definition certificate_state :: "time \<Rightarrow> string \<Rightarrow> time \<Rightarrow> leaf \<Rightarrow> string" where
  "certificate_state now event event_at l =
     (if event = ''cert_ocsp_revoked'' then ''revoked''
      else if event = ''cert_obtaining'' then ''renewing''
      else if event = ''cert_failed'' \<and> time_sub now event_at < 24 * hour then ''error''
      else if \<not> now < not_after l then ''expired''
      else if \<not> now < renewal_start l then ''renewal_due''
      else ''valid'')"

definition base_status :: "source \<Rightarrow> tls_status" where
  "base_status s =
     \<lparr>ts_mode = s_mode s, ts_state = [], ts_provider = (if s_managed s then ''Let's Encrypt'' else []),
      ts_staging = s_staging s, ts_names = [], ts_issuer = [], ts_serial = [], ts_not_before = zero_time,
      ts_not_after = zero_time, ts_renewal_window_start = zero_time, ts_last_event = s_last_event s,
      ts_last_event_at = s_last_event_at s, ts_last_error = s_last_error s\<rparr>"

definition leaf_status :: "time \<Rightarrow> leaf \<Rightarrow> tls_status \<Rightarrow> tls_status" where
  "leaf_status now l st =
     st\<lparr>ts_names := dns_names l, ts_issuer := issuer_cn l, ts_serial := int_text16 (serial_number l),
        ts_not_before := not_before l, ts_not_after := not_after l,
        ts_renewal_window_start := renewal_start l,
        ts_state := certificate_state now (ts_last_event st) (ts_last_event_at st) l\<rparr>"

text \<open>\<open>get\<close> is what certmagic's \<open>GetCertificate\<close> returns for a server name.\<close>

definition source_status :: "time \<Rightarrow> (string \<Rightarrow> string + certificate) \<Rightarrow> source \<Rightarrow> tls_status" where
  "source_status now get s =
     (let st = base_status s;
          found = (if s_managed s then map_sum id Some (get (''relay.'' @ s_base_domain s))
                   else Inr (s_certificate s))
      in case found of
           Inl err \<Rightarrow>
             st\<lparr>ts_state := ''unavailable'',
                ts_last_error := (if ts_last_error st = [] then err else ts_last_error st)\<rparr>
         | Inr None \<Rightarrow> st\<lparr>ts_state := ''unavailable''\<rparr>
         | Inr (Some Empty_Chain) \<Rightarrow> st\<lparr>ts_state := ''unavailable''\<rparr>
         | Inr (Some (Unparsable m)) \<Rightarrow> st\<lparr>ts_state := ''unavailable'', ts_last_error := m\<rparr>
         | Inr (Some (Parsed l)) \<Rightarrow> leaf_status now l st)"

section \<open>Lemmas\<close>

lemma quot_neg: "0 \<le> d \<Longrightarrow> quot (neg64 d) 3 = - (d div 3)"
  by (simp add: quot_def neg64_def)

lemma renewal_start_eq:
  assumes "not_before l \<le> not_after l" "not_after l - not_before l < 2 ^ 63"
  shows "renewal_start l = not_after l - (not_after l - not_before l) div 3"
proof -
  have "time_sub (not_after l) (not_before l) = not_after l - not_before l"
    using assms by (simp add: time_sub_def)
  then show ?thesis using assms(1) by (simp add: renewal_start_def quot_neg)
qed

lemma onEvent_keep:
  "s_managed (onEvent t e m s) = s_managed s" "s_base_domain (onEvent t e m s) = s_base_domain s"
  by (simp_all add: onEvent_def Let_def)

lemma run_events_keep:
  "s_managed (run_events evs s) = s_managed s" "s_base_domain (run_events evs s) = s_base_domain s"
  by (induction evs arbitrary: s) (simp_all add: run_events_def case_prod_beta onEvent_keep)

definition clears_error :: "string \<Rightarrow> bool" where
  "clears_error e \<longleftrightarrow> e = ''cert_obtained'' \<or> e = ''cached_managed_cert''"

lemma run_events_append: "run_events (evs @ evs') s = run_events evs' (run_events evs s)"
  by (simp add: run_events_def)

section \<open>Properties\<close>

text \<open>
  The state shown for a parsed certificate. When the last certificate event does not decide,
  a certificate is \<open>valid\<close> before the last third of its life, \<open>renewal_due\<close> in it and \<open>expired\<close> from
  its end on; the renewal window lies within the certificate's life; a failed renewal is shown as
  \<open>error\<close> for less than 24 hours.
\<close>

theorem certificate_states:
  assumes "not_before l \<le> not_after l" "not_after l - not_before l < 2 ^ 63"
    and "event \<notin> {''cert_ocsp_revoked'', ''cert_obtaining''}"
    and "event = ''cert_failed'' \<longrightarrow> event_at + 24 * hour \<le> now"
  shows "not_before l \<le> renewal_start l \<and> renewal_start l \<le> not_after l
    \<and> (certificate_state now event event_at l = ''expired'' \<longleftrightarrow> not_after l \<le> now)
    \<and> (certificate_state now event event_at l = ''renewal_due'' \<longleftrightarrow> renewal_start l \<le> now \<and> now < not_after l)
    \<and> (certificate_state now event event_at l = ''valid'' \<longleftrightarrow> now < renewal_start l)"
proof -
  define d where "d = not_after l - not_before l"
  have r: "renewal_start l = not_after l - d div 3"
    using renewal_start_eq [OF assms(1,2)] by (simp add: d_def)
  have "0 \<le> d" using assms(1) by (simp add: d_def)
  then have "0 \<le> d div 3" "d div 3 \<le> d" by linarith+
  then have "not_before l \<le> renewal_start l" "renewal_start l \<le> not_after l"
    by (simp_all add: r d_def)
  moreover have "\<not> (event = ''cert_failed'' \<and> time_sub now event_at < 24 * hour)"
    using assms(4) by (auto simp: time_sub_def hour_def second_def)
  ultimately show ?thesis
    using assms(3) by (auto simp: certificate_state_def)
qed

theorem certificate_states_witness:
  "certificate_state (50 * hour) ''cert_obtained'' 0 \<lparr>dns_names = [], issuer_cn = [], serial_number = 1,
     not_before = 0, not_after = 90 * hour\<rparr> = ''valid''"
proof -
  let ?l = "\<lparr>dns_names = [], issuer_cn = [], serial_number = 1, not_before = 0, not_after = 90 * hour\<rparr>"
  have "50 * hour < renewal_start ?l"
    by (simp add: renewal_start_def neg64_def quot_def time_sub_def hour_def second_def)
  with certificate_states [of ?l "''cert_obtained''" 0 "50 * hour"] show ?thesis
    by (simp add: hour_def second_def)
qed

text \<open>
  What the panel shows about renewals follows the events: after any sequence of certmagic
  events the error message is that of the last failure if no certificate was obtained or loaded
  after it, it is empty if one was, and it is unchanged if neither kind occurred; the event and
  its time are those of the last known event. Unknown events change nothing.
\<close>

theorem events_determine_source:
  "(case filter (\<lambda>(t, e, m). e = ''cert_failed'' \<or> clears_error e) evs of
      [] \<Rightarrow> s_last_error (run_events evs s) = s_last_error s
    | x # xs \<Rightarrow> (case last (x # xs) of (t, e, m) \<Rightarrow>
        s_last_error (run_events evs s) = (if e = ''cert_failed'' then m else [])))
   \<and> (case filter (\<lambda>(t, e, m). e \<in> set known_events) evs of
      [] \<Rightarrow> run_events evs s = s
    | x # xs \<Rightarrow> (case last (x # xs) of (t, e, m) \<Rightarrow>
        s_last_event (run_events evs s) = e \<and> s_last_event_at (run_events evs s) = t))"
proof (induction evs rule: rev_induct)
  case Nil
  then show ?case by (simp add: run_events_def)
next
  case (snoc x evs)
  obtain t e m where x: "x = (t, e, m)" by (cases x)
  have run: "run_events (evs @ [x]) s = onEvent t e m (run_events evs s)"
    by (simp add: run_events_append run_events_def x)
  have known: "e = ''cert_failed'' \<or> clears_error e \<Longrightarrow> e \<in> set known_events"
    by (auto simp: clears_error_def known_events_def)
  have err: "s_last_error (onEvent t e m r) =
      (if e = ''cert_failed'' then m else if clears_error e then [] else s_last_error r)" for r
    using known by (auto simp: onEvent_def clears_error_def Let_def)
  have ev: "s_last_event (onEvent t e m r) = (if e \<in> set known_events then e else s_last_event r)"
    "s_last_event_at (onEvent t e m r) = (if e \<in> set known_events then t else s_last_event_at r)"
    "e \<notin> set known_events \<Longrightarrow> onEvent t e m r = r" for r
    by (auto simp: onEvent_def Let_def)
  have app: "(case xs @ ys of [] \<Rightarrow> A | z # zs \<Rightarrow> B (last (z # zs))) =
      (if ys = [] then (case xs of [] \<Rightarrow> A | z # zs \<Rightarrow> B (last (z # zs))) else B (last ys))"
    for xs ys :: "(time \<times> string \<times> string) list" and A B
    by (cases xs; cases ys) auto
  show ?case
  proof (cases "e \<in> set known_events")
    case True
    with snoc.IH show ?thesis unfolding run err ev(1,2) filter_append app by (auto simp: x)
  next
    case False
    then have same: "run_events (evs @ [x]) s = run_events evs s" using run ev(3) by simp
    from False known have
      "filter (\<lambda>(t, e, m). e = ''cert_failed'' \<or> clears_error e) (evs @ [x])
        = filter (\<lambda>(t, e, m). e = ''cert_failed'' \<or> clears_error e) evs"
      "filter (\<lambda>(t, e, m). e \<in> set known_events) (evs @ [x])
        = filter (\<lambda>(t, e, m). e \<in> set known_events) evs"
      by (auto simp: x)
    then show ?thesis unfolding same by (simp only: snoc.IH)
  qed
qed

text \<open>
  The checks of the two layers agree: a configuration that passes the checks of \<open>New\<close>, with
  both or neither of the certificate files named, opens a certificate source in \<open>Run\<close> whenever the
  file system, the ACME service and the random source succeed; with ACME the source is managed.
\<close>

theorem accepted_config_opens_source:
  assumes "check_config c = Inr ()" "TLSCert c = [] \<longleftrightarrow> TLSKey c = []"
    and "mkdir = None" "manage [''*.'' @ BaseDomain c] = (events, None)"
    and "is_ok load" "is_ok serial" "\<forall>l. is_ok (encode l)"
  shows "\<exists>s. NewSource mkdir manage load serial encode now (source_options c) = Inr s
    \<and> (s_managed s \<longleftrightarrow> ACMEEnabled c) \<and> s_base_domain s = BaseDomain c"
proof (cases "ACMEEnabled c")
  case True
  have a: "acme_check c = Inr ()" and b: "BaseDomain c \<noteq> []"
    using assms(1) by (auto simp: check_config_def split: if_splits sum.splits)
  have "TLSCert c = []" "TLSKey c = []" "ACMEEmail c \<noteq> []" "ACMEStorage c \<noteq> []" "CloudflareAPIToken c \<noteq> []"
    using a True by (auto simp: acme_check_def split: if_splits)
  then have "NewSource mkdir manage load serial encode now (source_options c)
      = Inr (run_events events (acme_source (source_options c)))"
    using b True assms(3,4) by (simp add: NewSource_def source_options_def)
  then show ?thesis
    using True by (simp add: run_events_keep acme_source_def source_options_def)
next
  case False
  obtain cert n where cert: "load = Inr cert" and n: "serial = Inr n"
    using assms(5,6) by (auto simp: is_ok_iff)
  obtain dev where dev: "encode (development_leaf (BaseDomain c) n now) = Inr dev"
    using assms(7) by (auto simp: is_ok_iff)
  show ?thesis
  proof (cases "TLSCert c = []")
    case True
    with False assms(2) n dev show ?thesis
      by (simp add: NewSource_def source_options_def LoadOrGenerate_def)
  next
    case False
    with \<open>\<not> ACMEEnabled c\<close> assms(2) cert show ?thesis
      by (simp add: NewSource_def source_options_def LoadOrGenerate_def)
  qed
qed

theorem accepted_config_opens_source_witness:
  "\<exists>s. NewSource None (\<lambda>_. ([], None)) (Inr Empty_Chain) (Inr 7) (\<lambda>l. Inr (Parsed l)) 0
     (source_options example_config) = Inr s"
proof -
  have "ParseIP ''localhost'' = None" by (simp add: ParseIP_def)
  have "SplitHostPort ''localhost:8081'' = Inr (''localhost'', ''8081'')"
    using SplitHostPort_join [of "''localhost''" "''8081''"] by (simp add: plain_def)
  then have "check_config example_config = Inr ()"
    by (simp add: check_config_def acme_check_def admin_check_def loopback_host_iff example_config_def)
  from accepted_config_opens_source [OF this, of None "\<lambda>_. ([], None)" "[]"
      "Inr Empty_Chain" "Inr 7" "\<lambda>l. Inr (Parsed l)" 0]
  show ?thesis by (auto simp: example_config_def)
qed

end
