(* ===== verification/Server_Admin.thy ===== *)
theory Server_Admin
  imports Tunnel Cloudflare Tls_Source Http
begin

text \<open>
  \<^verbatim>\<open>internal/server/admin.go\<close>: the operations behind the admin panel. \<open>RevokeToken\<close> as
  interleaved steps is in the theory Tunnel; here it is one call without interruptions. Random
  bytes, the clock, the file system and the Cloudflare API are arguments. A failed operation
  returns the error and leaves the state as its last statement left it.
\<close>

section \<open>Views the panel shows\<close>

record admin_token =
  tk_id :: string
  tk_label :: string
  tk_prefix :: string
  tk_created_at :: time
  tk_last_used_at :: "time option"

record created_token =
  cr_token :: admin_token
  cr_secret :: string

record dns_view =
  dv_provider :: string
  dv_zone :: string
  dv_target :: string
  dv_credential :: bool
  dv_updated_at :: time

record system_status =
  sy_cpu_percent :: rat
  sy_heap_bytes :: "64 word"
  sy_runtime_bytes :: "64 word"
  sy_goroutines :: int
  sy_gc_cycles :: "32 word"
  sy_database_bytes :: int
  sy_disk_total :: "64 word"
  sy_disk_free :: "64 word"
  sy_num_cpu :: int
  sy_go_version :: string

record certificate_status =
  ce_mode :: string
  ce_state :: string
  ce_provider :: string
  ce_staging :: bool
  ce_names :: "string list"
  ce_issuer :: string
  ce_serial :: string
  ce_not_before :: "time option"
  ce_not_after :: "time option"
  ce_renewal_window_start :: "time option"
  ce_last_event :: string
  ce_last_event_at :: "time option"
  ce_last_error :: string

record admin_status =
  as_version :: string
  as_started_at :: time
  as_uptime_seconds :: int
  as_base_domain :: string
  as_active_tunnels :: nat
  as_reservations :: nat
  as_managed_tokens :: nat
  as_bootstrap_tokens :: nat
  as_total_connections :: "64 word"
  as_total_requests :: "64 word"
  as_failed_requests :: "64 word"
  as_response_bytes :: "64 word"
  as_system :: system_status
  as_certificate :: certificate_status
  as_tunnels :: "session_info list"

record metrics_view =
  mv_window_seconds :: int
  mv_sample_interval :: int
  mv_samples :: "metric_sample list"

datatype admin_error =
  Bad_Label
| No_Random string
| Store_Failed store_error
| Id_Required
| Token_Not_Found
| Zone_Excludes_Base
| Target_Not_Ip
| Unknown_Provider
| Cloudflare_Not_Selected
| Reconcile_Dns cf_error

section \<open>Tokens\<close>

definition printable_label :: "string \<Rightarrow> bool" where
  "printable_label l \<longleftrightarrow>
     \<not> (l = [] \<or> length l > 80 \<or> (\<exists>r \<in> set (runes l). is_control r))"

definition Tokens ::
  "string option \<Rightarrow> (client_token list \<Rightarrow> client_token list) \<Rightarrow> db \<Rightarrow> admin_error + admin_token list" where
  "Tokens q visit s =
     (case ListClientTokens q visit s of
        Inl e \<Rightarrow> Inl (Store_Failed e)
      | Inr values \<Rightarrow> Inr (map (\<lambda>v. \<lparr>tk_id = lt_id v, tk_label = lt_label v, tk_prefix = lt_prefix v,
          tk_created_at = lt_created_at v, tk_last_used_at = lt_last_used_at v\<rparr>) values))"

definition secret_of :: "8 word list \<Rightarrow> string" where
  "secret_of bytes = ''tnl_'' @ b64_encode bytes"

definition CreateToken ::
  "relay \<Rightarrow> (string + 8 word list) \<Rightarrow> (string + 8 word list) \<Rightarrow> exec_env \<Rightarrow> time \<Rightarrow> string \<Rightarrow> db
     \<Rightarrow> (admin_error + created_token) \<times> db" where
  "CreateToken P rnd id_bytes e now label0 s =
     (let label = trim_space label0 in
      if \<not> printable_label label then (Inl Bad_Label, s)
      else
        (case rnd of
           Inl m \<Rightarrow> (Inl (No_Random m), s)
         | Inr bytes \<Rightarrow>
             (case id_bytes of
                Inl m \<Rightarrow> (Inl (No_Random m), s)
              | Inr ib \<Rightarrow>
                  (let secret = secret_of bytes; ident = hex_encode ib; prefix = take 12 secret in
                   case CreateClientToken e ident label (hashToken P secret) prefix s of
                     (Inl err, s') \<Rightarrow> (Inl (Store_Failed err), s')
                   | (Inr _, s') \<Rightarrow>
                       (Inr \<lparr>cr_token = \<lparr>tk_id = ident, tk_label = label, tk_prefix = prefix,
                          tk_created_at = now, tk_last_used_at = None\<rparr>, cr_secret = secret\<rparr>, s')))))"

definition RevokeToken ::
  "string option \<Rightarrow> exec_env \<Rightarrow> string \<Rightarrow> registry \<Rightarrow> db
     \<Rightarrow> (admin_error + unit) \<times> close_call list \<times> db" where
  "RevokeToken q e ident reg s =
     (if ident = [] then (Inl Id_Required, [], s)
      else
        (case ClientTokenHash q ident s of
           Inl _ \<Rightarrow> (Inl Token_Not_Found, [], s)
         | Inr h \<Rightarrow>
             (case DeleteClientToken e ident s of
                (Inl err, s') \<Rightarrow> (Inl (Store_Failed err), [], s')
              | (Inr deleted, s') \<Rightarrow>
                  if \<not> deleted then (Inl Token_Not_Found, [], s')
                  else (Inr (), fst (disconnectToken h reg), s'))))"

section \<open>DNS\<close>

definition DNS :: "config \<Rightarrow> string option \<Rightarrow> db \<Rightarrow> admin_error + dns_view" where
  "DNS c q s =
     (case DNSConfig q s of
        Inl err \<Rightarrow> Inl (Store_Failed err)
      | Inr v \<Rightarrow> Inr \<lparr>dv_provider = provider v, dv_zone = zone v, dv_target = target v,
          dv_credential = (CloudflareAPIToken c \<noteq> []), dv_updated_at = updated_at v\<rparr>)"

definition check_dns :: "(rune \<Rightarrow> rune) \<Rightarrow> config \<Rightarrow> string \<Rightarrow> string \<Rightarrow> string \<Rightarrow> admin_error + unit" where
  "check_dns ul c prov zn targ =
     (if prov = ''manual'' then Inr ()
      else if prov = ''cloudflare'' then
        (let base = trim_suffix (to_lower ul (BaseDomain c)) ''.'' in
         if zn = [] \<or> (base \<noteq> zn \<and> \<not> has_suffix base (''.'' @ zn)) then Inl Zone_Excludes_Base
         else if ParseIP targ = None then Inl Target_Not_Ip
         else Inr ())
      else Inl Unknown_Provider)"

definition SetDNS ::
  "(rune \<Rightarrow> rune) \<Rightarrow> config \<Rightarrow> exec_env \<Rightarrow> string option \<Rightarrow> dns_view \<Rightarrow> db
     \<Rightarrow> (admin_error + dns_view) \<times> db" where
  "SetDNS ul c e q view s =
     (let prov = to_lower ul (trim_space (dv_provider view));
          zn = trim_suffix (to_lower ul (trim_space (dv_zone view))) ''.'';
          targ = trim_space (dv_target view)
      in case check_dns ul c prov zn targ of
           Inl err \<Rightarrow> (Inl err, s)
         | Inr _ \<Rightarrow>
             (case SetDNSConfig e prov zn targ s of
                (Inl err, s') \<Rightarrow> (Inl (Store_Failed err), s')
              | (Inr _, s') \<Rightarrow> (DNS c q s', s')))"

definition ReconcileDNS ::
  "(rune \<Rightarrow> rune) \<Rightarrow> (rune \<Rightarrow> rune) \<Rightarrow> 'r api \<Rightarrow> config \<Rightarrow> string option \<Rightarrow> db \<Rightarrow> 'r cf_state
     \<Rightarrow> (admin_error + string) \<times> 'r cf_state" where
  "ReconcileDNS ul sf api c q s st =
     (case DNS c q s of
        Inl err \<Rightarrow> (Inl err, st)
      | Inr view \<Rightarrow>
          if dv_provider view \<noteq> ''cloudflare'' then (Inl Cloudflare_Not_Selected, st)
          else
            (case Reconcile ul sf api (CloudflareAPIToken c) (dv_zone view) (BaseDomain c) (dv_target view) st of
               (Inl err, st') \<Rightarrow> (Inl (Reconcile_Dns err), st')
             | (Inr _, st') \<Rightarrow> (Inr ''Cloudflare DNS records reconciled'', st')))"

section \<open>Status\<close>

definition optionalTime :: "time \<Rightarrow> time option" where
  "optionalTime v = (if v = zero_time then None else Some v)"

text \<open>
  \<open>stat\<close> is the size of a file, when it can be read; \<open>statfs\<close> the block count, the available
  blocks and the block size of the file system of a directory.
\<close>

definition databaseBytes :: "(string \<Rightarrow> int option) \<Rightarrow> string \<Rightarrow> int" where
  "databaseBytes stat path =
     fold (\<lambda>candidate total. case stat candidate of Some n \<Rightarrow> total + n | None \<Rightarrow> total)
       [path, path @ ''-wal'', path @ ''-shm''] 0"

text \<open>\<open>filepath.Dir\<close>: the cleaned path up to the last separator.\<close>

definition path_dir :: "string \<Rightarrow> string" where
  "path_dir p = path_clean (case last_index_of CHR ''/'' p of None \<Rightarrow> [] | Some i \<Rightarrow> take (Suc i) p)"

definition diskSpace ::
  "(string \<Rightarrow> (64 word \<times> 64 word \<times> 64 word) option) \<Rightarrow> string \<Rightarrow> 64 word \<times> 64 word" where
  "diskSpace statfs path =
     (case statfs (path_dir path) of
        None \<Rightarrow> (0, 0)
      | Some (blocks, avail, bsize) \<Rightarrow> (blocks * bsize, avail * bsize))"

definition certificate_view :: "tls_status \<Rightarrow> certificate_status" where
  "certificate_view v =
     \<lparr>ce_mode = ts_mode v, ce_state = ts_state v, ce_provider = ts_provider v, ce_staging = ts_staging v,
      ce_names = ts_names v, ce_issuer = ts_issuer v, ce_serial = ts_serial v,
      ce_not_before = optionalTime (ts_not_before v), ce_not_after = optionalTime (ts_not_after v),
      ce_renewal_window_start = optionalTime (ts_renewal_window_start v),
      ce_last_event = ts_last_event v, ce_last_event_at = optionalTime (ts_last_event_at v),
      ce_last_error = ts_last_error v\<rparr>"

definition no_certificate :: certificate_status where
  "no_certificate = \<lparr>ce_mode = ''unavailable'', ce_state = ''unavailable'', ce_provider = [],
     ce_staging = False, ce_names = [], ce_issuer = [], ce_serial = [], ce_not_before = None,
     ce_not_after = None, ce_renewal_window_start = None, ce_last_event = [], ce_last_event_at = None,
     ce_last_error = []\<rparr>"

record host_view =
  hv_version :: string
  hv_now :: time
  hv_runtime :: runtime_snapshot
  hv_stat :: "string \<Rightarrow> int option"
  hv_statfs :: "string \<Rightarrow> (64 word \<times> 64 word \<times> 64 word) option"
  hv_num_cpu :: int
  hv_go_version :: string
  hv_get_certificate :: "string \<Rightarrow> string + certificate"

definition Status ::
  "config \<Rightarrow> host_view \<Rightarrow> string option \<Rightarrow> string option \<Rightarrow> source option \<Rightarrow> registry \<Rightarrow> metrics \<Rightarrow> db
     \<Rightarrow> admin_error + admin_status" where
  "Status c hv q1 q2 src reg m s =
     (case CountReservations q1 s of
        Inl err \<Rightarrow> Inl (Store_Failed err)
      | Inr reservations \<Rightarrow>
          (case CountClientTokens q2 s of
             Inl err \<Rightarrow> Inl (Store_Failed err)
           | Inr managed \<Rightarrow>
               (let sessions = snapshot reg;
                    (newest, rt) = latest (hv_now hv) (hv_runtime hv) m;
                    (disk_total, disk_free) = diskSpace (hv_statfs hv) (Database c);
                    cert = (case src of None \<Rightarrow> no_certificate
                            | Some so \<Rightarrow> certificate_view (source_status (hv_now hv) (hv_get_certificate hv) so))
                in Inr \<lparr>as_version = hv_version hv, as_started_at = started_at m,
                     as_uptime_seconds = quot (time_sub (hv_now hv) (started_at m)) second,
                     as_base_domain = BaseDomain c, as_active_tunnels = length sessions,
                     as_reservations = reservations, as_managed_tokens = managed,
                     as_bootstrap_tokens = length (AuthTokens c),
                     as_total_connections = total_connections m, as_total_requests = total_requests m,
                     as_failed_requests = failed_requests m, as_response_bytes = response_bytes m,
                     as_system = \<lparr>sy_cpu_percent = ms_cpu_percent newest, sy_heap_bytes = heap_bytes rt,
                       sy_runtime_bytes = system_bytes rt, sy_goroutines = goroutines rt,
                       sy_gc_cycles = gc_cycles rt,
                       sy_database_bytes = databaseBytes (hv_stat hv) (Database c),
                       sy_disk_total = disk_total, sy_disk_free = disk_free,
                       sy_num_cpu = hv_num_cpu hv, sy_go_version = hv_go_version hv\<rparr>,
                     as_certificate = cert, as_tunnels = sessions\<rparr>)))"

definition Metrics_view :: "metrics \<Rightarrow> metrics_view" where
  "Metrics_view m =
     \<lparr>mv_window_seconds = quot metricSampleInterval second * int metricHistoryLimit,
      mv_sample_interval = quot metricSampleInterval second, mv_samples = snapshots m\<rparr>"

end
