(* ===== verification/Admin_Handler.thy ===== *)
theory Admin_Handler
  imports Server_Admin Http_Server
begin

text \<open>
  \<^verbatim>\<open>internal/admin/handler.go\<close>: the HTTP handler of the admin panel. Its state is the session map
  and, behind the \<open>Backend\<close> interface, the server. A request is served in one step; the second
  clock reading is the one \<open>indexPage\<close> takes. Bodies are the values \<open>encoding/json\<close> and the form
  parser decode them to, and an answer's JSON body is the encoded value. SHA-256 and the folding
  table of \<open>strings.EqualFold\<close> are parameters, and so is the status \<open>ServeMux\<close> redirects a path
  that is not clean with, which depends on the Go release.
\<close>

section \<open>The backend interface\<close>

datatype backend_call =
  Call_Status
| Call_Metrics
| Call_Tokens
| Call_CreateToken string
| Call_RevokeToken string
| Call_DNS
| Call_SetDNS dns_view
| Call_ReconcileDNS

datatype reply =
  Status_Reply admin_status
| Metrics_Reply metrics_view
| Tokens_Reply "admin_token list"
| Created_Reply created_token
| Revoked_Reply
| Dns_Reply dns_view
| Message_Reply string

type_synonym ('e, 'b) backend = "'e \<Rightarrow> backend_call \<Rightarrow> 'b \<Rightarrow> (string + reply) \<times> 'b"

section \<open>State, requests, answers\<close>

record admin_session =
  se_csrf :: string
  se_expires_at :: time

type_synonym sessions = "(string \<times> admin_session) list"

record panel =
  pn_token :: string
  pn_sum256 :: "string \<Rightarrow> 8 word list"
  pn_fold :: "rune \<Rightarrow> rune"
  pn_moved :: nat

record 'b panel_state =
  ps_sessions :: sessions
  ps_backend :: 'b

text \<open>
  \<open>aq_path\<close> is the escaped path. \<open>aq_form\<close> is the form value \<open>token\<close>, unless \<open>ParseForm\<close> fails on
  the first 8 KiB; \<open>aq_label\<close> and \<open>aq_dns\<close> are what the first \<open>Decode\<close> of at most 64 KiB gives for
  the two body types, and \<open>aq_single\<close> whether the second one reports the end of the body.
\<close>

record 'e admin_request =
  aq_method :: string
  aq_path :: string
  aq_query :: string
  aq_header :: header
  aq_tls :: bool
  aq_error_param :: string
  aq_form :: "string option"
  aq_label :: "string option"
  aq_dns :: "dns_view option"
  aq_single :: bool
  aq_random_id :: "string + 8 word list"
  aq_random_csrf :: "string + 8 word list"
  aq_now :: time
  aq_later :: time
  aq_env :: 'e

datatype panel_body =
  Empty_Body
| Text_Body string
| Login_Body bool
| Index_Body string
| Asset_Body string
| Error_Json string
| Value_Json reply

record panel_answer =
  an_status :: nat
  an_header :: header
  an_body :: panel_body

section \<open>Helpers\<close>

definition token_equal :: "panel \<Rightarrow> string \<Rightarrow> string \<Rightarrow> bool" where
  "token_equal P left right \<longleftrightarrow> pn_sum256 P left = pn_sum256 P right"

definition randomValue :: "string + 8 word list \<Rightarrow> string + string" where
  "randomValue r = (case r of Inl m \<Rightarrow> Inl m | Inr bytes \<Rightarrow> Inr (b64_encode bytes))"

definition GenerateAdminToken :: "string + 8 word list \<Rightarrow> string + string" where
  "GenerateAdminToken r =
     (case randomValue r of Inl m \<Rightarrow> Inl m | Inr v \<Rightarrow> Inr (''tna_'' @ v))"

definition writeJSON :: "header \<Rightarrow> nat \<Rightarrow> panel_body \<Rightarrow> panel_answer" where
  "writeJSON h code body =
     \<lparr>an_status = code, an_header = header_set ''Content-Type'' ''application/json; charset=utf-8'' h,
      an_body = body\<rparr>"

definition writeError :: "header \<Rightarrow> nat \<Rightarrow> string \<Rightarrow> panel_answer" where
  "writeError h code msg = writeJSON h code (Error_Json msg)"

definition writeResult :: "header \<Rightarrow> string + reply \<Rightarrow> panel_answer" where
  "writeResult h r =
     (case r of
        Inl _ \<Rightarrow> writeError h 500 ''operation failed''
      | Inr v \<Rightarrow> writeJSON h 200 (Value_Json v))"

definition decodeJSON :: "'a option \<Rightarrow> bool \<Rightarrow> string + 'a" where
  "decodeJSON first single =
     (case first of
        None \<Rightarrow> Inl ''invalid JSON body''
      | Some v \<Rightarrow> if \<not> single then Inl ''request body must contain one JSON value'' else Inr v)"

definition as_answer :: "response \<Rightarrow> panel_answer" where
  "as_answer r = \<lparr>an_status = rs_status r, an_header = rs_header r, an_body = Text_Body (rs_body r)\<rparr>"

definition redirect :: "header \<Rightarrow> 'e admin_request \<Rightarrow> string \<Rightarrow> panel_answer" where
  "redirect h rq url = as_answer (http_redirect h (aq_method rq) url 303 ''See Other'')"

definition session_cookie :: string where
  "session_cookie = ''tunnl_admin_session''"

section \<open>Construction\<close>

definition NewHandler ::
  "(string \<Rightarrow> 8 word list) \<Rightarrow> (rune \<Rightarrow> rune) \<Rightarrow> nat \<Rightarrow> string \<Rightarrow> 'b option \<Rightarrow> string option \<Rightarrow> string option
     \<Rightarrow> string + panel \<times> 'b panel_state" where
  "NewHandler sha fold_table moved adminToken backend index_err login_err =
     (if length adminToken < 32 then Inl ''admin token must contain at least 32 characters''
      else
        (case backend of
           None \<Rightarrow> Inl ''admin backend is required''
         | Some b \<Rightarrow>
             (case index_err of
                Some m \<Rightarrow> Inl m
              | None \<Rightarrow>
                  (case login_err of
                     Some m \<Rightarrow> Inl m
                   | None \<Rightarrow>
                       Inr (\<lparr>pn_token = adminToken, pn_sum256 = sha, pn_fold = fold_table, pn_moved = moved\<rparr>,
                            \<lparr>ps_sessions = [], ps_backend = b\<rparr>)))))"

definition quoted :: "string \<Rightarrow> string" where
  "quoted s = CHR 0x27 # s @ [CHR 0x27]"

definition content_policy :: string where
  "content_policy =
     ''default-src '' @ quoted ''self'' @ ''; base-uri '' @ quoted ''none'' @ ''; frame-ancestors ''
       @ quoted ''none'' @ ''; form-action '' @ quoted ''self'' @ ''; object-src '' @ quoted ''none''"

definition securityHeaders :: "header \<Rightarrow> header" where
  "securityHeaders h =
     header_set ''X-Frame-Options'' ''DENY''
      (header_set ''X-Content-Type-Options'' ''nosniff''
        (header_set ''Referrer-Policy'' ''no-referrer''
          (header_set ''Content-Security-Policy'' content_policy
            (header_set ''Cache-Control'' ''no-store'' h))))"

section \<open>Authentication\<close>

datatype auth = Bearer | Session string

definition authorize :: "panel \<Rightarrow> header \<Rightarrow> time \<Rightarrow> sessions \<Rightarrow> auth option \<times> sessions" where
  "authorize P h now ss =
     (let authorization = header_get ''Authorization'' h in
      if has_prefix authorization ''Bearer '' then
        (if token_equal P (trim_prefix authorization ''Bearer '') (pn_token P)
         then (Some Bearer, ss) else (None, ss))
      else
        (case cookie session_cookie h of
           None \<Rightarrow> (None, ss)
         | Some v \<Rightarrow>
             (case map_of ss v of
                None \<Rightarrow> (None, AList.delete v ss)
              | Some se \<Rightarrow>
                  if now > se_expires_at se then (None, AList.delete v ss)
                  else (Some (Session (se_csrf se)), ss))))"

definition requireAuth ::
  "panel \<Rightarrow> 'e admin_request \<Rightarrow> header \<Rightarrow> ('b panel_state \<Rightarrow> panel_answer \<times> 'b panel_state)
     \<Rightarrow> 'b panel_state \<Rightarrow> panel_answer \<times> 'b panel_state" where
  "requireAuth P rq h next st =
     (case authorize P (aq_header rq) (aq_now rq) (ps_sessions st) of
        (None, ss) \<Rightarrow>
          (if has_prefix (path_unescape (aq_path rq)) ''/api/''
           then writeError h 401 ''authentication required'' else redirect h rq ''/login'',
           st\<lparr>ps_sessions := ss\<rparr>)
      | (Some (Session csrf), ss) \<Rightarrow>
          if aq_method rq \<noteq> ''GET'' \<and> aq_method rq \<noteq> ''HEAD''
             \<and> \<not> token_equal P (header_get ''X-CSRF-Token'' (aq_header rq)) csrf
          then (writeError h 403 ''invalid CSRF token'', st\<lparr>ps_sessions := ss\<rparr>)
          else next (st\<lparr>ps_sessions := ss\<rparr>)
      | (Some Bearer, ss) \<Rightarrow> next (st\<lparr>ps_sessions := ss\<rparr>))"

section \<open>Pages\<close>

definition html :: "header \<Rightarrow> panel_body \<Rightarrow> panel_answer" where
  "html h body = \<lparr>an_status = 200, an_header = header_set ''Content-Type'' ''text/html; charset=utf-8'' h,
     an_body = body\<rparr>"

definition loginPage ::
  "panel \<Rightarrow> 'e admin_request \<Rightarrow> header \<Rightarrow> 'b panel_state \<Rightarrow> panel_answer \<times> 'b panel_state" where
  "loginPage P rq h st =
     (case authorize P (aq_header rq) (aq_now rq) (ps_sessions st) of
        (Some _, ss) \<Rightarrow> (redirect h rq ''/'', st\<lparr>ps_sessions := ss\<rparr>)
      | (None, ss) \<Rightarrow> (html h (Login_Body (aq_error_param rq \<noteq> [])), st\<lparr>ps_sessions := ss\<rparr>))"

definition session_lifetime :: duration where
  "session_lifetime = 12 * 3600 * second"

definition loginSubmit ::
  "panel \<Rightarrow> 'e admin_request \<Rightarrow> header \<Rightarrow> 'b panel_state \<Rightarrow> panel_answer \<times> 'b panel_state" where
  "loginSubmit P rq h st =
     (if (case aq_form rq of None \<Rightarrow> True | Some token \<Rightarrow> \<not> token_equal P token (pn_token P))
      then (redirect h rq ''/login?error=1'', st)
      else
        (case randomValue (aq_random_id rq) of
           Inl _ \<Rightarrow> (writeError h 500 ''could not create session'', st)
         | Inr i \<Rightarrow>
             (case randomValue (aq_random_csrf rq) of
                Inl _ \<Rightarrow> (writeError h 500 ''could not create session'', st)
              | Inr csrf \<Rightarrow>
                  (let secure = aq_tls rq
                         \<or> equal_fold (pn_fold P) (header_get ''X-Forwarded-Proto'' (aq_header rq)) ''https''
                   in (redirect (header_add ''Set-Cookie'' (set_cookie session_cookie i (12 * 60 * 60) secure) h)
                         rq ''/'',
                       st\<lparr>ps_sessions := AList.update i
                            \<lparr>se_csrf = csrf, se_expires_at = aq_now rq + session_lifetime\<rparr> (ps_sessions st)\<rparr>)))))"

definition logout ::
  "'e admin_request \<Rightarrow> header \<Rightarrow> 'b panel_state \<Rightarrow> panel_answer \<times> 'b panel_state" where
  "logout rq h st =
     (\<lparr>an_status = 204, an_header = header_add ''Set-Cookie'' (set_cookie session_cookie [] (-1) False) h,
       an_body = Empty_Body\<rparr>,
      (case cookie session_cookie (aq_header rq) of
         None \<Rightarrow> st
       | Some v \<Rightarrow> st\<lparr>ps_sessions := AList.delete v (ps_sessions st)\<rparr>))"

definition indexPage ::
  "panel \<Rightarrow> 'e admin_request \<Rightarrow> header \<Rightarrow> 'b panel_state \<Rightarrow> panel_answer \<times> 'b panel_state" where
  "indexPage P rq h st =
     (case authorize P (aq_header rq) (aq_later rq) (ps_sessions st) of
        (Some (Session csrf), ss) \<Rightarrow> (html h (Index_Body csrf), st\<lparr>ps_sessions := ss\<rparr>)
      | (_, ss) \<Rightarrow> (html h (Index_Body []), st\<lparr>ps_sessions := ss\<rparr>))"

text \<open>The embedded files are part of the binary, so reading them does not fail.\<close>

definition asset :: "string \<Rightarrow> string \<Rightarrow> header \<Rightarrow> panel_answer" where
  "asset name contentType h =
     \<lparr>an_status = 200, an_header = header_set ''Content-Type'' contentType h, an_body = Asset_Body name\<rparr>"

section \<open>API handlers\<close>

definition ask ::
  "('e, 'b) backend \<Rightarrow> 'e \<Rightarrow> backend_call \<Rightarrow> 'b panel_state \<Rightarrow> (string + reply) \<times> 'b panel_state" where
  "ask B env call st = (case B env call (ps_backend st) of (r, b) \<Rightarrow> (r, st\<lparr>ps_backend := b\<rparr>))"

definition read_call ::
  "('e, 'b) backend \<Rightarrow> backend_call \<Rightarrow> 'e admin_request \<Rightarrow> header \<Rightarrow> 'b panel_state
     \<Rightarrow> panel_answer \<times> 'b panel_state" where
  "read_call B call rq h st = (case ask B (aq_env rq) call st of (r, st') \<Rightarrow> (writeResult h r, st'))"

definition panel_createToken ::
  "('e, 'b) backend \<Rightarrow> 'e admin_request \<Rightarrow> header \<Rightarrow> 'b panel_state \<Rightarrow> panel_answer \<times> 'b panel_state" where
  "panel_createToken B rq h st =
     (case decodeJSON (aq_label rq) (aq_single rq) of
        Inl m \<Rightarrow> (writeError h 400 m, st)
      | Inr label \<Rightarrow>
          (case ask B (aq_env rq) (Call_CreateToken label) st of
             (Inl m, st') \<Rightarrow> (writeError h 400 m, st')
           | (Inr v, st') \<Rightarrow> (writeJSON h 201 (Value_Json v), st')))"

definition panel_revokeToken ::
  "('e, 'b) backend \<Rightarrow> string \<Rightarrow> 'e admin_request \<Rightarrow> header \<Rightarrow> 'b panel_state
     \<Rightarrow> panel_answer \<times> 'b panel_state" where
  "panel_revokeToken B ident rq h st =
     (case ask B (aq_env rq) (Call_RevokeToken ident) st of
        (Inl m, st') \<Rightarrow> (writeError h 400 m, st')
      | (Inr _, st') \<Rightarrow> (\<lparr>an_status = 204, an_header = h, an_body = Empty_Body\<rparr>, st'))"

definition panel_setDNS ::
  "('e, 'b) backend \<Rightarrow> 'e admin_request \<Rightarrow> header \<Rightarrow> 'b panel_state \<Rightarrow> panel_answer \<times> 'b panel_state" where
  "panel_setDNS B rq h st =
     (case decodeJSON (aq_dns rq) (aq_single rq) of
        Inl m \<Rightarrow> (writeError h 400 m, st)
      | Inr view \<Rightarrow>
          (case ask B (aq_env rq) (Call_SetDNS view) st of
             (Inl m, st') \<Rightarrow> (writeError h 400 m, st')
           | (Inr v, st') \<Rightarrow> (writeJSON h 200 (Value_Json v), st')))"

definition panel_reconcileDNS ::
  "('e, 'b) backend \<Rightarrow> 'e admin_request \<Rightarrow> header \<Rightarrow> 'b panel_state \<Rightarrow> panel_answer \<times> 'b panel_state" where
  "panel_reconcileDNS B rq h st =
     (case ask B (aq_env rq) Call_ReconcileDNS st of
        (Inl m, st') \<Rightarrow> (writeError h 400 m, st')
      | (Inr v, st') \<Rightarrow> (writeJSON h 200 (Value_Json v), st'))"

section \<open>Routes\<close>

datatype endpoint =
  Login_Page | Login_Submit | Logout | Css | Js | Index_Page | Api_Status | Api_Metrics | Api_Tokens
| Api_Create | Api_Revoke | Api_Dns | Api_SetDns | Api_Reconcile

datatype segment = Lit string | Wild

text \<open>A pattern: method, segments, whether it ends in a slash (and so matches every longer path).\<close>

definition patterns :: "(string \<times> segment list \<times> bool \<times> endpoint) list" where
  "patterns =
     [(''GET'', [Lit ''login''], False, Login_Page),
      (''POST'', [Lit ''login''], False, Login_Submit),
      (''POST'', [Lit ''logout''], False, Logout),
      (''GET'', [Lit ''assets'', Lit ''app.css''], False, Css),
      (''GET'', [Lit ''assets'', Lit ''app.js''], False, Js),
      (''GET'', [Lit ''api'', Lit ''v1'', Lit ''status''], False, Api_Status),
      (''GET'', [Lit ''api'', Lit ''v1'', Lit ''metrics''], False, Api_Metrics),
      (''GET'', [Lit ''api'', Lit ''v1'', Lit ''tokens''], False, Api_Tokens),
      (''POST'', [Lit ''api'', Lit ''v1'', Lit ''tokens''], False, Api_Create),
      (''DELETE'', [Lit ''api'', Lit ''v1'', Lit ''tokens'', Wild], False, Api_Revoke),
      (''GET'', [Lit ''api'', Lit ''v1'', Lit ''dns''], False, Api_Dns),
      (''PUT'', [Lit ''api'', Lit ''v1'', Lit ''dns''], False, Api_SetDns),
      (''POST'', [Lit ''api'', Lit ''v1'', Lit ''dns'', Lit ''reconcile''], False, Api_Reconcile),
      (''GET'', [], True, Index_Page)]"

fun matches :: "segment list \<Rightarrow> bool \<Rightarrow> string list \<Rightarrow> bool" where
  "matches [] multi ss = (multi \<or> ss = [])"
| "matches (Lit l # ps) multi (s # ss) = (s = l \<and> matches ps multi ss)"
| "matches (Wild # ps) multi (s # ss) = (s \<noteq> ''/'' \<and> matches ps multi ss)"
| "matches (p # ps) multi [] = False"

definition serves :: "string \<Rightarrow> string \<Rightarrow> bool" where
  "serves pattern_method method \<longleftrightarrow> pattern_method = method \<or> pattern_method = ''GET'' \<and> method = ''HEAD''"

text \<open>
  The patterns of the list have no two matches of one method but the catch-all, which is last, so
  the first match is the most specific one.
\<close>

definition find_endpoint :: "string \<Rightarrow> string list \<Rightarrow> endpoint option" where
  "find_endpoint method ss =
     (case filter (\<lambda>(m, ps, multi, e). serves m method \<and> matches ps multi ss) patterns of
        [] \<Rightarrow> None
      | (m, ps, multi, e) # _ \<Rightarrow> Some e)"

definition allowed_methods :: "string list \<Rightarrow> string list" where
  "allowed_methods ss =
     (let ms = map fst (filter (\<lambda>(m, ps, multi, e). matches ps multi ss) patterns)
      in sort (remdups (if ''GET'' \<in> set ms then ''HEAD'' # ms else ms)))"

definition run_endpoint ::
  "panel \<Rightarrow> ('e, 'b) backend \<Rightarrow> endpoint \<Rightarrow> string list \<Rightarrow> 'e admin_request \<Rightarrow> header \<Rightarrow> 'b panel_state
     \<Rightarrow> panel_answer \<times> 'b panel_state" where
  "run_endpoint P B e ss rq h st =
     (case e of
        Login_Page \<Rightarrow> loginPage P rq h st
      | Login_Submit \<Rightarrow> loginSubmit P rq h st
      | Logout \<Rightarrow> requireAuth P rq h (logout rq h) st
      | Css \<Rightarrow> (asset ''web/app.css'' ''text/css; charset=utf-8'' h, st)
      | Js \<Rightarrow> (asset ''web/app.js'' ''text/javascript; charset=utf-8'' h, st)
      | Index_Page \<Rightarrow> requireAuth P rq h (indexPage P rq h) st
      | Api_Status \<Rightarrow> requireAuth P rq h (read_call B Call_Status rq h) st
      | Api_Metrics \<Rightarrow> requireAuth P rq h (read_call B Call_Metrics rq h) st
      | Api_Tokens \<Rightarrow> requireAuth P rq h (read_call B Call_Tokens rq h) st
      | Api_Create \<Rightarrow> requireAuth P rq h (panel_createToken B rq h) st
      | Api_Revoke \<Rightarrow> requireAuth P rq h (panel_revokeToken B (last ss) rq h) st
      | Api_Dns \<Rightarrow> requireAuth P rq h (read_call B Call_DNS rq h) st
      | Api_SetDns \<Rightarrow> requireAuth P rq h (panel_setDNS B rq h) st
      | Api_Reconcile \<Rightarrow> requireAuth P rq h (panel_reconcileDNS B rq h) st)"

definition serve_panel ::
  "panel \<Rightarrow> ('e, 'b) backend \<Rightarrow> 'e admin_request \<Rightarrow> 'b panel_state \<Rightarrow> panel_answer \<times> 'b panel_state" where
  "serve_panel P B rq st =
     (let h = securityHeaders []; p = mux_clean (aq_path rq); ss = path_segments (aq_path rq) in
      if aq_method rq \<noteq> ''CONNECT'' \<and> p \<noteq> aq_path rq
      then (as_answer (mux_redirect (pn_moved P) h (aq_method rq) p (aq_query rq)), st)
      else
        (case find_endpoint (aq_method rq) ss of
           None \<Rightarrow>
             (as_answer (http_error (header_set ''Allow'' (concat (map (\<lambda>(i, m). if i = 0 then m else '', '' @ m)
                (enumerate 0 (allowed_methods ss)))) h) ''Method Not Allowed'' 405), st)
         | Some e \<Rightarrow> run_endpoint P B e ss rq h st))"

end
