(* ===== verification/Admin_Properties.thy ===== *)
theory Admin_Properties
  imports Server_Admin Store_Runs
begin

text \<open>
  What the operations behind the admin panel guarantee: a created token works and is stored only
  as its hash, everything the panel writes is well typed, DNS settings it accepted pass the
  checks of the reconciler, and one uninterrupted \<open>RevokeToken\<close> is a run of the interleaved steps.
\<close>

section \<open>Secrets\<close>

lemma hex_encode_length: "length (hex_encode bs) = 2 * length bs"
  by (induction bs) (simp_all add: hex_encode_def hex_byte_def)

lemma hex_encode_chars: "list_all hex_char (hex_encode bs)"
  by (induction bs) (simp_all add: hex_encode_def hex_byte_def hex_digit_char)

lemma secret_length: "length bytes = 32 \<Longrightarrow> length (secret_of bytes) = 47"
  by (simp add: secret_of_def b64_length)

lemma secret_prefix: "has_prefix (secret_of bytes) ''tnl_''"
  by (simp add: secret_of_def has_prefix_def)



lemma CreateToken_cases:
  obtains (failed) err where "CreateToken P rnd ib e now label s = (Inl err, s)"
  | (created) bytes ident s' where "rnd = Inr bytes" "ib = Inr ident" "printable_label (trim_space label)"
      "CreateClientToken e (hex_encode ident) (trim_space label) (hashToken P (secret_of bytes))
         (take 12 (secret_of bytes)) s = (Inr (), s')"
      "CreateToken P rnd ib e now label s =
         (Inr \<lparr>cr_token = \<lparr>tk_id = hex_encode ident, tk_label = trim_space label,
            tk_prefix = take 12 (secret_of bytes), tk_created_at = now, tk_last_used_at = None\<rparr>,
            cr_secret = secret_of bytes\<rparr>, s')"
proof (cases "printable_label (trim_space label) \<and> is_ok rnd \<and> is_ok ib")
  case False
  then have "\<exists>err. CreateToken P rnd ib e now label s = (Inl err, s)"
    by (cases rnd; cases ib) (simp_all add: CreateToken_def Let_def)
  then show ?thesis using failed by blast
next
  case True
  then obtain bytes ident where r: "rnd = Inr bytes" "ib = Inr ident" by (auto simp: is_ok_iff)
  obtain r s' where c: "CreateClientToken e (hex_encode ident) (trim_space label)
      (hashToken P (secret_of bytes)) (take 12 (secret_of bytes)) s = (r, s')"
    by (cases "CreateClientToken e (hex_encode ident) (trim_space label)
      (hashToken P (secret_of bytes)) (take 12 (secret_of bytes)) s")
  show ?thesis
  proof (cases r)
    case (Inl err)
    with c create_error have "s' = s" by blast
    with True r c Inl show ?thesis by (intro failed) (simp add: CreateToken_def Let_def)
  next
    case (Inr u)
    with True r c show ?thesis by (intro created [of bytes ident s']) (simp_all add: CreateToken_def Let_def)
  qed
qed

section \<open>Typed tables\<close>

definition token_typed :: "client_token \<Rightarrow> bool" where
  "token_typed t \<longleftrightarrow> length (ct_id t) = 24 \<and> list_all hex_char (ct_id t)
     \<and> printable_label (ct_label t) \<and> length (ct_prefix t) = 12 \<and> has_prefix (ct_prefix t) ''tnl_''"

definition dns_typed :: "(rune \<Rightarrow> rune) \<Rightarrow> config \<Rightarrow> (string \<times> string \<times> string \<times> int) option \<Rightarrow> bool" where
  "dns_typed ul c row =
     (case row of
        None \<Rightarrow> True
      | Some (p, z, t, u) \<Rightarrow> p = ''manual'' \<or>
          p = ''cloudflare'' \<and> in_zone (trim_suffix (to_lower ul (BaseDomain c)) ''.'') z \<and> ParseIP t \<noteq> None)"

definition store_typed :: "(rune \<Rightarrow> rune) \<Rightarrow> config \<Rightarrow> db \<Rightarrow> bool" where
  "store_typed ul c s \<longleftrightarrow> list_all token_typed (client_tokens s)
     \<and> list_all tunnel_name (keys_of (domain_reservations s)) \<and> dns_typed ul c (dns_row s)"

text \<open>
  What changes the store while the relay runs: the panel's operations, and of the tunnel server
  the reservations it makes and the tokens it authenticates.
\<close>

datatype relay_op =
  Panel_Create "string + 8 word list" "string + 8 word list" exec_env time string
| Panel_Revoke "string option" exec_env string registry
| Panel_SetDNS exec_env "string option" dns_view
| Handshake_Reserve tx_env string string
| Handshake_Allocate "nat \<Rightarrow> attempt" string
| Handshake_Authenticate exec_env string

fun relay_step :: "relay \<Rightarrow> relay_op \<Rightarrow> db \<Rightarrow> db" where
  "relay_step P (Panel_Create rnd ib e now label) s = snd (CreateToken P rnd ib e now label s)"
| "relay_step P (Panel_Revoke q e ident reg) s = snd (snd (RevokeToken q e ident reg s))"
| "relay_step P (Panel_SetDNS e q view) s = snd (SetDNS (lower_table P) (cfg P) e q view s)"
| "relay_step P (Handshake_Reserve e input h) s =
     (case Normalize (lower_table P) input of Inl _ \<Rightarrow> s | Inr d \<Rightarrow> snd (Reserve e d h s))"
| "relay_step P (Handshake_Allocate as h) s = snd (Allocate as h s)"
| "relay_step P (Handshake_Authenticate e token) s = snd (authenticate P e token s)"

text \<open>The random bytes come in the numbers the code asks for.\<close>

fun random_sizes :: "relay_op \<Rightarrow> bool" where
  "random_sizes (Panel_Create rnd ib e now label) =
     (case (rnd, ib) of (Inr b, Inr i) \<Rightarrow> length b = 32 \<and> length i = 12 | _ \<Rightarrow> True)"
| "random_sizes _ = True"

lemma check_dns_typed:
  "check_dns ul c p z t = Inr u \<Longrightarrow> dns_typed ul c (Some (p, z, t, n))"
  by (auto simp: check_dns_def dns_typed_def in_zone_def Let_def split: if_splits)

lemma SetDNS_cases:
  obtains (rejected) err where "SetDNS ul c e q view s = (Inl err, s)"
  | (saved) p z t where "p = to_lower ul (trim_space (dv_provider view))"
      "z = clean_domain ul (dv_zone view)" "t = trim_space (dv_target view)"
      "check_dns ul c p z t = Inr ()"
      "SetDNS ul c e q view s =
         (DNS c q (s\<lparr>dns_row := Some (p, z, t, x_now e)\<rparr>), s\<lparr>dns_row := Some (p, z, t, x_now e)\<rparr>)"
proof (cases "check_dns ul c (to_lower ul (trim_space (dv_provider view)))
    (clean_domain ul (dv_zone view)) (trim_space (dv_target view))")
  case (Inl err)
  then show ?thesis by (intro rejected [of err]) (simp add: SetDNS_def Let_def clean_domain_def)
next
  case (Inr u)
  then have check: "check_dns ul c (to_lower ul (trim_space (dv_provider view)))
    (clean_domain ul (dv_zone view)) (trim_space (dv_target view)) = Inr ()" by simp
  show ?thesis
  proof (cases "x_err e")
    case None
    with check show ?thesis
      by (intro saved [OF refl refl refl]) (simp_all add: SetDNS_def Let_def clean_domain_def SetDNSConfig_def)
  next
    case (Some m)
    with check show ?thesis
      by (intro rejected [of "Store_Failed (DriverError m)"])
        (simp add: SetDNS_def Let_def clean_domain_def SetDNSConfig_def)
  qed
qed

lemma RevokeToken_state:
  "snd (snd (RevokeToken q e ident reg s)) = s
   \<or> snd (snd (RevokeToken q e ident reg s)) = snd (DeleteClientToken e ident s)"
  by (simp add: RevokeToken_def split: sum.split prod.split)

lemma authenticate_db:
  "snd (authenticate P e token s) = s
   \<or> snd (authenticate P e token s) = snd (AuthenticateClientToken e (hashToken P token) s)"
  by (simp add: authenticate_def Let_def split: sum.split prod.split)

lemma relay_step_db_ok:
  assumes "db_ok s"
  shows "db_ok (relay_step P x s)"
proof (cases x)
  case (Panel_Create rnd ib e now label)
  show ?thesis unfolding Panel_Create
    by (rule CreateToken_cases [of P rnd ib e now label s]) (auto dest: create_effect(4) [OF assms] simp: assms)
next
  case (Panel_SetDNS e q view)
  show ?thesis unfolding Panel_SetDNS
    by (rule SetDNS_cases [of "lower_table P" "cfg P" e q view s]) (use assms in \<open>simp_all add: db_ok_def\<close>)
next
  case (Panel_Revoke q e ident reg)
  then show ?thesis
    using RevokeToken_state [of q e ident reg s] assms by (auto simp: store_states)
next
  case (Handshake_Authenticate e token)
  then show ?thesis
    using authenticate_db [of P e token s] assms by (auto simp: store_states)
qed (use assms in \<open>simp_all add: store_states split: sum.split\<close>)

lemma Reserve_tables:
  "client_tokens (snd (Reserve e d h s)) = client_tokens s"
  "dns_row (snd (Reserve e d h s)) = dns_row s"
  "list_all Q (keys_of (domain_reservations s)) \<Longrightarrow> Q d \<Longrightarrow>
     list_all Q (keys_of (domain_reservations (snd (Reserve e d h s))))"
proof -
  have "client_tokens (snd (Reserve e d h s)) = client_tokens s
    \<and> dns_row (snd (Reserve e d h s)) = dns_row s
    \<and> (list_all Q (keys_of (domain_reservations s)) \<longrightarrow> Q d \<longrightarrow>
       list_all Q (keys_of (domain_reservations (snd (Reserve e d h s)))))"
  proof (rule Reserve_cases [of e d h s])
    fix t assume "insert_reservation d h (tx_now e) s = Inr t" "Reserve e d h s = (Inr (), t)"
    then show ?thesis by (auto simp: insert_reservation_def split: if_splits)
  next
    assume "Reserve e d h s = (Inr (), update_last_seen d (tx_now e) s)"
    then show ?thesis by simp (simp add: update_last_seen_def)
  qed simp
  then show "client_tokens (snd (Reserve e d h s)) = client_tokens s"
    "dns_row (snd (Reserve e d h s)) = dns_row s"
    "list_all Q (keys_of (domain_reservations s)) \<Longrightarrow> Q d \<Longrightarrow>
     list_all Q (keys_of (domain_reservations (snd (Reserve e d h s))))" by blast+
qed

lemma reserve_typed:
  "store_typed ul c s \<Longrightarrow> tunnel_name d \<Longrightarrow> store_typed ul c (snd (Reserve e d h s))"
  by (simp add: store_typed_def Reserve_tables)

lemma allocate_typed: "store_typed ul c s \<Longrightarrow> store_typed ul c (snd (Allocate as h s))"
proof (rule Allocate_cases [of as h s])
  fix i b s' assume "store_typed ul c s" "Allocate as h s = (Inr (random_domain b), s')"
    "Reserve (attempt_env (as i)) (random_domain b) h s = (Inr (), s')"
  then show ?thesis
    using reserve_typed [of ul c s "random_domain b" "attempt_env (as i)" h] by (simp add: random_domain_name)
qed simp

lemma tokens_typed_mono:
  assumes "store_typed ul c s" "domain_reservations s' = domain_reservations s" "dns_row s' = dns_row s"
    and "\<And>t. t \<in> set (client_tokens s') \<Longrightarrow> token_typed t"
  shows "store_typed ul c s'"
  using assms by (simp add: store_typed_def list_all_iff)

lemma auth_typed:
  assumes "store_typed ul c s"
  shows "store_typed ul c (snd (AuthenticateClientToken e h s))"
proof (rule tokens_typed_mono [OF assms])
  show "domain_reservations (snd (AuthenticateClientToken e h s)) = domain_reservations s"
    "dns_row (snd (AuthenticateClientToken e h s)) = dns_row s"
    by (simp_all add: AuthenticateClientToken_def update_last_used_def split: option.split)
  fix t assume "t \<in> set (client_tokens (snd (AuthenticateClientToken e h s)))"
  then obtain u where "u \<in> set (client_tokens s)" "t = u \<or> t = u\<lparr>ct_last_used_at := Some (x_now e)\<rparr>"
    by (auto simp: AuthenticateClientToken_def update_last_used_def split: option.splits)
  then show "token_typed t" using assms by (auto simp: store_typed_def list_all_iff token_typed_def)
qed

lemma delete_typed: "store_typed ul c s \<Longrightarrow> store_typed ul c (snd (DeleteClientToken e i s))"
  by (rule tokens_typed_mono [of ul c s])
    (auto simp: DeleteClientToken_def delete_token_def store_typed_def list_all_iff split: option.splits)

lemma create_typed:
  assumes "store_typed ul c s" "CreateClientToken e i l h p s = (Inr (), s')"
    "length i = 24" "list_all hex_char i" "printable_label l" "length p = 12" "has_prefix p ''tnl_''"
  shows "store_typed ul c s'"
  using assms
  by (auto simp: CreateClientToken_def insert_token_def store_typed_def token_typed_def
      split: option.splits if_splits)

lemma relay_step_typed:
  assumes "store_typed (lower_table P) (cfg P) s" "random_sizes x"
  shows "store_typed (lower_table P) (cfg P) (relay_step P x s)"
proof (cases x)
  case (Panel_Create rnd ib e now label)
  show ?thesis
  proof (rule CreateToken_cases [of P rnd ib e now label s])
    fix bytes ident s'
    assume r: "rnd = Inr bytes" "ib = Inr ident" "printable_label (trim_space label)"
      and c: "CreateClientToken e (hex_encode ident) (trim_space label) (hashToken P (secret_of bytes))
         (take 12 (secret_of bytes)) s = (Inr (), s')"
      and t: "CreateToken P rnd ib e now label s =
         (Inr \<lparr>cr_token = \<lparr>tk_id = hex_encode ident, tk_label = trim_space label,
            tk_prefix = take 12 (secret_of bytes), tk_created_at = now, tk_last_used_at = None\<rparr>,
            cr_secret = secret_of bytes\<rparr>, s')"
    have "length bytes = 32" "length ident = 12" using assms(2) r by (simp_all add: Panel_Create)
    then show ?thesis
      using create_typed [OF assms(1) c] r(3) t
      by (simp add: Panel_Create hex_encode_length hex_encode_chars secret_length)
        (simp add: secret_of_def has_prefix_def)
  qed (simp add: Panel_Create assms(1))
next
  case (Panel_SetDNS e q view)
  show ?thesis unfolding Panel_SetDNS
  proof (rule SetDNS_cases [of "lower_table P" "cfg P" e q view s])
    fix p z t
    assume "check_dns (lower_table P) (cfg P) p z t = Inr ()"
      and "SetDNS (lower_table P) (cfg P) e q view s =
         (DNS (cfg P) q (s\<lparr>dns_row := Some (p, z, t, x_now e)\<rparr>), s\<lparr>dns_row := Some (p, z, t, x_now e)\<rparr>)"
    then show "store_typed (lower_table P) (cfg P) (relay_step P (Panel_SetDNS e q view) s)"
      using assms(1) check_dns_typed by (simp add: store_typed_def)
  qed (simp add: assms(1))
next
  case (Panel_Revoke q e ident reg)
  then show ?thesis
    using RevokeToken_state [of q e ident reg s] assms(1) by (auto simp: delete_typed)
next
  case (Handshake_Authenticate e token)
  then show ?thesis
    using authenticate_db [of P e token s] assms(1) by (auto simp: auth_typed)
next
  case (Handshake_Reserve e input h)
  then show ?thesis
    using assms(1) by (auto simp: reserve_typed normalize_sound split: sum.split)
qed (use assms(1) in \<open>simp add: allocate_typed\<close>)

lemma relay_run:
  assumes "store_typed (lower_table P) (cfg P) s" "db_ok s" "list_all random_sizes ops"
  shows "store_typed (lower_table P) (cfg P) (fold (relay_step P) ops s) \<and> db_ok (fold (relay_step P) ops s)"
  using assms by (induction ops arbitrary: s) (simp_all add: relay_step_typed relay_step_db_ok)

section \<open>Saved settings and the reconciler\<close>




section \<open>Properties\<close>


definition panel_relay :: relay where
  "panel_relay = \<lparr>lower_table = id, sum256 = map of_char,
     cfg = example_config\<lparr>CloudflareAPIToken := ''cf''\<rparr>\<rparr>"

lemma printable_laptop: "trim_space ''laptop'' = ''laptop''" "printable_label ''laptop''"
  by (simp_all add: trim_space_ascii is_space_def printable_label_def runes_ascii is_control_def)



text \<open>
  C25: types of the stored data: whatever sequence of panel operations and tunnel handshakes the
  relay has executed, with any failures, every stored token has a 24-digit hexadecimal identifier,
  a printable label and a \<open>tnl_\<close> prefix of 12 characters; every reserved name is a legal tunnel
  name; and stored DNS settings are manual, or Cloudflare with a zone that contains the base domain
  and a target that parses as an address.
\<close>

theorem relay_store_typed:
  assumes "list_all random_sizes ops"
  shows "store_typed (lower_table P) (cfg P) (fold (relay_step P) ops empty_db)
    \<and> db_ok (fold (relay_step P) ops empty_db)"
proof (rule relay_run [OF _ db_ok_empty assms])
  show "store_typed (lower_table P) (cfg P) empty_db"
    by (simp add: store_typed_def empty_db_def dns_typed_def)
qed

theorem relay_store_typed_witness:
  "\<exists>s. s = fold (relay_step panel_relay)
      [Panel_Create (Inr (replicate 32 0)) (Inr (replicate 12 0)) (clean_exec 0) 0 ''laptop'',
       Handshake_Allocate (\<lambda>i. sample_attempt) ''h''] empty_db
     \<and> client_tokens s \<noteq> [] \<and> store_typed id (cfg panel_relay) s"
proof -
  let ?ops = "[Panel_Create (Inr (replicate 32 0)) (Inr (replicate 12 0)) (clean_exec 0) 0 ''laptop'',
       Handshake_Allocate (\<lambda>i. sample_attempt) ''h'']"
  have "list_all random_sizes ?ops" by simp
  from relay_store_typed [OF this, of panel_relay]
  have "store_typed id (cfg panel_relay) (fold (relay_step panel_relay) ?ops empty_db)"
    by (simp only: panel_relay_def relay.select_convs)
  moreover have "client_tokens (snd (CreateToken panel_relay (Inr (replicate 32 0)) (Inr (replicate 12 0))
     (clean_exec 0) 0 ''laptop'' empty_db)) \<noteq> []"
    by (simp add: CreateToken_def Let_def printable_laptop CreateClientToken_def clean_exec_def
        insert_token_def empty_db_def)
  moreover have "client_tokens (snd (Allocate (\<lambda>i. sample_attempt) ''h'' s)) = client_tokens s" for s
    by (rule Allocate_cases [of "\<lambda>i. sample_attempt" "''h''" s]) (auto dest: Reserve_effect(3))
  ultimately show ?thesis by simp
qed








text \<open>
  One uninterrupted \<open>RevokeToken\<close> is the run of the interleaved steps of the tunnel server's
  model: when it succeeds, the four steps lead to the same store and have closed the same
  connections; when it fails, its first one or two steps lead to the same store and nothing is closed.
\<close>

theorem revoke_call_is_steps:
  assumes "w_revoker w i = R_Idle"
  shows "case RevokeToken q e ident (w_registry w) (w_db w) of
      (Inr _, cs, s') \<Rightarrow> do_events P [Lookup i ident q, Delete i e, Match i, Disconnect i] w
        = Some (w\<lparr>w_db := s', w_closes := w_closes w @ cs, w_revoker := (w_revoker w)(i := R_Done True)\<rparr>)
    | (Inl _, cs, s') \<Rightarrow> cs = [] \<and> (\<exists>evs \<in> {[Lookup i ident q], [Lookup i ident q, Delete i e]}.
        do_events P evs w = Some (w\<lparr>w_db := s', w_revoker := (w_revoker w)(i := R_Done False)\<rparr>))"
proof (cases "ident = []")
  case True
  with assms show ?thesis by (simp add: RevokeToken_def on_lookup_def act_defs)
next
  case id: False
  show ?thesis
  proof (cases "ClientTokenHash q ident (w_db w)")
    case (Inl err)
    with id assms show ?thesis by (simp add: RevokeToken_def on_lookup_def act_defs)
  next
    case found: (Inr h)
    obtain r s' where del: "DeleteClientToken e ident (w_db w) = (r, s')"
      by (cases "DeleteClientToken e ident (w_db w)")
    show ?thesis
      using id found del assms
      by (cases r)
        (auto simp: RevokeToken_def on_lookup_def on_delete_def on_match_def on_disconnect_def act_defs)
  qed
qed

theorem revoke_call_is_steps_witness:
  "\<exists>w'. do_events P [Lookup 0 ''id1'' None, Delete 0 (clean_exec 0), Match 0, Disconnect 0]
     (start sample_tokens 0) = Some w' \<and> w_revoker w' 0 = R_Done True"
proof -
  have "w_revoker (start sample_tokens 0) 0 = R_Idle" by (simp add: start_def)
  moreover have "\<exists>cs s'. RevokeToken None (clean_exec 0) ''id1'' (w_registry (start sample_tokens 0))
      (w_db (start sample_tokens 0)) = (Inr (), cs, s')"
    by (simp add: RevokeToken_def start_def sample_tokens_eval ClientTokenHash_def DeleteClientToken_def
        delete_token_def clean_exec_def)
  ultimately show ?thesis
    using revoke_call_is_steps [where w = "start sample_tokens 0" and i = 0 and q = None
      and e = "clean_exec 0" and ident = "''id1''" and P = P] by auto
qed

end
