(* ===== verification/Admin_Panel.thy ===== *)
theory Admin_Panel
  imports Admin_Handler Admin_Properties
begin

text \<open>
  Correctness of the admin panel: who gets through to the backend, where sessions come from, what
  every answer carries; the contract of the \<open>Backend\<close> interface as a locale, with the relay's own
  operations as its interpretation.
\<close>

section \<open>Credentials\<close>

definition shows_bearer :: "'e admin_request \<Rightarrow> bool" where
  "shows_bearer rq \<longleftrightarrow> has_prefix (header_get ''Authorization'' (aq_header rq)) ''Bearer ''"

text \<open>The request carries the admin token.\<close>

definition holds_bearer :: "panel \<Rightarrow> 'e admin_request \<Rightarrow> bool" where
  "holds_bearer P rq \<longleftrightarrow> shows_bearer rq
     \<and> token_equal P (trim_prefix (header_get ''Authorization'' (aq_header rq)) ''Bearer '') (pn_token P)"

text \<open>The request carries the cookie of a session that has not expired.\<close>

definition holds_session :: "'e admin_request \<Rightarrow> sessions \<Rightarrow> string \<Rightarrow> admin_session \<Rightarrow> bool" where
  "holds_session rq ss sid se \<longleftrightarrow> \<not> shows_bearer rq \<and> cookie session_cookie (aq_header rq) = Some sid
     \<and> map_of ss sid = Some se \<and> aq_now rq \<le> se_expires_at se"

definition safe_method :: "'e admin_request \<Rightarrow> bool" where
  "safe_method rq \<longleftrightarrow> aq_method rq = ''GET'' \<or> aq_method rq = ''HEAD''"

definition proves_csrf :: "panel \<Rightarrow> 'e admin_request \<Rightarrow> admin_session \<Rightarrow> bool" where
  "proves_csrf P rq se \<longleftrightarrow> token_equal P (header_get ''X-CSRF-Token'' (aq_header rq)) (se_csrf se)"

definition credentials :: "panel \<Rightarrow> 'e admin_request \<Rightarrow> sessions \<Rightarrow> bool" where
  "credentials P rq ss \<longleftrightarrow> holds_bearer P rq
     \<or> (\<exists>sid se. holds_session rq ss sid se \<and> (safe_method rq \<or> proves_csrf P rq se))"

lemmas credential_defs = shows_bearer_def holds_bearer_def holds_session_def

lemma authorize_cases:
  obtains (bearer) "holds_bearer P rq" "authorize P (aq_header rq) (aq_now rq) ss = (Some Bearer, ss)"
  | (wrong) "shows_bearer rq" "\<not> holds_bearer P rq" "authorize P (aq_header rq) (aq_now rq) ss = (None, ss)"
  | (no_cookie) "\<not> shows_bearer rq" "cookie session_cookie (aq_header rq) = None"
      "authorize P (aq_header rq) (aq_now rq) ss = (None, ss)"
  | (stale) sid where "\<not> shows_bearer rq" "cookie session_cookie (aq_header rq) = Some sid"
      "\<And>se. \<not> holds_session rq ss sid se"
      "authorize P (aq_header rq) (aq_now rq) ss = (None, AList.delete sid ss)"
  | (live) sid se where "holds_session rq ss sid se"
      "authorize P (aq_header rq) (aq_now rq) ss = (Some (Session (se_csrf se)), ss)"
proof (cases "shows_bearer rq")
  case True
  then show ?thesis
    by (cases "holds_bearer P rq") (auto simp: authorize_def Let_def credential_defs intro: bearer wrong)
next
  case nb: False
  show ?thesis
  proof (cases "cookie session_cookie (aq_header rq)")
    case None
    with nb show ?thesis by (intro no_cookie) (simp_all add: authorize_def Let_def shows_bearer_def)
  next
    case (Some sid)
    show ?thesis
    proof (cases "\<exists>se. holds_session rq ss sid se")
      case True
      then obtain se where "holds_session rq ss sid se" by blast
      with nb Some show ?thesis
        by (intro live [of sid se]) (simp_all add: authorize_def Let_def credential_defs)
    next
      case False
      with nb Some show ?thesis
        by (intro stale [of sid])
          (auto simp: authorize_def Let_def credential_defs split: option.split)
    qed
  qed
qed

lemma no_bearer_session: "holds_session rq ss sid se \<Longrightarrow> \<not> holds_bearer P rq"
  by (simp add: holds_session_def holds_bearer_def)

lemma session_unique:
  "holds_session rq ss sid se \<Longrightarrow> holds_session rq ss sid' se' \<Longrightarrow> sid' = sid \<and> se' = se"
  by (simp add: holds_session_def)

text \<open>A guarded handler either runs on the state as it is, or the backend is not reached.\<close>

lemma requireAuth_cases:
  obtains (granted) "credentials P rq (ps_sessions st)" "requireAuth P rq h k st = k st"
  | (denied) ans where "\<not> credentials P rq (ps_sessions st)" "an_status ans \<in> {303, 401, 403}"
      "\<And>k'. requireAuth P rq h k' st = (ans, st\<lparr>ps_sessions :=
          snd (authorize P (aq_header rq) (aq_now rq) (ps_sessions st))\<rparr>)"
      "an_body ans \<notin> range Value_Json" "an_body ans \<notin> range Index_Body"
proof (rule authorize_cases [of P rq "ps_sessions st"])
  assume "holds_bearer P rq"
    "authorize P (aq_header rq) (aq_now rq) (ps_sessions st) = (Some Bearer, ps_sessions st)"
  then show ?thesis by (intro granted) (simp_all add: credentials_def requireAuth_def)
next
  fix sid se
  assume s: "holds_session rq (ps_sessions st) sid se"
    "authorize P (aq_header rq) (aq_now rq) (ps_sessions st) = (Some (Session (se_csrf se)), ps_sessions st)"
  show ?thesis
  proof (cases "safe_method rq \<or> proves_csrf P rq se")
    case True
    with s show ?thesis
      by (intro granted)
        (auto simp: credentials_def requireAuth_def safe_method_def proves_csrf_def)
  next
    case False
    with s no_bearer_session [OF s(1), of P] session_unique [OF s(1)]
    have "\<not> credentials P rq (ps_sessions st)" unfolding credentials_def by blast
    with False s show ?thesis
      by (intro denied [of "writeError h 403 ''invalid CSRF token''"])
        (auto simp: requireAuth_def safe_method_def proves_csrf_def writeError_def writeJSON_def)
  qed
next
  assume a: "shows_bearer rq" "\<not> holds_bearer P rq"
    "authorize P (aq_header rq) (aq_now rq) (ps_sessions st) = (None, ps_sessions st)"
  then show ?thesis
    by (intro denied [of "if has_prefix (path_unescape (aq_path rq)) ''/api/''
           then writeError h 401 ''authentication required'' else redirect h rq ''/login''"])
      (auto simp: requireAuth_def credentials_def holds_session_def writeError_def writeJSON_def
        redirect_def as_answer_def http_redirect_def Let_def)
next
  assume a: "\<not> shows_bearer rq" "cookie session_cookie (aq_header rq) = None"
    "authorize P (aq_header rq) (aq_now rq) (ps_sessions st) = (None, ps_sessions st)"
  then show ?thesis
    by (intro denied [of "if has_prefix (path_unescape (aq_path rq)) ''/api/''
           then writeError h 401 ''authentication required'' else redirect h rq ''/login''"])
      (auto simp: requireAuth_def credentials_def holds_session_def holds_bearer_def writeError_def
        writeJSON_def redirect_def as_answer_def http_redirect_def Let_def)
next
  fix sid
  assume a: "\<not> shows_bearer rq" "cookie session_cookie (aq_header rq) = Some sid"
    "\<And>se. \<not> holds_session rq (ps_sessions st) sid se"
    "authorize P (aq_header rq) (aq_now rq) (ps_sessions st) = (None, AList.delete sid (ps_sessions st))"
  then have "\<not> credentials P rq (ps_sessions st)"
    by (auto simp: credentials_def holds_bearer_def) (auto simp: holds_session_def)
  with a show ?thesis
    by (intro denied [of "if has_prefix (path_unescape (aq_path rq)) ''/api/''
           then writeError h 401 ''authentication required'' else redirect h rq ''/login''"])
      (auto simp: requireAuth_def writeError_def writeJSON_def
        redirect_def as_answer_def http_redirect_def Let_def)
qed

section \<open>Routing\<close>

lemma find_endpoint_pattern:
  assumes "find_endpoint method ss = Some e"
  shows "\<exists>m ps multi. (m, ps, multi, e) \<in> set patterns \<and> serves m method \<and> matches ps multi ss"
proof -
  obtain p rest where f: "filter (\<lambda>(m, ps, multi, e). serves m method \<and> matches ps multi ss) patterns = p # rest"
      and e: "e = snd (snd (snd p))"
    using assms by (auto simp: find_endpoint_def split: list.splits prod.splits)
  from f have "p \<in> set (filter (\<lambda>(m, ps, multi, e). serves m method \<and> matches ps multi ss) patterns)" by simp
  with e show ?thesis by (cases p) (auto split: prod.splits)
qed

lemma matches_single: "matches [Lit l] False ss \<longleftrightarrow> ss = [l]"
  by (cases ss) auto

lemma login_route:
  "find_endpoint method ss = Some Login_Submit \<Longrightarrow> method = ''POST'' \<and> ss = [''login'']"
  by (drule find_endpoint_pattern) (auto simp: patterns_def serves_def matches_single)

lemma logout_route: "find_endpoint ''POST'' [''logout''] = Some Logout"
  by (simp add: find_endpoint_def patterns_def serves_def)

lemma logout_path: "mux_clean ''/logout'' = ''/logout''" "path_segments ''/logout'' = [''logout'']"
  by code_simp+

definition public :: "endpoint \<Rightarrow> bool" where
  "public e \<longleftrightarrow> e \<in> {Login_Page, Login_Submit, Css, Js}"

fun guarded ::
  "panel \<Rightarrow> ('e, 'b) backend \<Rightarrow> endpoint \<Rightarrow> string list \<Rightarrow> 'e admin_request \<Rightarrow> header \<Rightarrow> 'b panel_state
     \<Rightarrow> panel_answer \<times> 'b panel_state" where
  "guarded P B Logout ss rq h = logout rq h"
| "guarded P B Index_Page ss rq h = indexPage P rq h"
| "guarded P B Api_Status ss rq h = read_call B Call_Status rq h"
| "guarded P B Api_Metrics ss rq h = read_call B Call_Metrics rq h"
| "guarded P B Api_Tokens ss rq h = read_call B Call_Tokens rq h"
| "guarded P B Api_Dns ss rq h = read_call B Call_DNS rq h"
| "guarded P B Api_Create ss rq h = panel_createToken B rq h"
| "guarded P B Api_Revoke ss rq h = panel_revokeToken B (last ss) rq h"
| "guarded P B Api_SetDns ss rq h = panel_setDNS B rq h"
| "guarded P B Api_Reconcile ss rq h = panel_reconcileDNS B rq h"
| "guarded P B e ss rq h = Pair (html h Empty_Body)"

lemma run_guarded:
  "\<not> public e \<Longrightarrow> run_endpoint P B e ss rq h st = requireAuth P rq h (guarded P B e ss rq h) st"
  by (cases e) (simp_all add: run_endpoint_def public_def)

text \<open>The four ways a request is served.\<close>

lemma serve_cases:
  obtains (unrouted) ans where "\<And>B st. serve_panel P B rq st = (ans, st)"
      "an_body ans \<notin> range Value_Json" "an_body ans \<notin> range Index_Body"
  | (open_page) e where "public e" "find_endpoint (aq_method rq) (path_segments (aq_path rq)) = Some e"
      "\<And>B st. serve_panel P B rq st = run_endpoint P B e (path_segments (aq_path rq)) rq (securityHeaders []) st"
  | (guarded_page) e where "\<not> public e"
      "find_endpoint (aq_method rq) (path_segments (aq_path rq)) = Some e"
      "\<And>B st. serve_panel P B rq st = requireAuth P rq (securityHeaders [])
         (guarded P B e (path_segments (aq_path rq)) rq (securityHeaders [])) st"
proof (cases "aq_method rq \<noteq> ''CONNECT'' \<and> mux_clean (aq_path rq) \<noteq> aq_path rq")
  case True
  then show ?thesis
    by (intro unrouted [of "as_answer (mux_redirect (pn_moved P) (securityHeaders []) (aq_method rq)
         (mux_clean (aq_path rq)) (aq_query rq))"])
      (auto simp: serve_panel_def Let_def as_answer_def)
next
  case clean: False
  show ?thesis
  proof (cases "find_endpoint (aq_method rq) (path_segments (aq_path rq))")
    case None
    with clean show ?thesis
      by (intro unrouted [of "as_answer (http_error (header_set ''Allow'' (concat (map (\<lambda>(i, m). if i = 0 then m
          else '', '' @ m) (enumerate 0 (allowed_methods (path_segments (aq_path rq))))))
          (securityHeaders [])) ''Method Not Allowed'' 405)"])
        (auto simp: serve_panel_def Let_def as_answer_def)
  next
    case (Some e)
    show ?thesis
    proof (cases "public e")
      case True
      with clean Some show ?thesis by (intro open_page [of e]) (auto simp: serve_panel_def Let_def)
    next
      case False
      with clean Some show ?thesis
        by (intro guarded_page [of e]) (auto simp: serve_panel_def Let_def run_guarded)
    qed
  qed
qed

text \<open>The open pages neither use the backend nor answer with its data.\<close>

lemma public_pages:
  assumes "public e"
  shows "run_endpoint P B e ss rq h st = run_endpoint P B' e ss rq h st"
    "ps_backend (snd (run_endpoint P B e ss rq h st)) = ps_backend st"
    "an_body (fst (run_endpoint P B e ss rq h st)) \<notin> range Value_Json \<union> range Index_Body"
proof -
  have "run_endpoint P B e ss rq h st = run_endpoint P B' e ss rq h st
    \<and> ps_backend (snd (run_endpoint P B e ss rq h st)) = ps_backend st
    \<and> an_body (fst (run_endpoint P B e ss rq h st)) \<notin> range Value_Json \<union> range Index_Body"
    using assms unfolding public_def
  proof (elim insertE emptyE)
    assume "e = Login_Submit"
    then show ?thesis
      by (simp add: run_endpoint_def loginSubmit_def Let_def redirect_def as_answer_def writeError_def
          writeJSON_def image_iff split: option.split sum.split)
  next
    assume "e = Login_Page"
    then show ?thesis
      by (simp add: run_endpoint_def loginPage_def html_def redirect_def as_answer_def image_iff
          split: option.split prod.split)
  qed (simp_all add: run_endpoint_def asset_def image_iff)
  then show "run_endpoint P B e ss rq h st = run_endpoint P B' e ss rq h st"
    "ps_backend (snd (run_endpoint P B e ss rq h st)) = ps_backend st"
    "an_body (fst (run_endpoint P B e ss rq h st)) \<notin> range Value_Json \<union> range Index_Body"
    by blast+
qed

section \<open>Headers of every answer\<close>

definition secured :: "header \<Rightarrow> bool" where
  "secured h \<longleftrightarrow> map_of h ''Cache-Control'' = Some [''no-store'']
     \<and> map_of h ''Content-Security-Policy'' = Some [content_policy]
     \<and> map_of h ''Referrer-Policy'' = Some [''no-referrer'']
     \<and> map_of h ''X-Content-Type-Options'' = Some [''nosniff'']
     \<and> map_of h ''X-Frame-Options'' = Some [''DENY'']"

lemma panel_keys:
  "canonical_key ''Cache-Control'' = ''Cache-Control''"
  "canonical_key ''Content-Security-Policy'' = ''Content-Security-Policy''"
  "canonical_key ''Referrer-Policy'' = ''Referrer-Policy''"
  "canonical_key ''X-Content-Type-Options'' = ''X-Content-Type-Options''"
  "canonical_key ''X-Frame-Options'' = ''X-Frame-Options''"
  "canonical_key ''Content-Type'' = ''Content-Type''"
  "canonical_key ''Content-Length'' = ''Content-Length''"
  "canonical_key ''Location'' = ''Location''"
  "canonical_key ''Set-Cookie'' = ''Set-Cookie''"
  "canonical_key ''Allow'' = ''Allow''"
  by code_simp+

lemma secured_initial: "secured (securityHeaders h)"
  by (simp add: secured_def securityHeaders_def panel_keys)

lemma secured_set:
  "secured h \<Longrightarrow> secured (header_set ''Content-Type'' v h)"
  "secured h \<Longrightarrow> secured (header_set ''Location'' v h)"
  "secured h \<Longrightarrow> secured (header_set ''Allow'' v h)"
  "secured h \<Longrightarrow> secured (header_add ''Set-Cookie'' v h)"
  "secured h \<Longrightarrow> secured (header_del ''Content-Length'' h)"
  "secured h \<Longrightarrow> secured (header_set ''X-Content-Type-Options'' ''nosniff'' h)"
  by (simp_all add: secured_def panel_keys)

lemma secured_answers:
  "secured h \<Longrightarrow> secured (an_header (writeJSON h code body))"
  "secured h \<Longrightarrow> secured (an_header (writeError h code msg))"
  "secured h \<Longrightarrow> secured (an_header (writeResult h r))"
  "secured h \<Longrightarrow> secured (an_header (html h body))"
  "secured h \<Longrightarrow> secured (an_header (asset n t h))"
  "secured h \<Longrightarrow> secured (rs_header (http_redirect h meth url code txt))"
  "secured h \<Longrightarrow> secured (rs_header (mux_redirect code h meth url query))"
  "secured h \<Longrightarrow> secured (rs_header (http_error h msg code))"
  "secured h \<Longrightarrow> secured (an_header (redirect h rq url))"
  "an_header (as_answer resp) = rs_header resp"
  by (auto simp: writeJSON_def writeError_def writeResult_def html_def asset_def http_redirect_def
      mux_redirect_def http_error_def redirect_def as_answer_def Let_def secured_set split: sum.split)

lemma secured_guarded: "secured h \<Longrightarrow> secured (an_header (fst (guarded P B e ss rq h st)))"
  by (cases e)
    (auto simp: logout_def indexPage_def read_call_def panel_createToken_def panel_revokeToken_def
      panel_setDNS_def panel_reconcileDNS_def secured_answers secured_set
      split: option.split auth.split sum.split prod.split)

lemma secured_requireAuth:
  assumes "secured h" "secured (an_header (fst (k (st\<lparr>ps_sessions :=
      snd (authorize P (aq_header rq) (aq_now rq) (ps_sessions st))\<rparr>))))"
  shows "secured (an_header (fst (requireAuth P rq h k st)))"
  using assms by (auto simp: requireAuth_def secured_answers split: prod.splits option.splits auth.splits)

lemma secured_public:
  "public e \<Longrightarrow> secured h \<Longrightarrow> secured (an_header (fst (run_endpoint P B e ss rq h st)))"
  by (auto simp: public_def run_endpoint_def loginPage_def loginSubmit_def Let_def secured_answers secured_set
      split: option.split sum.split prod.split)

section \<open>Where sessions come from\<close>

text \<open>A login request that creates session \<open>se\<close> under the name \<open>sid\<close>, and a logout that ends it.\<close>

definition logs_in :: "panel \<Rightarrow> 'e admin_request \<Rightarrow> string \<Rightarrow> admin_session \<Rightarrow> bool" where
  "logs_in P rq sid se \<longleftrightarrow> aq_method rq = ''POST'' \<and> path_segments (aq_path rq) = [''login'']
     \<and> (\<exists>token bytes csrf. aq_form rq = Some token \<and> token_equal P token (pn_token P)
          \<and> aq_random_id rq = Inr bytes \<and> sid = b64_encode bytes
          \<and> aq_random_csrf rq = Inr csrf \<and> se_csrf se = b64_encode csrf
          \<and> se_expires_at se = aq_now rq + session_lifetime)"

definition logs_out :: "panel \<Rightarrow> 'e admin_request \<Rightarrow> string \<Rightarrow> admin_session \<Rightarrow> bool" where
  "logs_out P rq sid se \<longleftrightarrow> aq_method rq = ''POST'' \<and> aq_path rq = ''/logout''
     \<and> cookie session_cookie (aq_header rq) = Some sid
     \<and> (holds_bearer P rq \<or> \<not> shows_bearer rq \<and> aq_now rq \<le> se_expires_at se \<and> proves_csrf P rq se)"

lemma authorize_shrinks:
  "map_of (snd (authorize P h now ss)) sid = Some se \<Longrightarrow> map_of ss sid = Some se"
  by (auto simp: authorize_def Let_def split: if_splits option.splits)

lemma indexPage_sessions:
  "ps_sessions (snd (indexPage P rq h st)) = snd (authorize P (aq_header rq) (aq_later rq) (ps_sessions st))"
  by (simp add: indexPage_def split: prod.split option.split auth.split)

lemma ask_sessions [simp]: "ps_sessions (snd (ask B env call st)) = ps_sessions st"
  by (simp add: ask_def split: prod.split)

lemma api_sessions:
  "ps_sessions (snd (read_call B call rq h st)) = ps_sessions st"
  "ps_sessions (snd (panel_createToken B rq h st)) = ps_sessions st"
  "ps_sessions (snd (panel_revokeToken B ident rq h st)) = ps_sessions st"
  "ps_sessions (snd (panel_setDNS B rq h st)) = ps_sessions st"
  "ps_sessions (snd (panel_reconcileDNS B rq h st)) = ps_sessions st"
proof -
  show "ps_sessions (snd (read_call B call rq h st)) = ps_sessions st"
    by (simp add: read_call_def case_prod_beta)
  show "ps_sessions (snd (panel_createToken B rq h st)) = ps_sessions st"
    by (simp add: panel_createToken_def case_prod_beta split: sum.split)
  show "ps_sessions (snd (panel_revokeToken B ident rq h st)) = ps_sessions st"
    by (simp add: panel_revokeToken_def case_prod_beta split: sum.split)
  show "ps_sessions (snd (panel_setDNS B rq h st)) = ps_sessions st"
    by (simp add: panel_setDNS_def case_prod_beta split: sum.split)
  show "ps_sessions (snd (panel_reconcileDNS B rq h st)) = ps_sessions st"
    by (simp add: panel_reconcileDNS_def case_prod_beta split: sum.split)
qed

lemma logout_sessions:
  "map_of (ps_sessions (snd (logout rq h st))) sid = Some se \<Longrightarrow> map_of (ps_sessions st) sid = Some se"
  by (simp add: logout_def split: option.splits if_splits)

lemma guarded_sessions:
  assumes "map_of (ps_sessions (snd (guarded P B e ss rq h st))) sid = Some se"
  shows "map_of (ps_sessions st) sid = Some se"
proof -
  consider (index) "e = Index_Page" | (out) "e = Logout" | (other) "e \<noteq> Index_Page" "e \<noteq> Logout" by blast
  then show ?thesis
  proof cases
    case index
    with assms show ?thesis by (auto simp: indexPage_sessions intro: authorize_shrinks)
  next
    case out
    with assms show ?thesis by (auto intro: logout_sessions)
  next
    case other
    with assms show ?thesis by (cases e) (simp_all add: api_sessions)
  qed
qed

lemma loginSubmit_sessions:
  assumes "map_of (ps_sessions (snd (loginSubmit P rq h st))) sid = Some se"
    and "aq_method rq = ''POST''" "path_segments (aq_path rq) = [''login'']"
  shows "map_of (ps_sessions st) sid = Some se \<or> logs_in P rq sid se"
proof (cases "\<exists>token bytes csrf. aq_form rq = Some token \<and> token_equal P token (pn_token P)
    \<and> aq_random_id rq = Inr bytes \<and> aq_random_csrf rq = Inr csrf")
  case False
  then have "snd (loginSubmit P rq h st) = st"
    by (cases "aq_random_id rq"; cases "aq_random_csrf rq")
      (simp_all add: loginSubmit_def randomValue_def split: option.split)
  with assms(1) show ?thesis by simp
next
  case True
  then obtain token bytes csrf where f: "aq_form rq = Some token" "token_equal P token (pn_token P)"
    "aq_random_id rq = Inr bytes" "aq_random_csrf rq = Inr csrf" by blast
  let ?new = "\<lparr>se_csrf = b64_encode csrf, se_expires_at = aq_now rq + session_lifetime\<rparr>"
  have "ps_sessions (snd (loginSubmit P rq h st)) = AList.update (b64_encode bytes) ?new (ps_sessions st)"
    using f by (simp add: loginSubmit_def randomValue_def Let_def)
  with assms(1) have "if sid = b64_encode bytes then se = ?new else map_of (ps_sessions st) sid = Some se"
    by (simp split: if_splits)
  moreover have "logs_in P rq (b64_encode bytes) ?new"
    unfolding logs_in_def using f assms(2,3) by simp
  ultimately show ?thesis by (metis (full_types))
qed

lemma logout_guarded:
  assumes "logs_out P rq sid se" "map_of (ps_sessions st) sid = Some se"
  shows "map_of (ps_sessions (snd (serve_panel P B rq st))) sid = None"
proof -
  have cr: "credentials P rq (ps_sessions st)"
    using assms by (auto simp: logs_out_def credentials_def holds_session_def)
  have "serve_panel P B rq st = requireAuth P rq (securityHeaders []) (logout rq (securityHeaders [])) st"
    using assms(1) by (simp add: serve_panel_def Let_def logs_out_def logout_path logout_route run_endpoint_def)
  also have "\<dots> = logout rq (securityHeaders []) st"
    by (rule requireAuth_cases [of P rq st "securityHeaders []" "logout rq (securityHeaders [])"])
      (use cr in simp_all)
  finally show ?thesis using assms(1) by (simp add: logout_def logs_out_def)
qed

lemma serve_sessions:
  fixes B :: "('e, 'b) backend"
  assumes "map_of (ps_sessions (snd (serve_panel P B rq st))) sid = Some se"
  shows "map_of (ps_sessions st) sid = Some se \<and> \<not> logs_out P rq sid se \<or> logs_in P rq sid se"
proof -
  have "map_of (ps_sessions st) sid = Some se \<or> logs_in P rq sid se"
  proof (rule serve_cases [of P rq])
    fix ans assume "\<And>(B :: ('e, 'b) backend) st. serve_panel P B rq st = (ans, st)"
    with assms show ?thesis by simp
  next
    fix e assume e: "public e" "find_endpoint (aq_method rq) (path_segments (aq_path rq)) = Some e"
      "\<And>(B :: ('e, 'b) backend) st. serve_panel P B rq st = run_endpoint P B e (path_segments (aq_path rq)) rq (securityHeaders []) st"
    show ?thesis
    proof (cases "e = Login_Submit")
      case True
      with assms e loginSubmit_sessions [of P rq "securityHeaders []" st sid se] login_route
      show ?thesis by (auto simp: run_endpoint_def)
    next
      case False
      with assms e show ?thesis
        by (auto simp: public_def run_endpoint_def loginPage_def split: prod.splits option.splits
            intro: authorize_shrinks [of P "aq_header rq" "aq_now rq"])
    qed
  next
    fix e assume g: "\<And>(B :: ('e, 'b) backend) st. serve_panel P B rq st = requireAuth P rq (securityHeaders [])
         (guarded P B e (path_segments (aq_path rq)) rq (securityHeaders [])) st"
    show ?thesis
      by (rule requireAuth_cases [of P rq st "securityHeaders []"
            "guarded P B e (path_segments (aq_path rq)) rq (securityHeaders [])"])
        (use assms in \<open>auto simp: g dest: guarded_sessions authorize_shrinks\<close>)
  qed
  moreover have "\<not> logs_out P rq sid se" if "map_of (ps_sessions st) sid = Some se"
    using logout_guarded [OF _ that] assms by fastforce
  ultimately show ?thesis by blast
qed

definition run_panel ::
  "panel \<Rightarrow> ('e, 'b) backend \<Rightarrow> 'e admin_request list \<Rightarrow> 'b panel_state \<Rightarrow> 'b panel_state" where
  "run_panel P B rqs st = fold (\<lambda>rq st. snd (serve_panel P B rq st)) rqs st"

lemma run_panel_snoc [simp]:
  "run_panel P B (rqs @ [rq]) st = snd (serve_panel P B rq (run_panel P B rqs st))"
  by (simp add: run_panel_def)

lemma run_sessions:
  assumes "map_of (ps_sessions (run_panel P B rqs st)) sid = Some se" "ps_sessions st = []"
  shows "\<exists>pre rq post. rqs = pre @ rq # post \<and> logs_in P rq sid se \<and> (\<forall>x \<in> set post. \<not> logs_out P x sid se)"
  using assms(1)
proof (induction rqs rule: rev_induct)
  case Nil
  with assms(2) show ?case by (simp add: run_panel_def)
next
  case (snoc rq rqs)
  from serve_sessions [OF snoc.prems [unfolded run_panel_snoc]] show ?case
  proof (elim disjE conjE)
    assume kept: "map_of (ps_sessions (run_panel P B rqs st)) sid = Some se" "\<not> logs_out P rq sid se"
    from snoc.IH [OF kept(1)] obtain pre r post where
      "rqs = pre @ r # post" "logs_in P r sid se" "\<forall>x \<in> set post. \<not> logs_out P x sid se" by blast
    with kept(2) show ?thesis by (intro exI [of _ pre] exI [of _ r] exI [of _ "post @ [rq]"]) simp
  next
    assume "logs_in P rq sid se"
    then show ?thesis by (intro exI [of _ rqs] exI [of _ rq] exI [of _ "[]"]) simp
  qed
qed

section \<open>The contract of the backend\<close>

text \<open>Which answer belongs to which call, and which calls only read.\<close>

fun answers :: "backend_call \<Rightarrow> reply \<Rightarrow> bool" where
  "answers Call_Status r = (\<exists>v. r = Status_Reply v)"
| "answers Call_Metrics r = (\<exists>v. r = Metrics_Reply v)"
| "answers Call_Tokens r = (\<exists>v. r = Tokens_Reply v)"
| "answers (Call_CreateToken _) r = (\<exists>v. r = Created_Reply v)"
| "answers (Call_RevokeToken _) r = (r = Revoked_Reply)"
| "answers Call_DNS r = (\<exists>v. r = Dns_Reply v)"
| "answers (Call_SetDNS _) r = (\<exists>v. r = Dns_Reply v)"
| "answers Call_ReconcileDNS r = (\<exists>v. r = Message_Reply v)"

definition only_reads :: "backend_call \<Rightarrow> bool" where
  "only_reads call \<longleftrightarrow> call \<in> {Call_Status, Call_Metrics, Call_Tokens, Call_DNS}"

locale panel_backend =
  fixes backend :: "('e, 'b) backend"
    and env_ok :: "'e \<Rightarrow> bool"
    and invar :: "'b \<Rightarrow> bool"
  assumes keeps: "invar b \<Longrightarrow> env_ok e \<Longrightarrow> invar (snd (backend e call b))"
    and reads: "only_reads call \<Longrightarrow> snd (backend e call b) = b"
    and typed_reply: "fst (backend e call b) = Inr r \<Longrightarrow> answers call r"
begin

lemma ask_invar:
  "invar (ps_backend st) \<Longrightarrow> env_ok env \<Longrightarrow> invar (ps_backend (snd (ask backend env call st)))"
  by (simp add: ask_def case_prod_beta keeps)

lemma ask_reads:
  "only_reads call \<Longrightarrow> ps_backend (snd (ask backend env call st)) = ps_backend st"
  by (simp add: ask_def case_prod_beta reads)

lemma guarded_invar:
  assumes "invar (ps_backend st)" "env_ok (aq_env rq)"
  shows "invar (ps_backend (snd (guarded P backend e ss rq h st)))"
proof (cases e)
  case Api_Create
  with assms ask_invar show ?thesis
    by (simp add: panel_createToken_def case_prod_beta split: sum.split)
next
  case Api_Revoke
  with assms ask_invar show ?thesis
    by (simp add: panel_revokeToken_def case_prod_beta split: sum.split)
next
  case Api_SetDns
  with assms ask_invar show ?thesis
    by (simp add: panel_setDNS_def case_prod_beta split: sum.split)
next
  case Api_Reconcile
  with assms ask_invar show ?thesis
    by (simp add: panel_reconcileDNS_def case_prod_beta split: sum.split)
next
  case Logout
  with assms show ?thesis by (simp add: logout_def split: option.split)
next
  case Index_Page
  with assms show ?thesis by (simp add: indexPage_def split: prod.split option.split auth.split)
qed (use assms ask_invar in \<open>simp_all add: read_call_def case_prod_beta\<close>)

lemma serve_invar:
  fixes rq :: "'e admin_request" and st :: "'b panel_state"
  assumes "invar (ps_backend st)" "env_ok (aq_env rq)"
  shows "invar (ps_backend (snd (serve_panel P backend rq st)))"
proof (rule serve_cases [of P rq])
  fix ans assume "\<And>(B :: ('e, 'b) backend) st. serve_panel P B rq st = (ans, st)"
  with assms(1) show ?thesis by simp
next
  fix e assume "public e" "\<And>(B :: ('e, 'b) backend) st. serve_panel P B rq st =
      run_endpoint P B e (path_segments (aq_path rq)) rq (securityHeaders []) st"
  with assms(1) show ?thesis by (simp add: public_pages(2))
next
  fix e assume g: "\<And>(B :: ('e, 'b) backend) st. serve_panel P B rq st = requireAuth P rq (securityHeaders [])
         (guarded P B e (path_segments (aq_path rq)) rq (securityHeaders [])) st"
  show ?thesis
    by (rule requireAuth_cases [of P rq st "securityHeaders []"
          "guarded P backend e (path_segments (aq_path rq)) rq (securityHeaders [])"])
      (simp_all add: g assms guarded_invar)
qed

lemma run_invar:
  assumes "invar (ps_backend st)" "\<forall>rq \<in> set rqs. env_ok (aq_env rq)"
  shows "invar (ps_backend (run_panel P backend rqs st))"
  using assms by (induction rqs rule: rev_induct) (simp_all add: serve_invar, simp add: run_panel_def)

text \<open>A request that answers with data answers its own call.\<close>

lemma read_typed:
  assumes "an_body (fst (read_call backend call rq h st)) = Value_Json r"
  shows "answers call r"
  using assms typed_reply [of "aq_env rq" call "ps_backend st" r]
  by (auto simp: read_call_def ask_def writeResult_def writeError_def writeJSON_def case_prod_beta
      split: sum.splits)

text \<open>\<open>GET\<close> and \<open>HEAD\<close> requests do not change the server.\<close>

lemma get_guarded:
  assumes "find_endpoint (aq_method rq) ss = Some e" "safe_method rq"
  shows "ps_backend (snd (guarded P backend e ss' rq h st)) = ps_backend st"
proof -
  have "e \<in> {Login_Page, Css, Js, Index_Page, Api_Status, Api_Metrics, Api_Tokens, Api_Dns}"
    using find_endpoint_pattern [OF assms(1)] assms(2)
    by (auto simp: patterns_def serves_def safe_method_def)
  then show ?thesis
    using ask_reads
    by (auto simp: read_call_def case_prod_beta only_reads_def indexPage_def
        split: option.splits auth.splits)
qed

lemma get_keeps_backend:
  fixes rq :: "'e admin_request" and st :: "'b panel_state"
  assumes "safe_method rq"
  shows "ps_backend (snd (serve_panel P backend rq st)) = ps_backend st"
proof (rule serve_cases [of P rq])
  fix ans assume "\<And>(B :: ('e, 'b) backend) st. serve_panel P B rq st = (ans, st)"
  then show ?thesis by simp
next
  fix e assume "public e" "\<And>(B :: ('e, 'b) backend) st. serve_panel P B rq st =
      run_endpoint P B e (path_segments (aq_path rq)) rq (securityHeaders []) st"
  then show ?thesis by (simp add: public_pages(2))
next
  fix e assume f: "find_endpoint (aq_method rq) (path_segments (aq_path rq)) = Some e"
    and g: "\<And>(B :: ('e, 'b) backend) st. serve_panel P B rq st = requireAuth P rq (securityHeaders [])
         (guarded P B e (path_segments (aq_path rq)) rq (securityHeaders [])) st"
  show ?thesis
    by (rule requireAuth_cases [of P rq st "securityHeaders []"
          "guarded P backend e (path_segments (aq_path rq)) rq (securityHeaders [])"])
      (simp_all add: g get_guarded [OF f assms])
qed

end

section \<open>The relay as the backend\<close>

record call_env =
  ce_random :: "string + 8 word list"
  ce_ident :: "string + 8 word list"
  ce_exec :: exec_env
  ce_query :: "string option"
  ce_count :: "string option"
  ce_now :: time
  ce_visit :: "client_token list \<Rightarrow> client_token list"
  ce_host :: host_view

record 's server =
  sv_db :: db
  sv_registry :: registry
  sv_metrics :: metrics
  sv_source :: "source option"
  sv_closed :: "close_call list"
  sv_cloudflare :: "'s cf_state"

text \<open>The error texts of \<^verbatim>\<open>internal/server/admin.go\<close>; those of the Cloudflare client are a parameter.\<close>

fun admin_error_msg :: "(cf_error \<Rightarrow> string) \<Rightarrow> admin_error \<Rightarrow> string" where
  "admin_error_msg cf Bad_Label = ''token label must contain 1 to 80 printable characters''"
| "admin_error_msg cf (No_Random m) = m"
| "admin_error_msg cf (Store_Failed e) = store_error_msg e"
| "admin_error_msg cf Id_Required = ''token ID is required''"
| "admin_error_msg cf Token_Not_Found = ''token was not found''"
| "admin_error_msg cf Zone_Excludes_Base = ''DNS zone must contain the configured base domain''"
| "admin_error_msg cf Target_Not_Ip = ''Cloudflare requires a valid server IPv4 or IPv6 target''"
| "admin_error_msg cf Unknown_Provider = ''DNS provider must be manual or cloudflare''"
| "admin_error_msg cf Cloudflare_Not_Selected = ''Cloudflare must be selected before reconciling DNS''"
| "admin_error_msg cf (Reconcile_Dns e) = ''reconcile Cloudflare DNS: '' @ cf e"

definition server_backend ::
  "relay \<Rightarrow> (rune \<Rightarrow> rune) \<Rightarrow> 's api \<Rightarrow> (cf_error \<Rightarrow> string) \<Rightarrow> (call_env, 's server) backend" where
  "server_backend P sf api cf e call b =
     (let msg = admin_error_msg cf; c = cfg P; ul = lower_table P in
      case call of
        Call_Status \<Rightarrow> (map_sum msg Status_Reply (Status c (ce_host e) (ce_query e) (ce_count e) (sv_source b)
            (sv_registry b) (sv_metrics b) (sv_db b)), b)
      | Call_Metrics \<Rightarrow> (Inr (Metrics_Reply (Metrics_view (sv_metrics b))), b)
      | Call_Tokens \<Rightarrow> (map_sum msg Tokens_Reply (Tokens (ce_query e) (ce_visit e) (sv_db b)), b)
      | Call_CreateToken label \<Rightarrow>
          (case CreateToken P (ce_random e) (ce_ident e) (ce_exec e) (ce_now e) label (sv_db b) of
             (r, s) \<Rightarrow> (map_sum msg Created_Reply r, b\<lparr>sv_db := s\<rparr>))
      | Call_RevokeToken ident \<Rightarrow>
          (case RevokeToken (ce_query e) (ce_exec e) ident (sv_registry b) (sv_db b) of
             (r, cs, s) \<Rightarrow> (map_sum msg (\<lambda>_. Revoked_Reply) r,
               b\<lparr>sv_db := s, sv_closed := sv_closed b @ cs\<rparr>))
      | Call_DNS \<Rightarrow> (map_sum msg Dns_Reply (DNS c (ce_query e) (sv_db b)), b)
      | Call_SetDNS view \<Rightarrow>
          (case SetDNS ul c (ce_exec e) (ce_query e) view (sv_db b) of
             (r, s) \<Rightarrow> (map_sum msg Dns_Reply r, b\<lparr>sv_db := s\<rparr>))
      | Call_ReconcileDNS \<Rightarrow>
          (case ReconcileDNS ul sf api c (ce_query e) (sv_db b) (sv_cloudflare b) of
             (r, st) \<Rightarrow> (map_sum msg Message_Reply r, b\<lparr>sv_cloudflare := st\<rparr>)))"

definition random_ok :: "call_env \<Rightarrow> bool" where
  "random_ok e \<longleftrightarrow> (case (ce_random e, ce_ident e) of (Inr b, Inr i) \<Rightarrow> length b = 32 \<and> length i = 12 | _ \<Rightarrow> True)"

definition server_typed :: "relay \<Rightarrow> 's server \<Rightarrow> bool" where
  "server_typed P b \<longleftrightarrow> store_typed (lower_table P) (cfg P) (sv_db b) \<and> db_ok (sv_db b)"

lemma server_keeps:
  assumes "server_typed P b" "random_ok e"
  shows "server_typed P (snd (server_backend P sf api cf e call b))"
proof -
  have step: "store_typed (lower_table P) (cfg P) (relay_step P x (sv_db b)) \<and> db_ok (relay_step P x (sv_db b))"
    if "random_sizes x" for x
    using that assms(1) by (simp add: server_typed_def relay_step_typed relay_step_db_ok)
  show ?thesis
  proof (cases call)
    case (Call_CreateToken label)
    with step [of "Panel_Create (ce_random e) (ce_ident e) (ce_exec e) (ce_now e) label"] assms(2)
    show ?thesis by (simp add: server_backend_def Let_def server_typed_def random_ok_def case_prod_beta)
  next
    case (Call_RevokeToken ident)
    with step [of "Panel_Revoke (ce_query e) (ce_exec e) ident (sv_registry b)"]
    show ?thesis by (simp add: server_backend_def Let_def server_typed_def case_prod_beta)
  next
    case (Call_SetDNS view)
    with step [of "Panel_SetDNS (ce_exec e) (ce_query e) view"]
    show ?thesis by (simp add: server_backend_def Let_def server_typed_def case_prod_beta)
  qed (use assms(1) in \<open>simp_all add: server_backend_def Let_def server_typed_def case_prod_beta\<close>)
qed

lemma map_sum_Inr: "map_sum f g x = Inr y \<longleftrightarrow> (\<exists>z. x = Inr z \<and> y = g z)"
  by (cases x) auto

interpretation relay_panel: panel_backend "server_backend P sf api cf" random_ok "server_typed P"
  for P sf api cf
proof unfold_locales
  show "server_typed P b \<Longrightarrow> random_ok e \<Longrightarrow> server_typed P (snd (server_backend P sf api cf e call b))"
    for b e call by (rule server_keeps)
  show "only_reads call \<Longrightarrow> snd (server_backend P sf api cf e call b) = b" for call e b
    by (auto simp: only_reads_def server_backend_def Let_def)
  show "fst (server_backend P sf api cf e call b) = Inr r \<Longrightarrow> answers call r" for e call b r
    by (cases call) (auto simp: server_backend_def Let_def case_prod_beta map_sum_Inr)
qed

section \<open>Properties\<close>

text \<open>
  C9: no data and no effect without credentials: for a request that carries neither the admin
  token nor the cookie of an unexpired session, or that carries only the cookie, has a method other
  than \<open>GET\<close> and \<open>HEAD\<close> and lacks the session's CSRF token, the backend is not used. The answer and
  the new state are the same for every backend, the server's state stays as it was, and the answer
  holds neither API data nor the CSRF token of a session.
\<close>

theorem unauthenticated_requests_are_inert:
  fixes rq :: "'e admin_request" and B :: "('e, 'b) backend" and st :: "'b panel_state"
  assumes "\<not> credentials P rq (ps_sessions st)"
  shows "serve_panel P B rq st = serve_panel P B' rq st
    \<and> ps_backend (snd (serve_panel P B rq st)) = ps_backend st
    \<and> an_body (fst (serve_panel P B rq st)) \<notin> range Value_Json \<union> range Index_Body"
proof (rule serve_cases [of P rq])
  fix ans assume "\<And>(B :: ('e, 'b) backend) st. serve_panel P B rq st = (ans, st)"
    "an_body ans \<notin> range Value_Json" "an_body ans \<notin> range Index_Body"
  then show ?thesis by auto
next
  fix e assume e: "public e" "\<And>(B :: ('e, 'b) backend) st. serve_panel P B rq st =
      run_endpoint P B e (path_segments (aq_path rq)) rq (securityHeaders []) st"
  show ?thesis unfolding e(2) using public_pages(1) [OF e(1), where B = B and B' = B'] public_pages(2,3) [OF e(1)] by blast
next
  fix e assume g: "\<And>(B :: ('e, 'b) backend) st. serve_panel P B rq st = requireAuth P rq (securityHeaders [])
         (guarded P B e (path_segments (aq_path rq)) rq (securityHeaders [])) st"
  show ?thesis
    by (rule requireAuth_cases [of P rq st "securityHeaders []"
          "guarded P B e (path_segments (aq_path rq)) rq (securityHeaders [])"])
      (use assms in \<open>auto simp: g\<close>)
qed

definition example_panel :: panel where
  "example_panel = \<lparr>pn_token = replicate 32 CHR ''a'', pn_sum256 = map of_char, pn_fold = id, pn_moved = 301\<rparr>"

definition example_request :: "string \<Rightarrow> string \<Rightarrow> header \<Rightarrow> 'e \<Rightarrow> 'e admin_request" where
  "example_request method path h env = \<lparr>aq_method = method, aq_path = path, aq_query = [], aq_header = h,
     aq_tls = True, aq_error_param = [], aq_form = Some (replicate 32 CHR ''a''), aq_label = Some ''laptop'',
     aq_dns = None, aq_single = True, aq_random_id = Inr [0, 0, 0], aq_random_csrf = Inr [1, 1, 1],
     aq_now = 5, aq_later = 5, aq_env = env\<rparr>"

definition example_cookie :: header where
  "example_cookie = [(''Cookie'', [''tunnl_admin_session=AAAA''])]"

theorem unauthenticated_requests_are_inert_witness:
  "\<forall>(B :: (unit, nat) backend) B' b.
     serve_panel example_panel B (example_request ''GET'' ''/api/v1/tokens'' [] ()) \<lparr>ps_sessions = [], ps_backend = b\<rparr>
     = serve_panel example_panel B' (example_request ''GET'' ''/api/v1/tokens'' [] ()) \<lparr>ps_sessions = [], ps_backend = b\<rparr>"
proof (intro allI)
  fix B B' :: "(unit, nat) backend" and b :: nat
  have "\<not> credentials example_panel (example_request ''GET'' ''/api/v1/tokens'' [] ())
      (ps_sessions \<lparr>ps_sessions = [], ps_backend = b\<rparr>)"
    by (simp add: credentials_def holds_bearer_def shows_bearer_def holds_session_def example_request_def
        header_get_def header_values_def has_prefix_def)
  from unauthenticated_requests_are_inert [OF this, of B B']
  show "serve_panel example_panel B (example_request ''GET'' ''/api/v1/tokens'' [] ()) \<lparr>ps_sessions = [], ps_backend = b\<rparr>
     = serve_panel example_panel B' (example_request ''GET'' ''/api/v1/tokens'' [] ()) \<lparr>ps_sessions = [], ps_backend = b\<rparr>"
    by blast
qed

text \<open>
  C10: where a usable session comes from: after any sequence of requests to a fresh panel, a request
  that passes with a session cookie does so because of an earlier login of that sequence that
  presented the admin token and drew that session name and CSRF token, at most twelve hours ago by
  the clock readings, and no authorised logout of that session was served since.
\<close>

theorem sessions_come_from_logins:
  assumes "ps_sessions st = []" "holds_session rq (ps_sessions (run_panel P B rqs st)) sid se"
  shows "\<exists>pre login post. rqs = pre @ login # post \<and> logs_in P login sid se
    \<and> aq_now rq \<le> aq_now login + 12 * 3600 * 1000000000 \<and> (\<forall>x \<in> set post. \<not> logs_out P x sid se)"
proof -
  have se: "map_of (ps_sessions (run_panel P B rqs st)) sid = Some se" "aq_now rq \<le> se_expires_at se"
    using assms(2) by (simp_all add: holds_session_def)
  from run_sessions [OF se(1) assms(1)] obtain pre login post where
    l: "rqs = pre @ login # post" "logs_in P login sid se" "\<forall>x \<in> set post. \<not> logs_out P x sid se" by blast
  then have "aq_now rq \<le> aq_now login + 12 * 3600 * 1000000000"
    using se(2) by (auto simp: logs_in_def session_lifetime_def second_def)
  with l show ?thesis by blast
qed

lemma example_cookie_parsed: "cookie session_cookie example_cookie = Some ''AAAA''"
  by code_simp

lemma example_login_served:
  "ps_sessions (snd (serve_panel example_panel B (example_request ''POST'' ''/login'' [] ())
     \<lparr>ps_sessions = [], ps_backend = b\<rparr>)) = [(''AAAA'', \<lparr>se_csrf = ''AQEB'', se_expires_at = 5 + session_lifetime\<rparr>)]"
proof -
  have route: "mux_clean ''/login'' = ''/login''" "path_segments ''/login'' = [''login'']"
      "find_endpoint ''POST'' [''login''] = Some Login_Submit"
    by code_simp+
  show ?thesis
    by (simp add: serve_panel_def Let_def example_request_def route run_endpoint_def loginSubmit_def
        token_equal_def example_panel_def randomValue_def b64_char_def b64_alphabet_def)
qed

theorem sessions_come_from_logins_witness:
  "\<exists>login. login = example_request ''POST'' ''/login'' [] ()
     \<and> logs_in example_panel login ''AAAA'' \<lparr>se_csrf = ''AQEB'', se_expires_at = 5 + session_lifetime\<rparr>"
proof -
  let ?st = "\<lparr>ps_sessions = [], ps_backend = ()\<rparr>"
  let ?se = "\<lparr>se_csrf = ''AQEB'', se_expires_at = 5 + session_lifetime\<rparr>"
  let ?rqs = "[example_request ''POST'' ''/login'' [] ()]"
  have "holds_session (example_request ''GET'' ''/'' example_cookie ())
      (ps_sessions (run_panel example_panel (\<lambda>_ _ b. (Inl [], b)) ?rqs ?st)) ''AAAA'' ?se"
    using example_login_served [of "\<lambda>_ _ b. (Inl [], b)" "()"]
    by (simp add: holds_session_def run_panel_def example_request_def shows_bearer_def has_prefix_def
        example_cookie_parsed session_lifetime_def second_def)
      (simp add: example_cookie_def header_get_def header_values_def)
  from sessions_come_from_logins [OF _ this] obtain pre login post where
    "?rqs = pre @ login # post" "logs_in example_panel login ''AAAA'' ?se" by auto
  moreover from this(1) have "login = example_request ''POST'' ''/login'' [] ()"
    by (cases pre) auto
  ultimately show ?thesis by blast
qed

text \<open>
  C38: every answer of the panel, refusals, redirects and errors included, forbids caching,
  framing, content sniffing and referrers, and carries the content security policy.
\<close>

theorem every_answer_is_secured:
  fixes rq :: "'e admin_request" and B :: "('e, 'b) backend"
  shows "secured (an_header (fst (serve_panel P B rq st)))"
proof (cases "aq_method rq \<noteq> ''CONNECT'' \<and> mux_clean (aq_path rq) \<noteq> aq_path rq")
  case True
  then show ?thesis by (auto simp: serve_panel_def Let_def secured_answers secured_initial)
next
  case clean: False
  show ?thesis
  proof (cases "find_endpoint (aq_method rq) (path_segments (aq_path rq))")
    case None
    with clean show ?thesis
      by (auto simp: serve_panel_def Let_def secured_answers secured_set secured_initial)
  next
    case (Some e)
    with clean have "serve_panel P B rq st =
        run_endpoint P B e (path_segments (aq_path rq)) rq (securityHeaders []) st"
      by (auto simp: serve_panel_def Let_def)
    then show ?thesis
      by (cases "public e")
        (simp_all add: run_guarded secured_public secured_requireAuth secured_guarded secured_initial)
  qed
qed

text \<open>
  Whatever requests the admin panel of a relay gets, in any order and with any failures behind
  it, what the database holds stays well typed; a \<open>GET\<close> or \<open>HEAD\<close> request never changes the server.
\<close>

theorem panel_keeps_server_typed:
  assumes "server_typed P (ps_backend st)" "\<forall>rq \<in> set rqs. random_ok (aq_env rq)"
  shows "server_typed P (ps_backend (run_panel W (server_backend P sf api cf) rqs st))
    \<and> (safe_method rq \<longrightarrow> ps_backend (snd (serve_panel W (server_backend P sf api cf) rq st)) = ps_backend st)"
  using relay_panel.run_invar [OF assms] relay_panel.get_keeps_backend [of rq W P sf api cf st] by blast

definition example_env :: call_env where
  "example_env = \<lparr>ce_random = Inr (replicate 32 0), ce_ident = Inr (replicate 12 0), ce_exec = clean_exec 0,
     ce_query = None, ce_count = None, ce_now = 0, ce_visit = id,
     ce_host = \<lparr>hv_version = [], hv_now = 0, hv_runtime = \<lparr>total_cpu = 0, idle_cpu = 0, heap_bytes = 0, system_bytes = 0, goroutines = 0,
       gc_cycles = 0\<rparr>, hv_stat = (\<lambda>_. None), hv_statfs = (\<lambda>_. None),
       hv_num_cpu = 1, hv_go_version = [], hv_get_certificate = (\<lambda>_. Inl [])\<rparr>\<rparr>"

definition example_server :: "unit server" where
  "example_server = \<lparr>sv_db = empty_db, sv_registry = newRegistry, sv_metrics = newMetrics 0, sv_source = None,
     sv_closed = [], sv_cloudflare = \<lparr>remote = (), calls = []\<rparr>\<rparr>"

theorem panel_keeps_server_typed_witness:
  "server_typed panel_relay (ps_backend (run_panel example_panel
     (server_backend panel_relay id example_api (\<lambda>_. []))
     [example_request ''POST'' ''/api/v1/tokens''
        [(''Authorization'', [''Bearer '' @ replicate 32 CHR ''a''])] example_env]
     \<lparr>ps_sessions = [], ps_backend = example_server\<rparr>))"
proof -
  let ?rqs = "[example_request ''POST'' ''/api/v1/tokens''
        [(''Authorization'', [''Bearer '' @ replicate 32 CHR ''a''])] example_env]"
  let ?st = "\<lparr>ps_sessions = [], ps_backend = example_server\<rparr>"
  have "server_typed panel_relay (ps_backend ?st)"
    by (simp add: server_typed_def example_server_def store_typed_def empty_db_def dns_typed_def db_ok_def)
  moreover have "\<forall>rq \<in> set ?rqs. random_ok (aq_env rq)"
    by (simp add: example_request_def example_env_def random_ok_def)
  ultimately show ?thesis by (rule panel_keeps_server_typed [THEN conjunct1])
qed

end
