(* ===== verification/Admin_Client.thy ===== *)
theory Admin_Client
  imports Admin_Panel
begin

text \<open>
  \<^verbatim>\<open>internal/admin/client.go\<close>: the client the command line uses, and its composition with the
  handler of the panel: a call through client, HTTP and handler is the call of the backend.
  \<open>url.Parse\<close> and the HTTP exchange are parameters; a JSON body is the value it encodes.
\<close>

section \<open>The client\<close>

record api_client =
  cl_base :: string
  cl_token :: string

datatype client_error =
  Url_Incomplete
| Url_Not_Http
| Token_Required
| Send_Failed string
| Api_Returned string panel_body
| Decode_Failed

definition NewClient :: "(string \<Rightarrow> url option) \<Rightarrow> string \<Rightarrow> string \<Rightarrow> client_error + api_client" where
  "NewClient parse baseURL token =
     (case parse (trim_right CHR ''/'' baseURL) of
        None \<Rightarrow> Inl Url_Incomplete
      | Some u \<Rightarrow>
          if u_scheme u = [] \<or> u_host u = [] then Inl Url_Incomplete
          else if u_scheme u \<noteq> ''http'' \<and> u_scheme u \<noteq> ''https'' then Inl Url_Not_Http
          else if token = [] then Inl Token_Required
          else Inr \<lparr>cl_base = u_text u, cl_token = token\<rparr>)"

datatype client_body = Label_Json string | Dns_Json dns_view | Empty_Json

record api_request =
  ar_method :: string
  ar_url :: string
  ar_header :: header
  ar_body :: "client_body option"

record api_response =
  rp_code :: nat
  rp_status :: string
  rp_body :: panel_body

type_synonym 's transport = "api_request \<Rightarrow> 's \<Rightarrow> (string + api_response) \<times> 's"

definition client_header :: "string \<Rightarrow> bool \<Rightarrow> header" where
  "client_header token has_body =
     (let h = header_set ''Accept'' ''application/json''
                (header_set ''Authorization'' (''Bearer '' @ token) [])
      in if has_body then header_set ''Content-Type'' ''application/json'' h else h)"

text \<open>\<open>decode\<close> reads the destination's type from the body; without a destination it is \<open>None\<close>.\<close>

definition client_do ::
  "api_client \<Rightarrow> 's transport \<Rightarrow> string \<Rightarrow> string \<Rightarrow> client_body option \<Rightarrow> (panel_body \<Rightarrow> 'a option) option \<Rightarrow> 's
     \<Rightarrow> (client_error + 'a option) \<times> 's" where
  "client_do c exch method path body decode s =
     (case exch \<lparr>ar_method = method, ar_url = cl_base c @ path,
          ar_header = client_header (cl_token c) (body \<noteq> None), ar_body = body\<rparr> s of
        (Inl m, s') \<Rightarrow> (Inl (Send_Failed m), s')
      | (Inr response, s') \<Rightarrow>
          if rp_code response < 200 \<or> rp_code response \<ge> 300
          then (Inl (Api_Returned (rp_status response) (rp_body response)), s')
          else
            (case decode of
               None \<Rightarrow> (Inr None, s')
             | Some view \<Rightarrow>
                 if rp_code response = 204 then (Inr None, s')
                 else
                   (case view (rp_body response) of
                      None \<Rightarrow> (Inl Decode_Failed, s')
                    | Some v \<Rightarrow> (Inr (Some v), s'))))"

text \<open>What a body decodes to in the destination of a call.\<close>

definition view_of :: "backend_call \<Rightarrow> panel_body \<Rightarrow> reply option" where
  "view_of call body =
     (case body of Value_Json r \<Rightarrow> (if answers call r then Some r else None) | _ \<Rightarrow> None)"

text \<open>The eight methods of the client, one equation each.\<close>

fun client_call ::
  "api_client \<Rightarrow> 's transport \<Rightarrow> backend_call \<Rightarrow> 's \<Rightarrow> (client_error + reply option) \<times> 's" where
  "client_call c exch Call_Status s =
     client_do c exch ''GET'' ''/api/v1/status'' None (Some (view_of Call_Status)) s"
| "client_call c exch Call_Metrics s =
     client_do c exch ''GET'' ''/api/v1/metrics'' None (Some (view_of Call_Metrics)) s"
| "client_call c exch Call_Tokens s =
     client_do c exch ''GET'' ''/api/v1/tokens'' None (Some (view_of Call_Tokens)) s"
| "client_call c exch (Call_CreateToken label) s =
     client_do c exch ''POST'' ''/api/v1/tokens'' (Some (Label_Json label)) (Some (view_of (Call_CreateToken label))) s"
| "client_call c exch (Call_RevokeToken ident) s =
     client_do c exch ''DELETE'' (''/api/v1/tokens/'' @ path_escape ident) None None s"
| "client_call c exch Call_DNS s =
     client_do c exch ''GET'' ''/api/v1/dns'' None (Some (view_of Call_DNS)) s"
| "client_call c exch (Call_SetDNS view) s =
     client_do c exch ''PUT'' ''/api/v1/dns'' (Some (Dns_Json view)) (Some (view_of (Call_SetDNS view))) s"
| "client_call c exch Call_ReconcileDNS s =
     client_do c exch ''POST'' ''/api/v1/dns/reconcile'' (Some Empty_Json) (Some (view_of Call_ReconcileDNS)) s"

section \<open>Client and handler connected\<close>

text \<open>
  The request the handler receives when the base URL has no path of its own; \<open>{}\<close> decodes into
  every destination, another object only into its own type, as unknown fields are refused.
\<close>

definition received :: "api_client \<Rightarrow> 'e \<Rightarrow> time \<Rightarrow> api_request \<Rightarrow> 'e admin_request" where
  "received c env now r =
     \<lparr>aq_method = ar_method r, aq_path = drop (length (cl_base c)) (ar_url r), aq_query = [],
      aq_header = ar_header r, aq_tls = False, aq_error_param = [], aq_form = None,
      aq_label = (case ar_body r of Some (Label_Json l) \<Rightarrow> Some l | Some Empty_Json \<Rightarrow> Some [] | _ \<Rightarrow> None),
      aq_dns = (case ar_body r of
          Some (Dns_Json v) \<Rightarrow> Some v
        | Some Empty_Json \<Rightarrow> Some \<lparr>dv_provider = [], dv_zone = [], dv_target = [], dv_credential = False,
            dv_updated_at = zero_time\<rparr>
        | _ \<Rightarrow> None),
      aq_single = True, aq_random_id = Inl [], aq_random_csrf = Inl [], aq_now = now, aq_later = now,
      aq_env = env\<rparr>"

definition over_http ::
  "panel \<Rightarrow> ('e, 'b) backend \<Rightarrow> api_client \<Rightarrow> (nat \<Rightarrow> string) \<Rightarrow> 'e \<Rightarrow> time \<Rightarrow> 'b panel_state transport" where
  "over_http P B c status_line env now r st =
     (case serve_panel P B (received c env now r) st of
        (a, st') \<Rightarrow> (Inr \<lparr>rp_code = an_status a, rp_status = status_line (an_status a), rp_body = an_body a\<rparr>, st'))"

text \<open>The reference: the call on the backend itself, with its error as the panel reports it.\<close>

definition direct_call ::
  "('e, 'b) backend \<Rightarrow> (nat \<Rightarrow> string) \<Rightarrow> 'e \<Rightarrow> backend_call \<Rightarrow> 'b panel_state
     \<Rightarrow> (client_error + reply option) \<times> 'b panel_state" where
  "direct_call B status_line env call st =
     (case B env call (ps_backend st) of
        (Inr r, b) \<Rightarrow> (Inr (if r = Revoked_Reply then None else Some r), st\<lparr>ps_backend := b\<rparr>)
      | (Inl m, b) \<Rightarrow>
          (Inl (if only_reads call then Api_Returned (status_line 500) (Error_Json ''operation failed'')
                else Api_Returned (status_line 400) (Error_Json m)), st\<lparr>ps_backend := b\<rparr>))"

section \<open>Routing of the client's requests\<close>

text \<open>Identifiers that are one segment of a clean path; the identifiers the relay issues are.\<close>

definition routable_id :: "string \<Rightarrow> bool" where
  "routable_id ident \<longleftrightarrow> ident \<notin> {[], ''.'', ''..'', ''/''}"

lemma split_single: "sep \<notin> set s \<Longrightarrow> split_on sep s = [s]"
  by (induction s) auto

lemma path_escape_inject: "path_escape a = path_escape b \<longleftrightarrow> a = b"
  by (metis path_unescape_escape)

lemma path_escape_dots: "path_escape [] = []" "path_escape ''.'' = ''.''" "path_escape ''..'' = ''..''"
  by (simp_all add: path_escape_def unreserved_char_def)

lemma escaped_proper:
  assumes "routable_id ident"
  shows "path_escape ident \<notin> {[], ''.'', ''..''}"
proof -
  have "path_escape ident \<noteq> path_escape []" "path_escape ident \<noteq> path_escape ''.''"
    "path_escape ident \<noteq> path_escape ''..''"
    using assms by (simp_all only: path_escape_inject routable_id_def) auto
  then show ?thesis by (simp add: path_escape_dots)
qed

lemma revoke_path:
  assumes "routable_id ident"
  shows "path_segments (''/api/v1/tokens/'' @ path_escape ident) = [''api'', ''v1'', ''tokens'', ident]"
    "mux_clean (''/api/v1/tokens/'' @ path_escape ident) = ''/api/v1/tokens/'' @ path_escape ident"
proof -
  let ?e = "path_escape ident"
  note e = escaped_proper [OF assms] and n = path_escape_no_slash [of ident]
  have sp: "split_on CHR ''/'' (''/api/v1/tokens/'' @ ?e) = [[], ''api'', ''v1'', ''tokens'', ?e]"
    by (simp add: split_single [OF n])
  have lit: "path_unescape ''api'' = ''api''" "path_unescape ''v1'' = ''v1''" "path_unescape ''tokens'' = ''tokens''"
    by (simp_all add: path_unescape_def)
  show "path_segments (''/api/v1/tokens/'' @ ?e) = [''api'', ''v1'', ''tokens'', ident]"
    unfolding path_segments_def sp using e by (simp add: lit)
  have "path_clean (''/api/v1/tokens/'' @ ?e) = ''/api/v1/tokens/'' @ ?e"
    using e unfolding path_clean_def path_elements_def sp by (simp add: clean_step_def)
  moreover have "last (''/api/v1/tokens/'' @ ?e) \<noteq> CHR ''/''"
    using e n by (auto dest: last_in_set)
  ultimately show "mux_clean (''/api/v1/tokens/'' @ ?e) = ''/api/v1/tokens/'' @ ?e"
    by (simp add: mux_clean_def Let_def)
qed

lemma api_paths:
  "mux_clean ''/api/v1/status'' = ''/api/v1/status''"
  "mux_clean ''/api/v1/metrics'' = ''/api/v1/metrics''"
  "mux_clean ''/api/v1/tokens'' = ''/api/v1/tokens''"
  "mux_clean ''/api/v1/dns'' = ''/api/v1/dns''"
  "mux_clean ''/api/v1/dns/reconcile'' = ''/api/v1/dns/reconcile''"
  "path_segments ''/api/v1/status'' = [''api'', ''v1'', ''status'']"
  "path_segments ''/api/v1/metrics'' = [''api'', ''v1'', ''metrics'']"
  "path_segments ''/api/v1/tokens'' = [''api'', ''v1'', ''tokens'']"
  "path_segments ''/api/v1/dns'' = [''api'', ''v1'', ''dns'']"
  "path_segments ''/api/v1/dns/reconcile'' = [''api'', ''v1'', ''dns'', ''reconcile'']"
  by code_simp+

lemma api_endpoints:
  "find_endpoint ''GET'' [''api'', ''v1'', ''status''] = Some Api_Status"
  "find_endpoint ''GET'' [''api'', ''v1'', ''metrics''] = Some Api_Metrics"
  "find_endpoint ''GET'' [''api'', ''v1'', ''tokens''] = Some Api_Tokens"
  "find_endpoint ''POST'' [''api'', ''v1'', ''tokens''] = Some Api_Create"
  "find_endpoint ''GET'' [''api'', ''v1'', ''dns''] = Some Api_Dns"
  "find_endpoint ''PUT'' [''api'', ''v1'', ''dns''] = Some Api_SetDns"
  "find_endpoint ''POST'' [''api'', ''v1'', ''dns'', ''reconcile''] = Some Api_Reconcile"
  "routable_id ident \<Longrightarrow> find_endpoint ''DELETE'' [''api'', ''v1'', ''tokens'', ident] = Some Api_Revoke"
  by (simp_all add: find_endpoint_def patterns_def serves_def routable_id_def)

lemma client_keys:
  "canonical_key ''Accept'' = ''Accept''" "canonical_key ''Authorization'' = ''Authorization''"
  by code_simp+

lemma client_authorization: "header_get ''Authorization'' (client_header token b) = ''Bearer '' @ token"
  by (simp add: header_get_def header_values_def client_header_def Let_def client_keys panel_keys)

lemma client_holds_bearer:
  assumes "aq_header rq = client_header token b" "token_equal P token (pn_token P)"
  shows "holds_bearer P rq"
  using assms
  by (simp add: holds_bearer_def shows_bearer_def client_authorization has_prefix_def trim_prefix_def)

text \<open>An authenticated request to a protected route runs its handler.\<close>

lemma served_directly:
  assumes "holds_bearer P rq" "mux_clean (aq_path rq) = aq_path rq"
    and "find_endpoint (aq_method rq) (path_segments (aq_path rq)) = Some e" "\<not> public e"
  shows "serve_panel P B rq st = guarded P B e (path_segments (aq_path rq)) rq (securityHeaders []) st"
proof -
  have "credentials P rq (ps_sessions st)" using assms(1) by (simp add: credentials_def)
  then have "requireAuth P rq (securityHeaders []) k st = k st" for k
    by (rule_tac requireAuth_cases [of P rq st "securityHeaders []" k]) simp_all
  with assms(2-4) show ?thesis by (simp add: serve_panel_def Let_def run_guarded)
qed

lemma exchange:
  assumes "token_equal P (cl_token c) (pn_token P)" "mux_clean p = p"
    and "find_endpoint m (path_segments p) = Some e" "\<not> public e"
  shows "client_do c (over_http P B c line env now) m p body decode st =
    (case guarded P B e (path_segments p) (received c env now \<lparr>ar_method = m, ar_url = cl_base c @ p,
        ar_header = client_header (cl_token c) (body \<noteq> None), ar_body = body\<rparr>) (securityHeaders []) st of
       (a, st') \<Rightarrow>
         if an_status a < 200 \<or> an_status a \<ge> 300
         then (Inl (Api_Returned (line (an_status a)) (an_body a)), st')
         else (case decode of None \<Rightarrow> (Inr None, st')
               | Some view \<Rightarrow> if an_status a = 204 then (Inr None, st')
                   else (case view (an_body a) of None \<Rightarrow> (Inl Decode_Failed, st') | Some v \<Rightarrow> (Inr (Some v), st'))))"
proof -
  let ?rq = "received c env now \<lparr>ar_method = m, ar_url = cl_base c @ p,
        ar_header = client_header (cl_token c) (body \<noteq> None), ar_body = body\<rparr>"
  have fields: "aq_path ?rq = p" "aq_method ?rq = m" "aq_header ?rq = client_header (cl_token c) (body \<noteq> None)"
    by (simp_all add: received_def)
  have "serve_panel P B ?rq st = guarded P B e (path_segments p) ?rq (securityHeaders []) st"
    using served_directly [of P ?rq e B st] client_holds_bearer [OF fields(3) assms(1)] assms(2-4) fields
    by simp
  then show ?thesis by (simp add: client_do_def over_http_def split: prod.split option.split)
qed

fun routable_call :: "backend_call \<Rightarrow> bool" where
  "routable_call (Call_RevokeToken ident) = routable_id ident"
| "routable_call _ = True"

context panel_backend
begin

lemma read_end_to_end:
  assumes "token_equal P (cl_token c) (pn_token P)" "mux_clean p = p" "only_reads call"
    and "find_endpoint ''GET'' (path_segments p) = Some e" "\<not> public e"
    and "\<And>rq h. guarded P backend e (path_segments p) rq h = read_call backend call rq h"
  shows "client_do c (over_http P backend c line env now) ''GET'' p None (Some (view_of call)) st
    = direct_call backend line env call st"
proof (cases "backend env call (ps_backend st)")
  case (Pair r b)
  show ?thesis
  proof (cases r)
    case (Inl m)
    with Pair assms(3) show ?thesis
      unfolding exchange [OF assms(1,2,4,5)] assms(6)
      by (simp add: read_call_def ask_def received_def writeResult_def writeError_def writeJSON_def direct_call_def)
  next
    case (Inr v)
    with Pair have "answers call v" using typed_reply [of env call "ps_backend st" v] by simp
    moreover from this assms(3) have "v \<noteq> Revoked_Reply" by (auto simp: only_reads_def)
    ultimately show ?thesis using Pair Inr
      unfolding exchange [OF assms(1,2,4,5)] assms(6)
      by (simp add: read_call_def ask_def received_def writeResult_def writeJSON_def direct_call_def view_of_def)
  qed
qed

lemma write_end_to_end:
  assumes "token_equal P (cl_token c) (pn_token P)" "mux_clean p = p"
    and "find_endpoint m (path_segments p) = Some e" "\<not> public e"
    and "\<not> only_reads call" "\<And>i. call \<noteq> Call_RevokeToken i" "code \<in> {200, 201}"
    and "guarded P backend e (path_segments p) (received c env now \<lparr>ar_method = m, ar_url = cl_base c @ p,
        ar_header = client_header (cl_token c) (body \<noteq> None), ar_body = body\<rparr>) (securityHeaders []) st
      = (case ask backend env call st of
             (Inl m, st') \<Rightarrow> (writeError (securityHeaders []) 400 m, st')
           | (Inr v, st') \<Rightarrow> (writeJSON (securityHeaders []) code (Value_Json v), st'))"
  shows "client_do c (over_http P backend c line env now) m p body (Some (view_of call)) st
    = direct_call backend line env call st"
proof (cases "backend env call (ps_backend st)")
  case (Pair r b)
  show ?thesis
  proof (cases r)
    case (Inl m)
    with Pair assms(5) show ?thesis
      unfolding exchange [OF assms(1-4)] assms(8)
      by (simp add: ask_def writeError_def writeJSON_def direct_call_def)
  next
    case (Inr v)
    with Pair have "answers call v" using typed_reply [of env call "ps_backend st" v] by simp
    moreover from this assms(6) have "v \<noteq> Revoked_Reply" by (cases call) auto
    ultimately show ?thesis using Pair Inr assms(5,7)
      unfolding exchange [OF assms(1-4)] assms(8)
      by (auto simp: ask_def writeJSON_def direct_call_def view_of_def)
  qed
qed

lemma end_to_end:
  assumes t: "token_equal P (cl_token c) (pn_token P)" and "routable_call call"
  shows "client_call c (over_http P backend c line env now) call st = direct_call backend line env call st"
proof (cases call)
  case Call_Status
  show ?thesis unfolding Call_Status client_call.simps
    by (rule read_end_to_end [OF t, where e = Api_Status])
      (simp_all add: api_paths api_endpoints only_reads_def public_def fun_eq_iff)
next
  case Call_Metrics
  show ?thesis unfolding Call_Metrics client_call.simps
    by (rule read_end_to_end [OF t, where e = Api_Metrics])
      (simp_all add: api_paths api_endpoints only_reads_def public_def fun_eq_iff)
next
  case Call_Tokens
  show ?thesis unfolding Call_Tokens client_call.simps
    by (rule read_end_to_end [OF t, where e = Api_Tokens])
      (simp_all add: api_paths api_endpoints only_reads_def public_def fun_eq_iff)
next
  case Call_DNS
  show ?thesis unfolding Call_DNS client_call.simps
    by (rule read_end_to_end [OF t, where e = Api_Dns])
      (simp_all add: api_paths api_endpoints only_reads_def public_def fun_eq_iff)
next
  case (Call_CreateToken label)
  show ?thesis unfolding Call_CreateToken client_call.simps
    by (rule write_end_to_end [OF t, where e = Api_Create and code = 201])
      (simp_all add: api_paths api_endpoints public_def only_reads_def panel_createToken_def received_def decodeJSON_def)
next
  case (Call_SetDNS view)
  show ?thesis unfolding Call_SetDNS client_call.simps
    by (rule write_end_to_end [OF t, where e = Api_SetDns and code = 200])
      (simp_all add: api_paths api_endpoints public_def only_reads_def panel_setDNS_def received_def decodeJSON_def)
next
  case Call_ReconcileDNS
  show ?thesis unfolding Call_ReconcileDNS client_call.simps
    by (rule write_end_to_end [OF t, where e = Api_Reconcile and code = 200])
      (simp_all add: api_paths api_endpoints public_def only_reads_def panel_reconcileDNS_def received_def decodeJSON_def)
next
  case (Call_RevokeToken ident)
  with assms(2) have r: "routable_id ident" by simp
  obtain res b where b: "backend env (Call_RevokeToken ident) (ps_backend st) = (res, b)"
    by (cases "backend env (Call_RevokeToken ident) (ps_backend st)")
  have reply: "v = Revoked_Reply" if "res = Inr v" for v
    using typed_reply [of env "Call_RevokeToken ident" "ps_backend st" v] b that by simp
  have path: "mux_clean (''/api/v1/tokens/'' @ path_escape ident) = ''/api/v1/tokens/'' @ path_escape ident"
    "find_endpoint ''DELETE'' (path_segments (''/api/v1/tokens/'' @ path_escape ident)) = Some Api_Revoke"
    by (simp_all only: revoke_path [OF r] api_endpoints(8) [OF r])
  have "\<not> public Api_Revoke" by (simp add: public_def)
  note ex = exchange [OF t path this]
  show ?thesis unfolding Call_RevokeToken client_call.simps ex revoke_path(1) [OF r]
    using b reply
    by (cases res) (simp_all add: panel_revokeToken_def ask_def received_def writeError_def writeJSON_def
        direct_call_def only_reads_def)
qed

end

section \<open>Properties\<close>



end
