(* ===== verification/Client.thy ===== *)
theory Client
  imports Protocol Http_Server
begin

text \<open>
  \<^verbatim>\<open>internal/client/client.go\<close> and \<^verbatim>\<open>internal/client/state.go\<close>: the tunnl client. The file system
  is a partial map from paths to contents; a JSON file is the value it encodes. Failures of system
  calls, the relay's answers and the local service are arguments.
\<close>

section \<open>Configuration\<close>

record client_config =
  cc_server :: string
  cc_token :: string
  cc_domain :: string
  cc_target :: "url option"
  cc_host_header :: string
  cc_insecure :: bool
  cc_disable_state :: bool
  cc_header_timeout :: duration

definition New :: "client_config \<Rightarrow> string + client_config" where
  "New c =
     (case cc_target c of
        None \<Rightarrow> Inl ''server, token, and target are required''
      | Some t \<Rightarrow>
          if cc_server c = [] \<or> cc_token c = [] then Inl ''server, token, and target are required''
          else if u_scheme t \<noteq> ''http'' \<and> u_scheme t \<noteq> ''https'' then Inl ''target must use http or https''
          else Inr c)"

definition server_name :: "client_config \<Rightarrow> string" where
  "server_name c = (case SplitHostPort (cc_server c) of Inl _ \<Rightarrow> cc_server c | Inr (host, _) \<Rightarrow> host)"

text \<open>What \<open>quic.DialAddr\<close> gets: TLS 1.3 (\<open>0x0304\<close>), the protocol, the name to verify, and the limits.\<close>

record dial_options =
  do_addr :: string
  do_min_version :: nat
  do_next_protos :: "string list"
  do_server_name :: string
  do_insecure :: bool
  do_handshake_idle :: duration
  do_max_idle :: duration
  do_keep_alive :: duration
  do_max_streams :: nat

definition dial_options_of :: "client_config \<Rightarrow> dial_options" where
  "dial_options_of c =
     \<lparr>do_addr = cc_server c, do_min_version = 0x0304, do_next_protos = [ALPN],
      do_server_name = server_name c, do_insecure = cc_insecure c,
      do_handshake_idle = 10 * second, do_max_idle = 45 * second, do_keep_alive = 15 * second,
      do_max_streams = 1000\<rparr>"

section \<open>Remembered domains\<close>

datatype content =
  Domain_State string string
| Legacy_State "(string \<times> string) list"
| Other_Bytes string

type_synonym fs = "string \<Rightarrow> content option"

text \<open>\<open>json.Unmarshal\<close> into the two state types: an object of the other type has none of the fields.\<close>

fun as_domain_state :: "content \<Rightarrow> (string \<times> string) option" where
  "as_domain_state (Domain_State k d) = Some (k, d)"
| "as_domain_state (Legacy_State m) = Some ([], [])"
| "as_domain_state (Other_Bytes s) = None"

fun as_legacy_state :: "content \<Rightarrow> (string \<times> string) list option" where
  "as_legacy_state (Domain_State k d) = Some []"
| "as_legacy_state (Legacy_State m) = Some m"
| "as_legacy_state (Other_Bytes s) = None"

text \<open>\<open>filepath.Join\<close> on a Unix system.\<close>

definition filepath_join :: "string list \<Rightarrow> string" where
  "filepath_join es =
     (let es = dropWhile (\<lambda>e. e = []) es in if es = [] then [] else path_clean (join_with CHR ''/'' es))"

definition stateRoot :: "string + string \<Rightarrow> string + string" where
  "stateRoot config_dir =
     (case config_dir of Inl m \<Rightarrow> Inl m | Inr dir \<Rightarrow> Inr (filepath_join [dir, ''tunnl'']))"

definition stateFilename :: "(string \<Rightarrow> 8 word list) \<Rightarrow> string \<Rightarrow> string" where
  "stateFilename sha key = hex_encode (sha key) @ ''.json''"

definition domain_path :: "(string \<Rightarrow> 8 word list) \<Rightarrow> string \<Rightarrow> string \<Rightarrow> string" where
  "domain_path sha root key = filepath_join [root, ''domains'', stateFilename sha key]"

text \<open>\<open>os.ReadFile\<close>; \<open>unreadable\<close> are the paths that exist and cannot be read.\<close>

definition read_file :: "(string \<Rightarrow> bool) \<Rightarrow> fs \<Rightarrow> string \<Rightarrow> content option" where
  "read_file unreadable f p = (if unreadable p then None else f p)"

definition loadDomainAt ::
  "(string \<Rightarrow> 8 word list) \<Rightarrow> (string \<Rightarrow> bool) \<Rightarrow> string \<Rightarrow> string \<Rightarrow> fs \<Rightarrow> string" where
  "loadDomainAt sha unreadable root key f =
     (let legacy =
        (case read_file unreadable f (filepath_join [root, ''state.json'']) of
           None \<Rightarrow> []
         | Some data \<Rightarrow>
             (case as_legacy_state data of
                None \<Rightarrow> []
              | Some domains \<Rightarrow> (case map_of domains key of None \<Rightarrow> [] | Some d \<Rightarrow> d)))
      in case read_file unreadable f (domain_path sha root key) of
           None \<Rightarrow> legacy
         | Some data \<Rightarrow>
             (case as_domain_state data of
                None \<Rightarrow> legacy
              | Some (k, d) \<Rightarrow> if k = key then d else legacy))"

definition loadDomain ::
  "(string \<Rightarrow> 8 word list) \<Rightarrow> (string \<Rightarrow> bool) \<Rightarrow> string + string \<Rightarrow> string \<Rightarrow> fs \<Rightarrow> string" where
  "loadDomain sha unreadable config_dir key f =
     (case stateRoot config_dir of
        Inl _ \<Rightarrow> []
      | Inr root \<Rightarrow> loadDomainAt sha unreadable root key f)"

text \<open>
  What the system calls of a save report, in their order. \<open>sv_suffix\<close> is the random part of the
  temporary file's name; \<open>sv_partial\<close> what a failed write leaves in it. A failed rename says
  whether its error is \<open>ErrExist\<close>, a failed removal whether it is \<open>ErrNotExist\<close>.
\<close>

record save_env =
  sv_mkdir :: "string option"
  sv_create :: "string option"
  sv_suffix :: string
  sv_chmod :: "string option"
  sv_write :: "string option"
  sv_partial :: content
  sv_sync :: "string option"
  sv_close :: "string option"
  sv_rename :: "(bool \<times> string) option"
  sv_remove :: "(bool \<times> string) option"
  sv_rename_again :: "string option"
  sv_cleanup_fails :: bool

definition rename :: "string \<Rightarrow> string \<Rightarrow> fs \<Rightarrow> fs" where
  "rename old dest f = (f(old := None))(dest := f old)"

text \<open>The deferred removal of the temporary file.\<close>

definition cleanup :: "save_env \<Rightarrow> string \<Rightarrow> fs \<Rightarrow> fs" where
  "cleanup e temp f = (if sv_cleanup_fails e then f else f(temp := None))"

definition temp_path :: "save_env \<Rightarrow> string \<Rightarrow> string" where
  "temp_path e root = filepath_join [root, ''domains'', ''state-'' @ sv_suffix e @ ''.json'']"

definition saveDomainAt ::
  "(string \<Rightarrow> 8 word list) \<Rightarrow> save_env \<Rightarrow> string \<Rightarrow> string \<Rightarrow> string \<Rightarrow> fs \<Rightarrow> (string + unit) \<times> fs" where
  "saveDomainAt sha e root key domain f =
     (case sv_mkdir e of
        Some m \<Rightarrow> (Inl m, f)
      | None \<Rightarrow>
        (case sv_create e of
           Some m \<Rightarrow> (Inl m, f)
         | None \<Rightarrow>
           (let temp = temp_path e root; dest = domain_path sha root key;
                f0 = f(temp \<mapsto> Other_Bytes []) in
            case sv_chmod e of
              Some m \<Rightarrow> (Inl m, cleanup e temp f0)
            | None \<Rightarrow>
              (case sv_write e of
                 Some m \<Rightarrow> (Inl m, cleanup e temp (f0(temp \<mapsto> sv_partial e)))
               | None \<Rightarrow>
                 (let f1 = f0(temp \<mapsto> Domain_State key domain) in
                  case sv_sync e of
                    Some m \<Rightarrow> (Inl m, cleanup e temp f1)
                  | None \<Rightarrow>
                    (case sv_close e of
                       Some m \<Rightarrow> (Inl m, cleanup e temp f1)
                     | None \<Rightarrow>
                       (case sv_rename e of
                          None \<Rightarrow> (Inr (), cleanup e temp (rename temp dest f1))
                        | Some (exists, m) \<Rightarrow>
                            if \<not> exists then (Inl m, cleanup e temp f1)
                            else
                              (case sv_remove e of
                                 Some (False, m') \<Rightarrow> (Inl m', cleanup e temp f1)
                               | removed \<Rightarrow>
                                   (let f2 = (if removed = None then f1(dest := None) else f1) in
                                    case sv_rename_again e of
                                      Some m' \<Rightarrow> (Inl m', cleanup e temp f2)
                                    | None \<Rightarrow> (Inr (), cleanup e temp (rename temp dest f2)))))))))))"

definition saveDomain ::
  "(string \<Rightarrow> 8 word list) \<Rightarrow> save_env \<Rightarrow> string + string \<Rightarrow> string \<Rightarrow> string \<Rightarrow> fs \<Rightarrow> (string + unit) \<times> fs" where
  "saveDomain sha e config_dir key domain f =
     (case stateRoot config_dir of
        Inl m \<Rightarrow> (Inl m, f)
      | Inr root \<Rightarrow> saveDomainAt sha e root key domain f)"

section \<open>One session\<close>

definition stateKey :: "client_config \<Rightarrow> string" where
  "stateKey c = cc_server c @ ''|'' @ (case cc_target c of None \<Rightarrow> [] | Some t \<Rightarrow> u_text t)"

text \<open>Where the state lives and how its system calls end.\<close>

record state_env =
  se_sha :: "string \<Rightarrow> 8 word list"
  se_config_dir :: "string + string"
  se_unreadable :: "string \<Rightarrow> bool"
  se_save :: save_env

definition requested_domain :: "client_config \<Rightarrow> state_env \<Rightarrow> fs \<Rightarrow> string" where
  "requested_domain c se f =
     (if cc_domain c = [] \<and> \<not> cc_disable_state c
      then loadDomain (se_sha se) (se_unreadable se) (se_config_dir se) (stateKey c) f
      else cc_domain c)"

definition client_hello :: "client_config \<Rightarrow> state_env \<Rightarrow> fs \<Rightarrow> Hello" where
  "client_hello c se f =
     \<lparr>h_version = Version, h_token = cc_token c, h_domain = requested_domain c se f, h_mode = ''http''\<rparr>"

text \<open>
  What the connection does: \<open>rn_accept\<close> is the error the accept loop ends with, together with what
  the heartbeat has reported by then (nothing yet, no error, an error) and whether the context is
  cancelled.
\<close>

record run_env =
  rn_dial :: "string option"
  rn_open :: "string option"
  rn_send :: "string option"
  rn_welcome :: "string + Welcome"
  rn_accept :: string
  rn_heartbeat :: "string option option"
  rn_cancelled :: bool

definition loop_result :: "run_env \<Rightarrow> string + unit" where
  "loop_result rn =
     (case rn_heartbeat rn of
        Some (Some m) \<Rightarrow>
          if \<not> rn_cancelled rn then Inl m else Inr ()
      | _ \<Rightarrow> if rn_cancelled rn then Inr () else Inl (''accept tunnel stream: '' @ rn_accept rn))"

record session_result =
  sr_error :: "string option"
  sr_hello :: "Hello option"
  sr_ready :: "Welcome option"
  sr_files :: fs

definition Run :: "client_config \<Rightarrow> state_env \<Rightarrow> run_env \<Rightarrow> fs \<Rightarrow> session_result" where
  "Run c se rn f =
     (let failed = (\<lambda>m hello. \<lparr>sr_error = Some m, sr_hello = hello, sr_ready = None, sr_files = f\<rparr>) in
      case rn_dial rn of
        Some m \<Rightarrow> failed (''connect to relay: '' @ m) None
      | None \<Rightarrow>
        (case rn_open rn of
           Some m \<Rightarrow> failed (''open control stream: '' @ m) None
         | None \<Rightarrow>
           (let hello = client_hello c se f in
            case rn_send rn of
              Some m \<Rightarrow> failed (''send handshake: '' @ m) (Some hello)
            | None \<Rightarrow>
              (case rn_welcome rn of
                 Inl m \<Rightarrow> failed (''read handshake: '' @ m) (Some hello)
               | Inr w \<Rightarrow>
                   if \<not> wl_ok w then failed (''relay rejected tunnel: '' @ wl_error w) (Some hello)
                   else
                     \<lparr>sr_error = (case loop_result rn of Inl m \<Rightarrow> Some m | Inr _ \<Rightarrow> None),
                      sr_hello = Some hello, sr_ready = Some w,
                      sr_files = (if cc_disable_state c then f
                        else snd (saveDomain (se_sha se) (se_save se) (se_config_dir se) (stateKey c)
                               (wl_domain w) f))\<rparr>))))"

text \<open>One round of the heartbeat loop: \<open>None\<close> is a cancelled context.\<close>

definition heartbeat_tick :: "string option option \<Rightarrow> (string + unit) \<times> Control list" where
  "heartbeat_tick sent =
     (case sent of
        None \<Rightarrow> (Inr (), [])
      | Some None \<Rightarrow> (Inr (), [\<lparr>c_type = ''ping''\<rparr>])
      | Some (Some m) \<Rightarrow> (Inl (''send heartbeat: '' @ m), []))"

section \<open>One request\<close>

definition joinURLPath :: "string \<Rightarrow> string \<Rightarrow> string" where
  "joinURLPath base requestPath =
     (if base = [] \<or> base = ''/'' then requestPath
      else
        (let joined = path_join base requestPath in
         if has_suffix requestPath ''/'' \<and> \<not> has_suffix joined ''/'' then joined @ ''/'' else joined))"

record local_request =
  lr_scheme :: string
  lr_url_host :: string
  lr_request :: request

text \<open>The request sent to the local service; only the decoded path is
  replaced, and \<open>rq_host\<close> is the Host header.\<close>

definition to_local :: "client_config \<Rightarrow> url \<Rightarrow> request \<Rightarrow> local_request" where
  "to_local c t r =
     \<lparr>lr_scheme = u_scheme t, lr_url_host = u_host t,
      lr_request = r\<lparr>rq_path := joinURLPath (u_path t) (rq_path r),
        rq_host := (if cc_host_header c \<noteq> [] then cc_host_header c else u_host t)\<rparr>\<rparr>"

text \<open>The path on the wire: \<open>RawPath\<close> is the visitor's and counts only while it still encodes the path.\<close>

definition local_path :: "client_config \<Rightarrow> url \<Rightarrow> request \<Rightarrow> string" where
  "local_path c t r =
     (let q = lr_request (to_local c t r) in EscapedPath (rq_path q) (rq_raw_path q))"

definition writeErrorResponse :: "nat \<Rightarrow> string \<Rightarrow> response" where
  "writeErrorResponse status message =
     \<lparr>rs_status = status, rs_header = header_set ''Content-Type'' ''text/plain; charset=utf-8'' [],
      rs_body = message @ [CHR 0x0A]\<rparr>"

text \<open>\<open>None\<close>: the request could not be read and the stream is cancelled.\<close>

definition handleStream ::
  "client_config \<Rightarrow> url \<Rightarrow> (local_request \<Rightarrow> string + response) \<Rightarrow> string + request \<Rightarrow> response option" where
  "handleStream c t service input =
     (case input of
        Inl _ \<Rightarrow> None
      | Inr r \<Rightarrow>
          (case service (to_local c t r) of
             Inl _ \<Rightarrow> Some (writeErrorResponse 502 ''local service unavailable'')
           | Inr resp \<Rightarrow> Some resp))"

end
