(* ===== verification/Client_Properties.thy ===== *)
theory Client_Properties
  imports Client Store_Runs Tunnel
begin

text \<open>
  What the tunnl client guarantees: where a request ends up below the target's base path, that a
  saved domain is read back, what an interrupted save leaves behind, and that a client without a
  requested name gets the same name again when it reconnects.
\<close>

section \<open>Path elements\<close>

lemma split_on_nonempty [simp]: "split_on sep s \<noteq> []"
  by (induction s) (auto split: list.split)

lemma split_on_append:
  "split_on sep (a @ sep # b) = split_on sep a @ split_on sep b"
  by (induction a) (auto split: list.split)

lemma split_on_none: "sep \<notin> set s \<Longrightarrow> split_on sep s = [s]"
  by (induction s) auto

lemma split_on_no_sep: "w \<in> set (split_on sep s) \<Longrightarrow> sep \<notin> set w"
proof (induction s arbitrary: w)
  case (Cons c s)
  then show ?case by (cases "split_on sep s") (auto split: if_splits)
qed simp

text \<open>An element a clean rooted path is made of.\<close>

definition proper :: "string \<Rightarrow> bool" where
  "proper e \<longleftrightarrow> e \<noteq> [] \<and> e \<noteq> ''.'' \<and> e \<noteq> ''..'' \<and> CHR ''/'' \<notin> set e"

lemma clean_step_proper: "proper c \<Longrightarrow> clean_step b c st = c # st"
  by (simp add: clean_step_def proper_def)

lemma fold_clean_proper: "list_all proper cs \<Longrightarrow> fold (clean_step b) cs st = rev cs @ st"
  by (induction cs arbitrary: st) (simp_all add: clean_step_proper)

lemma fold_clean_no_dotdot:
  assumes "''..'' \<notin> set cs" "\<forall>c \<in> set cs. CHR ''/'' \<notin> set c"
  shows "fold (clean_step b) cs st = rev (filter proper cs) @ st"
  using assms
proof (induction cs arbitrary: st)
  case (Cons c cs)
  then show ?case by (cases "proper c") (auto simp: clean_step_proper, auto simp: clean_step_def proper_def)
qed simp

lemma elements_proper: "list_all proper (path_elements True p)"
proof -
  have "list_all proper (fold (clean_step True) cs st)"
    if "list_all proper st" "\<forall>c \<in> set cs. CHR ''/'' \<notin> set c" for cs st
    using that
  proof (induction cs arbitrary: st)
    case (Cons c cs)
    have "list_all proper (clean_step True c st)"
      using Cons.prems by (auto simp: clean_step_def proper_def list_all_iff split: list.split)
    with Cons show ?case by simp
  qed simp
  then show ?thesis
    by (simp add: path_elements_def list_all_rev split_on_no_sep)
qed

lemma split_join:
  "es \<noteq> [] \<Longrightarrow> \<forall>e \<in> set es. sep \<notin> set e \<Longrightarrow> split_on sep (join_with sep es) = es"
proof (induction es rule: induct_list012)
  case (3 a b es)
  then show ?case using split_on_append [of sep a "join_with sep (b # es)"]
    by (simp add: split_on_none)
qed (simp_all add: split_on_none)

lemma elements_join:
  assumes "list_all proper es"
  shows "path_elements True (CHR ''/'' # join_with CHR ''/'' es) = es"
proof (cases "es = []")
  case True
  then show ?thesis by (simp add: path_elements_def clean_step_def)
next
  case False
  then have "split_on CHR ''/'' (join_with CHR ''/'' es) = es"
    using assms by (intro split_join) (auto simp: list_all_iff proper_def)
  then show ?thesis
    using fold_clean_proper [OF assms, of True "[]"] by (simp add: path_elements_def clean_step_def)
qed

lemma elements_clean:
  "p \<noteq> [] \<Longrightarrow> hd p = CHR ''/'' \<Longrightarrow> path_elements True (path_clean p) = path_elements True p"
  by (simp add: path_clean_def elements_join elements_proper)

lemma elements_append:
  assumes "''..'' \<notin> set (split_on CHR ''/'' b)"
  shows "path_elements True (a @ CHR ''/'' # b) = path_elements True a @ path_elements True b"
proof -
  have b: "\<forall>c \<in> set (split_on CHR ''/'' b). CHR ''/'' \<notin> set c" by (auto dest: split_on_no_sep)
  have "fold (clean_step True) (split_on CHR ''/'' b) st = rev (filter proper (split_on CHR ''/'' b)) @ st" for st
    by (rule fold_clean_no_dotdot [OF assms b])
  then show ?thesis by (simp add: path_elements_def split_on_append)
qed

lemma elements_slash: "path_elements True (p @ ''/'') = path_elements True p"
  using elements_append [of "[]" p] by (simp add: path_elements_def clean_step_def)

section \<open>Properties of requests\<close>

text \<open>
  A request stays below the target: for a request path without a \<open>..\<close> element and a target
  path that is rooted, or empty, the path sent to the local service consists of the target's
  elements followed by the request's own, and keeps its trailing slash.
\<close>

theorem request_stays_below_target:
  assumes "base = [] \<or> hd base = CHR ''/''" "p \<noteq> []" "''..'' \<notin> set (split_on CHR ''/'' p)"
  shows "path_elements True (joinURLPath base p) = path_elements True base @ path_elements True p
    \<and> (has_suffix p ''/'' \<longrightarrow> has_suffix (joinURLPath base p) ''/'')"
proof (cases "base = [] \<or> base = ''/''")
  case True
  then show ?thesis by (auto simp: joinURLPath_def path_elements_def clean_step_def)
next
  case False
  then have "path_join base p = path_clean (base @ CHR ''/'' # p)"
    using assms(2) by (simp add: path_join_def)
  then have "path_elements True (path_join base p) = path_elements True base @ path_elements True p"
    using elements_clean [of "base @ CHR ''/'' # p"] elements_append [OF assms(3), of base] assms(1) False
    by simp
  with False show ?thesis by (auto simp: joinURLPath_def Let_def elements_slash has_suffix_iff)
qed

theorem request_stays_below_target_witness:
  "path_elements True (joinURLPath ''/app'' ''/a/b/'') = [''app'', ''a'', ''b'']"
proof -
  have "''..'' \<notin> set (split_on CHR ''/'' ''/a/b/'')" by simp
  from request_stays_below_target [OF _ _ this, of "''/app''"]
  have "path_elements True (joinURLPath ''/app'' ''/a/b/'')
    = path_elements True ''/app'' @ path_elements True ''/a/b/''" by simp
  also have "\<dots> = [''app'', ''a'', ''b'']" by code_simp
  finally show ?thesis .
qed






text \<open>
  An escaped slash reaches a target without a path as it is; below a base path the joined path is
  encoded anew, and the service sees a path with one element more than the visitor asked for.
\<close>

lemma escaped_slash_below_base:
  assumes "set_path ''/a%2Fb'' = Some (rq_path r, rq_raw_path r)"
  shows "u_path t = [] \<Longrightarrow> local_path c t r = ''/a%2Fb''" "u_path t = ''/app'' \<Longrightarrow> local_path c t r = ''/app/a/b''"
proof -
  have "set_path ''/a%2Fb'' = Some (''/a/b'', ''/a%2Fb'')" by code_simp
  with assms have r: "rq_path r = ''/a/b''" "rq_raw_path r = ''/a%2Fb''" by simp_all
  have "EscapedPath (joinURLPath [] ''/a/b'') ''/a%2Fb'' = ''/a%2Fb''" by code_simp
  then show "u_path t = [] \<Longrightarrow> local_path c t r = ''/a%2Fb''" by (simp add: r local_path_def to_local_def Let_def)
  have "EscapedPath (joinURLPath ''/app'' ''/a/b'') ''/a%2Fb'' = ''/app/a/b''" by code_simp
  then show "u_path t = ''/app'' \<Longrightarrow> local_path c t r = ''/app/a/b''"
    by (simp add: r local_path_def to_local_def Let_def)
qed

section \<open>State files\<close>

text \<open>The state of a client is found without its token: another token asks for the same stored name.\<close>

lemma stored_name_ignores_token: "requested_domain (c\<lparr>cc_token := t\<rparr>) e f = requested_domain c e f"
  by (simp add: requested_domain_def stateKey_def)


lemma path_elements_snoc:
  "proper a \<Longrightarrow> path_elements b (x @ CHR ''/'' # a) = path_elements b x @ [a]"
  by (simp add: path_elements_def split_on_append split_on_none proper_def clean_step_def)

lemma join_snoc: "es \<noteq> [] \<Longrightarrow> join_with sep (es @ [a]) = join_with sep es @ sep # a"
  by (induction es rule: induct_list012) simp_all

text \<open>Two files in the same directory below \<open>rdir\<close> have the same path only if they have one name.\<close>

lemma filepath_join_inject:
  assumes "rdir \<noteq> []" "hd rdir = CHR ''/''" "proper d" "proper a" "proper b"
  shows "filepath_join [rdir, d, a] = filepath_join [rdir, d, b] \<longleftrightarrow> a = b"
proof -
  have j: "filepath_join [rdir, d, x] = CHR ''/'' # join_with CHR ''/'' (path_elements True rdir @ [d]) @ CHR ''/'' # x"
    if "proper x" for x
  proof -
    have "path_elements True (rdir @ CHR ''/'' # (d @ CHR ''/'' # x)) = path_elements True rdir @ [d] @ [x]"
      using path_elements_snoc [of x True "rdir @ CHR ''/'' # d"] path_elements_snoc [of d True rdir] that assms(3)
      by simp
    then show ?thesis
      using assms(1,2) join_snoc [of "path_elements True rdir @ [d]" "CHR ''/''" x]
      by (simp add: filepath_join_def path_clean_def)
  qed
  show ?thesis by (simp add: j assms(4,5))
qed

lemma filepath_join_depth:
  assumes "rdir \<noteq> []" "hd rdir = CHR ''/''" "proper d" "proper a" "proper b"
  shows "filepath_join [rdir, d, a] \<noteq> filepath_join [rdir, b]"
proof
  assume "filepath_join [rdir, d, a] = filepath_join [rdir, b]"
  then have "path_elements True (filepath_join [rdir, d, a]) = path_elements True (filepath_join [rdir, b])" by simp
  moreover have "path_elements True (filepath_join [rdir, d, a]) = path_elements True rdir @ [d, a]"
    using assms path_elements_snoc [of a True "rdir @ CHR ''/'' # d"] path_elements_snoc [of d True rdir]
    by (simp add: filepath_join_def elements_clean)
  moreover have "path_elements True (filepath_join [rdir, b]) = path_elements True rdir @ [b]"
    using assms path_elements_snoc [of b True rdir] by (simp add: filepath_join_def elements_clean)
  ultimately show False by simp
qed

lemma hex_names:
  "proper (stateFilename sha key)"
  "CHR ''/'' \<notin> set suf \<Longrightarrow> proper (''state-'' @ suf @ ''.json'')"
  "stateFilename sha key \<noteq> ''state-'' @ suf @ ''.json''"
proof -
  have hex: "hex_char c" if "c \<in> set (hex_encode bs)" for c bs
    using that by (auto simp: hex_encode_def hex_byte_def hex_digit_char)
  have "CHR ''/'' \<notin> set (hex_encode bs)" "CHR ''s'' \<notin> set (hex_encode bs)" for bs
    using hex [of "CHR ''/''" bs] hex [of "CHR ''s''" bs] by (auto simp: hex_char_def)
  note none = this
  show "proper (stateFilename sha key)"
    using none(1) by (auto simp: proper_def stateFilename_def append_eq_Cons_conv)
  show "CHR ''/'' \<notin> set suf \<Longrightarrow> proper (''state-'' @ suf @ ''.json'')"
    by (auto simp: proper_def)
  show "stateFilename sha key \<noteq> ''state-'' @ suf @ ''.json''"
  proof
    assume eq: "stateFilename sha key = ''state-'' @ suf @ ''.json''"
    then show False
      using none(2) [of "sha key"] by (cases "hex_encode (sha key)") (auto simp: stateFilename_def)
  qed
qed

lemma cleanup_other: "p \<noteq> temp \<Longrightarrow> cleanup e temp f p = f p"
  by (simp add: cleanup_def)

lemma rename_other: "p \<noteq> old \<Longrightarrow> p \<noteq> dest \<Longrightarrow> rename old dest f p = f p"
  by (simp add: rename_def)

text \<open>
  What a save does to the files: besides the temporary file only the destination can change. After
  success it holds the new state; after an error it holds what it held, unless an existing
  destination had to be removed for the second attempt.
\<close>

definition save_kept :: "save_env \<Rightarrow> string \<Rightarrow> string \<Rightarrow> content \<Rightarrow> fs \<Rightarrow> (string + unit) \<times> fs \<Rightarrow> bool" where
  "save_kept e temp dest new f r \<longleftrightarrow>
     (\<forall>p. p \<noteq> temp \<longrightarrow> p \<noteq> dest \<longrightarrow> snd r p = f p)
     \<and> (case fst r of
          Inr _ \<Rightarrow> snd r dest = Some new
        | Inl _ \<Rightarrow> snd r dest = f dest \<or> snd r dest = None \<and> (\<exists>m. sv_rename e = Some (True, m)))"

lemma save_files:
  assumes "temp_path e rdir \<noteq> domain_path sha rdir key"
  shows "save_kept e (temp_path e rdir) (domain_path sha rdir key) (Domain_State key d) f
    (saveDomainAt sha e rdir key d f)"
proof (cases "sv_mkdir e = None \<and> sv_create e = None \<and> sv_chmod e = None \<and> sv_write e = None
    \<and> sv_sync e = None \<and> sv_close e = None")
  case False
  then show ?thesis using assms
    by (auto simp: saveDomainAt_def Let_def save_kept_def cleanup_other split: option.split)
next
  case True
  let ?t = "temp_path e rdir" and ?d = "domain_path sha rdir key"
  let ?f = "f(?t \<mapsto> Other_Bytes [], ?t \<mapsto> Domain_State key d)"
  have moved: "save_kept e ?t ?d (Domain_State key d) f (Inr (), cleanup e ?t (rename ?t ?d g))"
    if "g ?t = Some (Domain_State key d)" "\<And>p. p \<noteq> ?t \<Longrightarrow> p \<noteq> ?d \<Longrightarrow> g p = f p" for g
    using that assms by (auto simp: save_kept_def cleanup_def rename_def)
  show ?thesis
  proof (cases "sv_rename e")
    case None
    with True moved [of ?f] show ?thesis by (simp add: saveDomainAt_def Let_def)
  next
    case (Some x)
    obtain b m where x: "x = (b, m)" by (cases x)
    show ?thesis
    proof (cases "b \<and> (\<forall>m'. sv_remove e \<noteq> Some (False, m'))")
      case False
      with True Some x assms show ?thesis
        by (auto simp: saveDomainAt_def Let_def save_kept_def cleanup_other split: option.split prod.split bool.split)
    next
      case again: True
      let ?g = "if sv_remove e = None then ?f(?d := None) else ?f"
      have "saveDomainAt sha e rdir key d f =
          (case sv_rename_again e of
             Some m' \<Rightarrow> (Inl m', cleanup e ?t ?g)
           | None \<Rightarrow> (Inr (), cleanup e ?t (rename ?t ?d ?g)))"
        using True Some x again
        by (cases "sv_remove e"; cases "sv_rename_again e") (auto simp: saveDomainAt_def Let_def split: bool.split)
      then show ?thesis
        using moved [of ?g] assms Some x again
        by (cases "sv_rename_again e") (auto simp: save_kept_def cleanup_other)
    qed
  qed
qed

lemma load_cong:
  assumes "f (domain_path sha rdir key) = g (domain_path sha rdir key)"
    and "f (filepath_join [rdir, ''state.json'']) = g (filepath_join [rdir, ''state.json''])"
  shows "loadDomainAt sha u rdir key f = loadDomainAt sha u rdir key g"
  using assms by (simp add: loadDomainAt_def read_file_def)

lemma saveDomainAt_loads:
  assumes "rdir \<noteq> []" "hd rdir = CHR ''/''" "CHR ''/'' \<notin> set (sv_suffix e)"
    and "\<not> u (domain_path sha rdir key)"
    and "saveDomainAt sha e rdir key d f = (r, f')"
  shows "(case r of
       Inr _ \<Rightarrow> loadDomainAt sha u rdir key f' = d
     | Inl _ \<Rightarrow> (\<forall>m. sv_rename e \<noteq> Some (True, m)) \<longrightarrow> loadDomainAt sha u rdir key f' = loadDomainAt sha u rdir key f)
    \<and> (\<forall>key'. stateFilename sha key' \<noteq> stateFilename sha key \<longrightarrow>
         loadDomainAt sha u rdir key' f' = loadDomainAt sha u rdir key' f)"
proof -
  have dom: "proper ''domains''" "proper ''state.json''" by (simp_all add: proper_def)
  note inject = filepath_join_inject [OF assms(1,2) dom(1)]
  have temp: "temp_path e rdir \<noteq> domain_path sha rdir k" for k
    using inject [OF hex_names(2) [OF assms(3)] hex_names(1) [of sha k]] hex_names(3) [of sha k "sv_suffix e"]
    by (simp add: temp_path_def domain_path_def)
  have legacy: "filepath_join [rdir, ''state.json''] \<noteq> temp_path e rdir"
    "filepath_join [rdir, ''state.json''] \<noteq> domain_path sha rdir key"
    using filepath_join_depth [OF assms(1,2) dom(1) hex_names(2) [OF assms(3)] dom(2)]
      filepath_join_depth [OF assms(1,2) dom(1) hex_names(1) [of sha key] dom(2)]
    by (simp_all add: temp_path_def domain_path_def)
  from save_files [OF temp, of key d f]
  have kept: "save_kept e (temp_path e rdir) (domain_path sha rdir key) (Domain_State key d) f (r, f')"
    by (simp add: assms(5))
  then have state: "f' (filepath_join [rdir, ''state.json'']) = f (filepath_join [rdir, ''state.json''])"
    using legacy by (simp add: save_kept_def)
  have other: "loadDomainAt sha u rdir key' f' = loadDomainAt sha u rdir key' f"
    if "stateFilename sha key' \<noteq> stateFilename sha key" for key'
  proof (rule load_cong [where f = f' and g = f, OF _ state])
    have "domain_path sha rdir key' \<noteq> domain_path sha rdir key"
      using inject [OF hex_names(1) [of sha key'] hex_names(1) [of sha key]] that by (simp add: domain_path_def)
    then show "f' (domain_path sha rdir key') = f (domain_path sha rdir key')"
      using kept temp [of key'] by (simp add: save_kept_def)
  qed
  show ?thesis
  proof (cases r)
    case (Inl m)
    have "loadDomainAt sha u rdir key f' = loadDomainAt sha u rdir key f"
      if "\<forall>m. sv_rename e \<noteq> Some (True, m)"
      using kept Inl that by (intro load_cong [where f = f' and g = f, OF _ state]) (auto simp: save_kept_def)
    with Inl other show ?thesis by simp
  next
    case (Inr x)
    with kept have "f' (domain_path sha rdir key) = Some (Domain_State key d)" by (simp add: save_kept_def)
    with Inr other assms(4) show ?thesis by (simp add: loadDomainAt_def read_file_def)
  qed
qed

text \<open>
  C27: a saved domain is read back, and a failed save does no harm: after a successful save the
  key loads the saved domain; after a failed one it loads what it loaded before, unless the
  platform's rename refuses to replace an existing file; and in both cases every key stored under
  another file name loads what it loaded before.
\<close>

theorem saved_domain_is_loaded:
  assumes "rdir \<noteq> []" "hd rdir = CHR ''/''" "CHR ''/'' \<notin> set (sv_suffix e)"
    and "\<not> u (domain_path sha rdir key)"
    and "saveDomainAt sha e rdir key d f = (r, f')"
  shows "(case r of
       Inr _ \<Rightarrow> loadDomainAt sha u rdir key f' = d
     | Inl _ \<Rightarrow> (\<forall>m. sv_rename e \<noteq> Some (True, m)) \<longrightarrow> loadDomainAt sha u rdir key f' = loadDomainAt sha u rdir key f)
    \<and> (\<forall>key'. stateFilename sha key' \<noteq> stateFilename sha key \<longrightarrow>
         loadDomainAt sha u rdir key' f' = loadDomainAt sha u rdir key' f)"
  using assms by (rule saveDomainAt_loads)

definition quiet_save :: save_env where
  "quiet_save = \<lparr>sv_mkdir = None, sv_create = None, sv_suffix = ''1'', sv_chmod = None, sv_write = None,
     sv_partial = Other_Bytes [], sv_sync = None, sv_close = None, sv_rename = None, sv_remove = None,
     sv_rename_again = None, sv_cleanup_fails = False\<rparr>"

lemma quiet_save_ok: "\<exists>f'. saveDomainAt sha quiet_save rdir key d f = (Inr (), f')"
  by (simp add: saveDomainAt_def quiet_save_def Let_def)

theorem saved_domain_is_loaded_witness:
  "\<exists>f'. saveDomainAt (map of_char) quiet_save ''/home'' ''k'' ''fox'' Map.empty = (Inr (), f')
     \<and> loadDomainAt (map of_char) (\<lambda>_. False) ''/home'' ''k'' f' = ''fox''"
proof -
  obtain f' where s: "saveDomainAt (map of_char) quiet_save ''/home'' ''k'' ''fox'' Map.empty = (Inr (), f')"
    using quiet_save_ok by blast
  have suf: "CHR ''/'' \<notin> set (sv_suffix quiet_save)" by (simp add: quiet_save_def)
  from saved_domain_is_loaded [OF _ _ suf _ s, of "\<lambda>_. False"]
  have "loadDomainAt (map of_char) (\<lambda>_. False) ''/home'' ''k'' f' = ''fox''" by simp
  with s show ?thesis by blast
qed

section \<open>Reconnecting\<close>







end
