(* ===== verification/Cmd_Tunnl.thy ===== *)
theory Cmd_Tunnl
  imports Client
begin

text \<open>
  \<^verbatim>\<open>cmd/tunnl/main.go\<close>: the command line of the client and its reconnect loop. Flag parsing,
  \<open>url.Parse\<close>, the random jitter and the passage of time are arguments.
\<close>

section \<open>Environment variables\<close>

definition envOr :: "(string \<Rightarrow> string) \<Rightarrow> string \<Rightarrow> string \<Rightarrow> string" where
  "envOr getenv key fallback = (let v = getenv key in if v \<noteq> [] then v else fallback)"

definition envDuration ::
  "(string \<Rightarrow> string) \<Rightarrow> (string \<Rightarrow> duration option) \<Rightarrow> string \<Rightarrow> duration \<Rightarrow> duration" where
  "envDuration getenv parse key fallback =
     (let v = getenv key in
      if v \<noteq> [] then (case parse v of Some d \<Rightarrow> d | None \<Rightarrow> fallback) else fallback)"

section \<open>From flags to a configuration\<close>

record tunnl_flags =
  tf_port :: int
  tf_to :: string
  tf_domain :: string
  tf_server :: string
  tf_token :: string
  tf_host_header :: string
  tf_insecure :: bool
  tf_header_timeout :: duration
  tf_version :: bool

text \<open>The values before the command line is parsed.\<close>

definition tunnl_defaults ::
  "(string \<Rightarrow> string) \<Rightarrow> (string \<Rightarrow> duration option) \<Rightarrow> tunnl_flags" where
  "tunnl_defaults getenv parse =
     \<lparr>tf_port = 0, tf_to = [], tf_domain = [],
      tf_server = envOr getenv ''TUNNL_SERVER'' ''relay.tunnl.at:443'',
      tf_token = getenv ''TUNNL_TOKEN'', tf_host_header = [], tf_insecure = False,
      tf_header_timeout = envDuration getenv parse ''TUNNL_RESPONSE_HEADER_TIMEOUT'' 0, tf_version = False\<rparr>"

definition strip_http :: "string list \<Rightarrow> string list" where
  "strip_http args = (if args \<noteq> [] \<and> hd args = ''http'' then tl args else args)"

text \<open>The target to forward to: \<open>--to\<close>, or the local port.\<close>

definition target_value :: "tunnl_flags \<Rightarrow> string + string" where
  "target_value t =
     (if tf_to t = [] then
        (if tf_port t < 1 \<or> tf_port t > 65535
         then Inl ''use --port with a valid local port, or provide --to''
         else Inr (''http://127.0.0.1:'' @ itoa (tf_port t)))
      else if tf_port t \<noteq> 0 then Inl ''--port and --to cannot be used together''
      else Inr (tf_to t))"

definition tunnl_config :: "(string \<Rightarrow> url option) \<Rightarrow> tunnl_flags \<Rightarrow> string + client_config" where
  "tunnl_config parse_url t =
     (if tf_token t = [] then Inl ''an authentication token is required; set TUNNL_TOKEN or use --token''
      else
        (case target_value t of
           Inl m \<Rightarrow> Inl m
         | Inr v \<Rightarrow>
             (case parse_url v of
                None \<Rightarrow> Inl ''--to must be a complete HTTP URL''
              | Some target \<Rightarrow>
                  if u_host target = [] then Inl ''--to must be a complete HTTP URL''
                  else Inr \<lparr>cc_server = tf_server t, cc_token = tf_token t, cc_domain = tf_domain t,
                    cc_target = Some target, cc_host_header = tf_host_header t,
                    cc_insecure = tf_insecure t, cc_disable_state = False,
                    cc_header_timeout = tf_header_timeout t\<rparr>)))"

section \<open>The reconnect loop\<close>

text \<open>
  One round: the session, whether the context is cancelled after it, the jitter drawn, whether the
  context is cancelled while waiting.
\<close>

record round =
  ro_state :: state_env
  ro_run :: run_env
  ro_cancelled :: bool
  ro_jitter :: duration
  ro_interrupted :: bool

datatype outcome = Stopped | Failed string

definition max_delay :: duration where
  "max_delay = 30 * second"

definition grow_delay :: "duration \<Rightarrow> duration" where
  "grow_delay d = (if d < max_delay then (if d * 2 > max_delay then max_delay else d * 2) else d)"

text \<open>The text \<open>strings.Contains\<close> looks for in the error of a session.\<close>

definition is_rejection :: "string \<Rightarrow> bool" where
  "is_rejection m \<longleftrightarrow> contains m ''relay rejected tunnel''"

text \<open>
  The loop over the rounds seen so far: the outcome when it has returned, the waits it started and
  the files it leaves.
\<close>

fun reconnect ::
  "client_config \<Rightarrow> round list \<Rightarrow> duration \<Rightarrow> fs \<Rightarrow> outcome option \<times> duration list \<times> fs" where
  "reconnect c [] delay f = (None, [], f)"
| "reconnect c (r # rs) delay f =
     (case New c of
        Inl m \<Rightarrow> (Some (Failed m), [], f)
      | Inr c' \<Rightarrow>
          (let s = Run c' (ro_state r) (ro_run r) f;
               delay = (if sr_ready s \<noteq> None then second else delay)
           in case sr_error s of
                None \<Rightarrow> (Some Stopped, [], sr_files s)
              | Some m \<Rightarrow>
                  if ro_cancelled r then (Some Stopped, [], sr_files s)
                  else if is_rejection m then (Some (Failed m), [], sr_files s)
                  else
                    (let wait = delay + ro_jitter r in
                     if ro_interrupted r then (Some Stopped, [wait], sr_files s)
                     else
                       (case reconnect c rs (grow_delay delay) (sr_files s) of
                          (res, waits, f') \<Rightarrow> (res, wait # waits, f')))))"

definition run_tunnl ::
  "(string \<Rightarrow> url option) \<Rightarrow> tunnl_flags \<Rightarrow> round list \<Rightarrow> fs \<Rightarrow> outcome option \<times> duration list \<times> fs" where
  "run_tunnl parse_url t rounds f =
     (if tf_version t then (Some Stopped, [], f)
      else
        (case tunnl_config parse_url t of
           Inl m \<Rightarrow> (Some (Failed m), [], f)
         | Inr c \<Rightarrow> reconnect c rounds second f))"

section \<open>Delays\<close>

definition jitter_ok :: "round \<Rightarrow> bool" where
  "jitter_ok r \<longleftrightarrow> 0 \<le> ro_jitter r \<and> ro_jitter r < 500 * 1000000"

lemma grow_delay_bounds:
  "second \<le> d \<Longrightarrow> d \<le> max_delay \<Longrightarrow> second \<le> grow_delay d \<and> grow_delay d \<le> max_delay"
  by (simp add: grow_delay_def second_def max_delay_def)

lemma grow_delay_min: "grow_delay (min max_delay (2 ^ n * second)) = min max_delay (2 ^ Suc n * second)"
  by (simp add: grow_delay_def max_delay_def second_def min_def)

lemma reconnect_waits:
  assumes "second \<le> delay" "delay \<le> max_delay" "list_all jitter_ok rs" "w \<in> set (fst (snd (reconnect c rs delay f)))"
  shows "second \<le> w \<and> w < max_delay + 500 * 1000000"
  using assms
proof (induction rs arbitrary: delay f)
  case (Cons r rs)
  obtain d where d: "d = (if sr_ready (Run c (ro_state r) (ro_run r) f) \<noteq> None then second else delay)" by blast
  have db: "second \<le> d" "d \<le> max_delay"
    using Cons.prems(1,2) by (simp_all add: d max_delay_def second_def)
  have "w = d + ro_jitter r \<or> w \<in> set (fst (snd (reconnect c rs (grow_delay d)
      (sr_files (Run c (ro_state r) (ro_run r) f)))))"
    using Cons.prems(4) d
    by (auto simp: Let_def New_def split: sum.splits option.splits if_splits prod.splits)
  then show ?case
  proof
    assume "w = d + ro_jitter r"
    with db Cons.prems(3) show ?thesis by (simp add: jitter_ok_def)
  next
    assume "w \<in> set (fst (snd (reconnect c rs (grow_delay d) (sr_files (Run c (ro_state r) (ro_run r) f)))))"
    moreover have "list_all jitter_ok rs" using Cons.prems(3) by simp
    ultimately show ?thesis using Cons.IH [of "grow_delay d"] grow_delay_bounds [OF db] by blast
  qed
qed simp

text \<open>A round that fails before the relay has answered, and does not end the loop.\<close>

definition unreachable :: "round \<Rightarrow> bool" where
  "unreachable r \<longleftrightarrow> rn_dial (ro_run r) \<noteq> None \<and> (\<forall>m. rn_dial (ro_run r) = Some m \<longrightarrow>
     \<not> is_rejection (''connect to relay: '' @ m)) \<and> \<not> ro_cancelled r \<and> \<not> ro_interrupted r"

lemma unreachable_run:
  "unreachable r \<Longrightarrow> \<exists>m. Run c se (ro_run r) f = \<lparr>sr_error = Some m, sr_hello = None, sr_ready = None, sr_files = f\<rparr>
     \<and> \<not> is_rejection m"
  by (auto simp: unreachable_def Run_def Let_def)

lemma reconnect_unreachable:
  assumes "New c = Inr c" "list_all unreachable rs"
  shows "reconnect c rs (min max_delay (2 ^ n * second)) f =
    (None, map (\<lambda>(k, r). min max_delay (2 ^ k * second) + ro_jitter r) (enumerate n rs), f)"
  using assms(2)
proof (induction rs arbitrary: n)
  case (Cons r rs)
  then obtain m where m: "Run c (ro_state r) (ro_run r) f =
      \<lparr>sr_error = Some m, sr_hello = None, sr_ready = None, sr_files = f\<rparr>" "\<not> is_rejection m"
    using unreachable_run [of r c "ro_state r" f] by auto
  have "\<not> ro_cancelled r" "\<not> ro_interrupted r" using Cons.prems by (simp_all add: unreachable_def)
  with m Cons.prems Cons.IH [of "Suc n"] assms(1) show ?case by (simp add: Let_def grow_delay_min)
qed simp

section \<open>Properties\<close>

text \<open>
  The reconnect delays in closed form: while the relay cannot be reached the client keeps
  trying, and before attempt \<open>k + 2\<close> it waits \<open>min 30 (2^k)\<close> seconds and the jitter drawn.
\<close>

theorem reconnect_delays:
  assumes "New c = Inr c" "list_all unreachable rs"
  shows "reconnect c rs second f =
    (None, map (\<lambda>(k, r). min (30 * second) (2 ^ k * second) + ro_jitter r) (enumerate 0 rs), f)"
  using reconnect_unreachable [OF assms, of 0 f] by (simp add: max_delay_def second_def)

definition example_client :: client_config where
  "example_client = \<lparr>cc_server = ''relay.tunnl.at:443'', cc_token = ''secret'', cc_domain = [],
     cc_target = Some \<lparr>u_scheme = ''http'', u_host = ''127.0.0.1:3000'', u_path = [],
       u_text = ''http://127.0.0.1:3000''\<rparr>, cc_host_header = [], cc_insecure = False,
     cc_disable_state = False, cc_header_timeout = 0\<rparr>"

definition example_round :: "string option \<Rightarrow> string + Welcome \<Rightarrow> round" where
  "example_round dial w = \<lparr>ro_state = \<lparr>se_sha = map of_char, se_config_dir = Inl [], se_unreadable = (\<lambda>_. False),
       se_save = \<lparr>sv_mkdir = None, sv_create = None, sv_suffix = [], sv_chmod = None, sv_write = None,
         sv_partial = Other_Bytes [], sv_sync = None, sv_close = None, sv_rename = None, sv_remove = None,
         sv_rename_again = None, sv_cleanup_fails = False\<rparr>\<rparr>,
     ro_run = \<lparr>rn_dial = dial, rn_open = None, rn_send = None, rn_welcome = w, rn_accept = ''closed'',
       rn_heartbeat = None, rn_cancelled = False\<rparr>,
     ro_cancelled = False, ro_jitter = 7, ro_interrupted = False\<rparr>"

lemma example_unreachable: "unreachable (example_round (Some ''timeout'') (Inl []))"
  by (simp add: unreachable_def example_round_def is_rejection_def has_prefix_def)

lemma example_client_ok: "New example_client = Inr example_client"
  by (simp add: New_def example_client_def)

theorem reconnect_delays_witness:
  "fst (snd (reconnect example_client (replicate 7 (example_round (Some ''timeout'') (Inl []))) second Map.empty))
   = map (\<lambda>s. s * second + 7) [1, 2, 4, 8, 16, 30, 30]"
proof -
  have "list_all unreachable (replicate 7 (example_round (Some ''timeout'') (Inl [])))"
    using example_unreachable by (simp add: list_all_iff)
  from reconnect_delays [OF example_client_ok this, of Map.empty] show ?thesis
    by (simp add: numeral_eq_Suc enumerate_eq_zip upt_conv_Cons example_round_def second_def min_def)
qed

text \<open>
  The loop never hammers and never sleeps for long: whatever the sessions do, every wait is at
  least one second and less than thirty and a half.
\<close>

theorem reconnect_wait_bounds:
  assumes "list_all jitter_ok rounds" "w \<in> set (fst (snd (run_tunnl parse_url t rounds f)))"
  shows "1000000000 \<le> w \<and> w < 30500000000"
proof -
  obtain c where "w \<in> set (fst (snd (reconnect c rounds second f)))"
    using assms(2) by (auto simp: run_tunnl_def split: if_splits sum.splits)
  from reconnect_waits [OF _ _ assms(1) this] show ?thesis by (simp add: second_def max_delay_def)
qed

theorem reconnect_wait_bounds_witness:
  "\<exists>w. w \<in> set (fst (snd (run_tunnl (\<lambda>_. cc_target example_client)
       ((tunnl_defaults (\<lambda>k. ''secret'') (\<lambda>_. None))\<lparr>tf_port := 3000\<rparr>)
       [example_round (Some ''timeout'') (Inl [])] Map.empty)))
     \<and> 1000000000 \<le> w \<and> w < 30500000000"
proof -
  let ?rs = "[example_round (Some ''timeout'') (Inl [])]"
  let ?t = "((tunnl_defaults (\<lambda>k. ''secret'') (\<lambda>_. None))\<lparr>tf_port := 3000\<rparr>)"
  have "list_all jitter_ok ?rs" by (simp add: jitter_ok_def example_round_def)
  moreover have "second + 7 \<in> set (fst (snd (run_tunnl (\<lambda>_. cc_target example_client) ?t ?rs Map.empty)))"
    by (simp add: run_tunnl_def tunnl_config_def tunnl_defaults_def envOr_def Let_def target_value_def example_client_def
        New_def Run_def Let_def example_round_def is_rejection_def has_prefix_def)
  ultimately show ?thesis using reconnect_wait_bounds by blast
qed

end
