(* ===== verification/Server_Start.thy ===== *)
theory Server_Start
  imports Admin_Handler Tls_Source
begin

text \<open>
  \<^verbatim>\<open>internal/server/server.go\<close>: \<open>New\<close>, which checks the configuration and builds the server and
  its admin panel, and the part of \<open>Run\<close> that decides what is served where and how it ends.
\<close>

section \<open>The server\<close>

datatype start_error =
  Bad_Config config_error
| Open_Failed string
| Count_Failed store_error
| No_Tokens
| Admin_Failed string

text \<open>
  \<open>server.New\<close>: \<open>opened\<close> is the database \<open>store.Open\<close> finds, \<open>q\<close> a failure of the token count; the
  panel's state has the server itself behind it.
\<close>

record relay_server =
  rs_config :: config
  rs_db :: db
  rs_registry :: registry
  rs_metrics :: metrics
  rs_admin :: "(panel \<times> unit panel_state) option"

definition New_server ::
  "(string \<Rightarrow> 8 word list) \<Rightarrow> (rune \<Rightarrow> rune) \<Rightarrow> nat \<Rightarrow> string + db \<Rightarrow> string option \<Rightarrow> time \<Rightarrow> config
     \<Rightarrow> start_error + relay_server" where
  "New_server sha fold_table moved opened q now c0 =
     (case check_config c0 of
        Inl e \<Rightarrow> Inl (Bad_Config e)
      | Inr _ \<Rightarrow>
        (let c = with_defaults c0 in
         case opened of
           Inl m \<Rightarrow> Inl (Open_Failed m)
         | Inr s \<Rightarrow>
           (case CountClientTokens q s of
              Inl e \<Rightarrow> Inl (Count_Failed e)
            | Inr managed \<Rightarrow>
                if length (AuthTokens c) = 0 \<and> managed = 0 \<and> AdminAddr c = [] then Inl No_Tokens
                else
                  (let service = \<lparr>rs_config = c, rs_db = s, rs_registry = newRegistry,
                         rs_metrics = newMetrics now, rs_admin = None\<rparr> in
                   if AdminAddr c = [] then Inr service
                   else
                     (case NewHandler sha fold_table moved (AdminToken c) (Some ()) None None of
                        Inl m \<Rightarrow> Inl (Admin_Failed m)
                      | Inr h \<Rightarrow> Inr (service\<lparr>rs_admin := Some h\<rparr>))))))"

section \<open>What is served where\<close>

datatype http_handler = Public_Handler | Admin_Handler_Of "(panel \<times> unit panel_state) option"

record http_server =
  hs_addr :: string
  hs_handler :: http_handler
  hs_read_header_timeout :: duration
  hs_read_timeout :: duration
  hs_write_timeout :: duration
  hs_idle_timeout :: duration
  hs_max_header_bytes :: nat
  hs_tls :: "tls_config option"

definition public_server :: "string \<Rightarrow> tls_config option \<Rightarrow> http_server" where
  "public_server addr tls =
     \<lparr>hs_addr = addr, hs_handler = Public_Handler, hs_read_header_timeout = 10 * second,
      hs_read_timeout = 0, hs_write_timeout = 0, hs_idle_timeout = 90 * second,
      hs_max_header_bytes = 0, hs_tls = tls\<rparr>"

definition http_servers :: "relay_server \<Rightarrow> source \<Rightarrow> http_server list" where
  "http_servers srv src =
     (let c = rs_config srv in
      (if HTTPAddr c \<noteq> [] then [public_server (HTTPAddr c) None] else [])
      @ (if HTTPSAddr c \<noteq> [] then [public_server (HTTPSAddr c) (Some (TLSConfig src VersionTLS12 []))] else [])
      @ (if AdminAddr c \<noteq> []
         then [\<lparr>hs_addr = AdminAddr c, hs_handler = Admin_Handler_Of (rs_admin srv),
                hs_read_header_timeout = 5 * second, hs_read_timeout = 15 * second,
                hs_write_timeout = 30 * second, hs_idle_timeout = 60 * second,
                hs_max_header_bytes = 16 * 1024, hs_tls = None\<rparr>]
         else []))"

text \<open>
  The end of \<open>Run\<close>: the context is done, or one of the servers or the accept loop has returned an
  error (\<open>None\<close>: the accept loop returned without one); the flag says whether it is
  \<open>http.ErrServerClosed\<close>.
\<close>

datatype run_stop = Context_Over | Served "string option" bool

definition run_result :: "run_stop \<Rightarrow> bool \<Rightarrow> string option" where
  "run_result stop cancelled =
     (case stop of
        Context_Over \<Rightarrow> None
      | Served err ended \<Rightarrow> if ended \<or> cancelled then None else err)"

section \<open>Properties\<close>

text \<open>
  C22: the admin listener is guarded: a relay that starts serves an admin panel exactly when an
  admin address is configured; then the panel's token is the configured one and has at least 32
  characters, no session exists, and unless remote access was allowed explicitly the address is
  \<open>localhost\<close> or a loopback address. No listener but the one at that address serves the panel. And
  a relay starts only with a token to accept or a panel to create one.
\<close>

theorem admin_listener_is_guarded:
  assumes "New_server sha fold_table moved opened q now c = Inr srv"
  shows "(AdminAddr c = [] \<longrightarrow> rs_admin srv = None)
    \<and> (AdminAddr c \<noteq> [] \<longrightarrow> 32 \<le> length (AdminToken c)
         \<and> (\<exists>P st. rs_admin srv = Some (P, st) \<and> pn_token P = AdminToken c \<and> ps_sessions st = [])
         \<and> (AdminAllowRemote c \<or> (\<exists>host port. SplitHostPort (AdminAddr c) = Inr (host, port)
              \<and> (host = ''localhost'' \<or> (\<exists>ip. ParseIP host = Some ip \<and> IsLoopback ip)))))
    \<and> (\<forall>src. \<forall>h \<in> set (http_servers srv src). hs_handler h = Public_Handler \<and> hs_addr h \<noteq> []
         \<or> AdminAddr c \<noteq> [] \<and> hs_addr h = AdminAddr c \<and> hs_handler h = Admin_Handler_Of (rs_admin srv))
    \<and> (AuthTokens c \<noteq> [] \<or> client_tokens (rs_db srv) \<noteq> [] \<or> AdminAddr c \<noteq> [])"
proof -
  have fields: "AdminAddr (with_defaults c) = AdminAddr c" "AdminToken (with_defaults c) = AdminToken c"
    "AuthTokens (with_defaults c) = AuthTokens c"
    by (simp_all add: with_defaults_def)
  obtain u where cc: "check_config c = Inr u"
    using assms by (auto simp: New_server_def split: sum.splits)
  obtain s managed where o: "opened = Inr s" "CountClientTokens q s = Inr managed"
    using assms cc by (auto simp: New_server_def Let_def split: sum.splits)
  have managed: "managed = length (client_tokens s)"
    using o(2) by (auto simp: CountClientTokens_def split: option.splits)
  have tokens: "\<not> (AuthTokens c = [] \<and> managed = 0 \<and> AdminAddr c = [])"
    using assms cc o fields by (auto simp: New_server_def Let_def split: if_splits)
  let ?service = "\<lparr>rs_config = with_defaults c, rs_db = s, rs_registry = newRegistry,
      rs_metrics = newMetrics now, rs_admin = None\<rparr>"
  have srv: "if AdminAddr c = [] then srv = ?service
    else 32 \<le> length (AdminToken c) \<and> srv = ?service\<lparr>rs_admin := Some (\<lparr>pn_token = AdminToken c,
      pn_sum256 = sha, pn_fold = fold_table, pn_moved = moved\<rparr>, \<lparr>ps_sessions = [], ps_backend = ()\<rparr>)\<rparr>"
    using assms cc o fields tokens
    by (auto simp: New_server_def Let_def NewHandler_def split: if_splits)
  have "admin_check c = Inr ()" if "AdminAddr c \<noteq> []"
    using cc by (auto simp: check_config_def split: if_splits sum.splits)
  then have loop: "AdminAllowRemote c \<or> (\<exists>host port. SplitHostPort (AdminAddr c) = Inr (host, port)
              \<and> (host = ''localhost'' \<or> (\<exists>ip. ParseIP host = Some ip \<and> IsLoopback ip)))" if "AdminAddr c \<noteq> []"
    using that by (auto simp: admin_check_def loopback_host_iff split: if_splits sum.splits)
  have conf: "rs_config srv = with_defaults c"
    using srv by (cases "AdminAddr c = []") simp_all
  have handlers: "hs_handler h = Public_Handler \<and> hs_addr h \<noteq> []
         \<or> AdminAddr c \<noteq> [] \<and> hs_addr h = AdminAddr c \<and> hs_handler h = Admin_Handler_Of (rs_admin srv)"
    if "h \<in> set (http_servers srv src)" for h src
    using that fields(1) conf by (auto simp: http_servers_def public_server_def Let_def split: if_splits)
  show ?thesis
    using srv loop tokens managed handlers by (cases "AdminAddr c = []") auto
qed

definition guarded_config :: config where
  "guarded_config = example_config\<lparr>AdminToken := replicate 32 CHR ''t''\<rparr>"

lemma guarded_starts:
  "\<exists>srv. New_server sha id 301 (Inr empty_db) None 0 guarded_config = Inr srv"
proof -
  have "check_config guarded_config = Inr ()"
    by (simp add: check_config_def guarded_config_def example_config_def acme_check_def admin_check_def
        loopback_host_def SplitHostPort_def last_index_of_def split_finish_def)
  then show ?thesis
    by (simp add: New_server_def Let_def CountClientTokens_def with_defaults_def guarded_config_def
        example_config_def NewHandler_def second_def)
qed

theorem admin_listener_is_guarded_witness:
  "\<exists>srv P st. New_server (map of_char) id 301 (Inr empty_db) None 0 guarded_config = Inr srv
     \<and> rs_admin srv = Some (P, st) \<and> pn_token P = replicate 32 CHR ''t''"
proof -
  obtain srv where s: "New_server (map of_char) id 301 (Inr empty_db) None 0 guarded_config = Inr srv"
    using guarded_starts by blast
  have "AdminAddr guarded_config \<noteq> []" "AdminToken guarded_config = replicate 32 CHR ''t''"
    by (simp_all add: guarded_config_def example_config_def)
  with admin_listener_is_guarded [OF s] s show ?thesis by metis
qed

end
