(* ===== verification/Cmd_Tunnld.thy ===== *)
theory Cmd_Tunnld
  imports Cmd_Tunnl Admin_Client Server_Start
begin

text \<open>
  \<^verbatim>\<open>cmd/tunnld/main.go\<close> and \<^verbatim>\<open>cmd/tunnld/admin.go\<close>: the command line of the relay. Flag parsing is an argument: the
  parsed flags of the relay, and a function from a flag set's name and arguments to the values of
  its flags for the admin commands. Of the printed text only the sizes are here; the reports are in \<open>Admin_Report\<close>.
\<close>

section \<open>Environment variables\<close>

text \<open>\<open>strconv.Atoi\<close> and \<open>strconv.ParseBool\<close>.\<close>

fun digits_value :: "nat \<Rightarrow> string \<Rightarrow> nat option" where
  "digits_value acc [] = Some acc"
| "digits_value acc (c # s) =
     (if is_digit c then digits_value (acc * 10 + (ord c - 48)) s else None)"

definition atoi :: "string \<Rightarrow> int option" where
  "atoi s =
     (let neg = (s \<noteq> [] \<and> hd s = CHR ''-'');
          ds = (if s \<noteq> [] \<and> (hd s = CHR ''-'' \<or> hd s = CHR ''+'') then tl s else s)
      in if ds = [] then None
         else
           (case digits_value 0 ds of
              None \<Rightarrow> None
            | Some n \<Rightarrow>
                if neg then (if n \<le> 2 ^ 63 then Some (- int n) else None)
                else (if n < 2 ^ 63 then Some (int n) else None)))"

definition parse_bool :: "string \<Rightarrow> bool option" where
  "parse_bool s =
     (if s \<in> {''1'', ''t'', ''T'', ''true'', ''TRUE'', ''True''} then Some True
      else if s \<in> {''0'', ''f'', ''F'', ''false'', ''FALSE'', ''False''} then Some False
      else None)"

definition envInt :: "(string \<Rightarrow> string) \<Rightarrow> string \<Rightarrow> int \<Rightarrow> int" where
  "envInt getenv key fallback =
     (let v = getenv key in
      if v = [] then fallback else (case atoi v of None \<Rightarrow> fallback | Some i \<Rightarrow> i))"

definition envBool :: "(string \<Rightarrow> string) \<Rightarrow> string \<Rightarrow> bool \<Rightarrow> bool" where
  "envBool getenv key fallback =
     (let v = getenv key in
      if v = [] then fallback else (case parse_bool v of None \<Rightarrow> fallback | Some b \<Rightarrow> b))"

definition envDuration_relay ::
  "(string \<Rightarrow> string) \<Rightarrow> (string \<Rightarrow> duration option) \<Rightarrow> string \<Rightarrow> duration \<Rightarrow> duration" where
  "envDuration_relay getenv parse key fallback =
     (let v = getenv key in
      if v = [] then fallback else (case parse v of None \<Rightarrow> fallback | Some d \<Rightarrow> d))"

section \<open>The relay's command line\<close>

definition splitTokens :: "string \<Rightarrow> string list" where
  "splitTokens v = filter (\<lambda>t. t \<noteq> []) (map trim_space (split_on CHR '','' v))"

text \<open>The flags that are not fields of the server's configuration.\<close>

record relay_flags =
  rf_config :: config
  rf_auth_token :: string
  rf_auth_tokens :: string
  rf_version :: bool

definition relay_defaults ::
  "(string \<Rightarrow> string) \<Rightarrow> (string \<Rightarrow> duration option) \<Rightarrow> relay_flags" where
  "relay_defaults getenv parse =
     \<lparr>rf_config = \<lparr>HTTPAddr = envOr getenv ''TUNNL_HTTP_ADDR'' '':8080'',
        HTTPSAddr = envOr getenv ''TUNNL_HTTPS_ADDR'' '':8443'',
        QUICAddr = envOr getenv ''TUNNL_QUIC_ADDR'' '':8443'',
        BaseDomain = envOr getenv ''TUNNL_BASE_DOMAIN'' ''tunnl.at'',
        PublicPort = envInt getenv ''TUNNL_PUBLIC_PORT'' 8443,
        Database = envOr getenv ''TUNNL_DATABASE'' ''.data/tunnl.db'', AuthTokens = [],
        TrustProxyHeaders = envBool getenv ''TUNNL_TRUST_PROXY_HEADERS'' False,
        HeartbeatTimeout = envDuration_relay getenv parse ''TUNNL_HEARTBEAT_TIMEOUT'' (40 * second),
        TLSCert = getenv ''TUNNL_TLS_CERT'', TLSKey = getenv ''TUNNL_TLS_KEY'',
        ACMEEnabled = envBool getenv ''TUNNL_ACME'' False, ACMEEmail = getenv ''TUNNL_ACME_EMAIL'',
        ACMEStorage = envOr getenv ''TUNNL_ACME_STORAGE'' ''.data/acme'',
        ACMEStaging = envBool getenv ''TUNNL_ACME_STAGING'' False,
        AdminAddr = getenv ''TUNNL_ADMIN_ADDR'', AdminToken = getenv ''TUNNL_ADMIN_TOKEN'',
        AdminAllowRemote = envBool getenv ''TUNNL_ADMIN_ALLOW_REMOTE'' False,
        CloudflareAPIToken = getenv ''TUNNL_CLOUDFLARE_API_TOKEN''\<rparr>,
      rf_auth_token = getenv ''TUNNL_AUTH_TOKEN'', rf_auth_tokens = getenv ''TUNNL_AUTH_TOKENS'',
      rf_version = False\<rparr>"

definition relay_tokens :: "relay_flags \<Rightarrow> string list" where
  "relay_tokens t =
     splitTokens (rf_auth_tokens t) @ (if rf_auth_token t \<noteq> [] then [rf_auth_token t] else [])"

definition relay_config :: "relay_flags \<Rightarrow> string + config" where
  "relay_config t =
     (if relay_tokens t = [] then Inl ''TUNNL_AUTH_TOKENS or --auth-tokens is required''
      else Inr ((rf_config t)\<lparr>AuthTokens := relay_tokens t\<rparr>))"

definition healthcheck :: "(string \<Rightarrow> string) \<Rightarrow> (string \<Rightarrow> string + nat \<times> string) \<Rightarrow> string + unit" where
  "healthcheck getenv fetch =
     (case fetch (envOr getenv ''TUNNL_HEALTH_URL'' ''http://127.0.0.1:8080/_tunnl/health'') of
        Inl m \<Rightarrow> Inl m
      | Inr (code, status) \<Rightarrow>
          if code \<noteq> 200 then Inl (''health endpoint returned '' @ status) else Inr ())"

datatype mode = Health_Check | Admin_Command "string list" | Generate_Token | Relay

text \<open>\<open>args\<close> is \<open>os.Args\<close>, the program name first.\<close>

definition run_mode :: "string list \<Rightarrow> mode" where
  "run_mode args =
     (if length args > 1 \<and> args ! 1 = ''healthcheck'' then Health_Check
      else if length args > 1 \<and> args ! 1 = ''admin'' then Admin_Command (drop 2 args)
      else if length args > 1 \<and> args ! 1 = ''generate-admin-token'' then Generate_Token
      else Relay)"

section \<open>The admin commands\<close>

text \<open>\<open>flags name args\<close>: the string flags of a flag set, or the error of its parser.\<close>

datatype usage =
  No_Command
| No_Token_Command
| No_DNS_Command
| Unknown_Command string
| Unknown_Token_Command string
| Unknown_DNS_Command string
| Bad_Flags string

type_synonym flag_parser = "string \<Rightarrow> string list \<Rightarrow> string + (string \<Rightarrow> string)"

definition runAdminTokens :: "flag_parser \<Rightarrow> string list \<Rightarrow> usage + backend_call" where
  "runAdminTokens flags args =
     (case args of
        [] \<Rightarrow> Inl No_Token_Command
      | a # rest \<Rightarrow>
          if a = ''list'' then Inr Call_Tokens
          else if a = ''create'' then
            (case flags ''tunnld admin tokens create'' rest of
               Inl m \<Rightarrow> Inl (Bad_Flags m)
             | Inr v \<Rightarrow> Inr (Call_CreateToken (v ''label'')))
          else if a = ''revoke'' then
            (case flags ''tunnld admin tokens revoke'' rest of
               Inl m \<Rightarrow> Inl (Bad_Flags m)
             | Inr v \<Rightarrow> Inr (Call_RevokeToken (v ''id'')))
          else Inl (Unknown_Token_Command a))"

definition runAdminDNS :: "flag_parser \<Rightarrow> string list \<Rightarrow> usage + backend_call" where
  "runAdminDNS flags args =
     (case args of
        [] \<Rightarrow> Inl No_DNS_Command
      | a # rest \<Rightarrow>
          if a = ''show'' then Inr Call_DNS
          else if a = ''set'' then
            (case flags ''tunnld admin dns set'' rest of
               Inl m \<Rightarrow> Inl (Bad_Flags m)
             | Inr v \<Rightarrow> Inr (Call_SetDNS \<lparr>dv_provider = v ''provider'', dv_zone = v ''zone'',
                 dv_target = v ''target'', dv_credential = False, dv_updated_at = zero_time\<rparr>))
          else if a = ''reconcile'' then Inr Call_ReconcileDNS
          else Inl (Unknown_DNS_Command a))"

definition admin_call :: "flag_parser \<Rightarrow> string list \<Rightarrow> usage + backend_call" where
  "admin_call flags command =
     (case command of
        [] \<Rightarrow> Inl No_Command
      | a # rest \<Rightarrow>
          if a = ''status'' then Inr Call_Status
          else if a = ''metrics'' then Inr Call_Metrics
          else if a = ''tokens'' then runAdminTokens flags rest
          else if a = ''dns'' then runAdminDNS flags rest
          else Inl (Unknown_Command a))"

text \<open>
  \<open>runAdmin\<close> after its own flags are parsed into \<open>url\<close>, \<open>token\<close> and the rest: the errors of the
  command line, of the client's construction and of the call, or what the call returned.
\<close>

datatype admin_failure = Usage usage | Client_Error client_error

definition runAdmin ::
  "flag_parser \<Rightarrow> (string \<Rightarrow> url option) \<Rightarrow> (api_client \<Rightarrow> 's transport) \<Rightarrow> string \<Rightarrow> string \<Rightarrow> string list \<Rightarrow> 's
     \<Rightarrow> (admin_failure + reply option) \<times> 's" where
  "runAdmin flags parse_url network adminURL adminToken command s =
     (if command = [] then (Inl (Usage No_Command), s)
      else
        (case NewClient parse_url adminURL adminToken of
           Inl e \<Rightarrow> (Inl (Client_Error e), s)
         | Inr c \<Rightarrow>
             (case admin_call flags command of
                Inl m \<Rightarrow> (Inl (Usage m), s)
              | Inr call \<Rightarrow>
                  (case client_call c (network c) call s of
                     (Inl e, s') \<Rightarrow> (Inl (Client_Error e), s')
                   | (Inr r, s') \<Rightarrow> (Inr r, s')))))"

section \<open>Sizes\<close>

text \<open>
  \<open>float64(value)\<close>: round to nearest, ties to even, at 53 significant bits. Division by 1024 is
  exact, so the amount shown is the rounded value over a power of 1024.
\<close>

definition round_even :: "rat \<Rightarrow> int" where
  "round_even x =
     (let n = \<lfloor>x\<rfloor>; d = x - of_int n in
      if d < 1 / 2 then n else if d > 1 / 2 then n + 1 else if even n then n else n + 1)"

fun bit_count :: "nat \<Rightarrow> nat" where
  "bit_count n = (if n = 0 then 0 else Suc (bit_count (n div 2)))"

declare bit_count.simps [simp del]

definition float_value :: "nat \<Rightarrow> int" where
  "float_value v =
     (let s = bit_count v - 53 in round_even (of_nat v / 2 ^ s) * 2 ^ s)"

definition byte_units :: "string list" where
  "byte_units = [''B'', ''KiB'', ''MiB'', ''GiB'', ''TiB'']"

text \<open>The loop: divide while the amount is at least 1024 and a larger unit is left.\<close>

fun scale :: "nat \<Rightarrow> nat \<Rightarrow> rat \<Rightarrow> nat \<times> rat" where
  "scale 0 unit amount = (unit, amount)"
| "scale (Suc n) unit amount =
     (if amount \<ge> 1024 then scale n (Suc unit) (amount / 1024) else (unit, amount))"

text \<open>\<open>%.1f\<close> of a value that is not negative: ties go to the even digit.\<close>

definition one_decimal :: "rat \<Rightarrow> string" where
  "one_decimal x = (let t = nat (round_even (x * 10)) in nat_to_dec (t div 10) @ ''.'' @ nat_to_dec (t mod 10))"

definition formatAdminBytes :: "64 word \<Rightarrow> string" where
  "formatAdminBytes v =
     (let (unit, amount) = scale (length byte_units - 1) 0 (of_int (float_value (unat v))) in
      if unit = 0 then nat_to_dec (unat v) @ '' '' @ byte_units ! unit
      else one_decimal amount @ '' '' @ byte_units ! unit)"

section \<open>Properties\<close>

text \<open>
  The command line asks for more than the server does: without a token on the command line or in
  the environment \<open>tunnld\<close> refuses to start, although the same configuration is accepted by
  \<open>server.New\<close>, which then serves the tokens of its database and the panel.
\<close>

theorem command_needs_static_token:
  assumes "relay_tokens t = []" "rf_config t = guarded_config"
  shows "relay_config t = Inl ''TUNNL_AUTH_TOKENS or --auth-tokens is required''
    \<and> (\<exists>srv. New_server sha id 301 (Inr empty_db) None 0 ((rf_config t)\<lparr>AuthTokens := []\<rparr>) = Inr srv)"
proof -
  have "guarded_config\<lparr>AuthTokens := []\<rparr> = guarded_config"
    by (simp add: guarded_config_def example_config_def)
  then show ?thesis using assms guarded_starts by (simp add: relay_config_def)
qed

lemma bit_count_le: "n < 2 ^ k \<Longrightarrow> bit_count n \<le> k"
proof (induction k arbitrary: n)
  case 0
  then show ?case by (simp add: bit_count.simps)
next
  case (Suc k)
  then have "bit_count (n div 2) \<le> k" by (intro Suc.IH) simp
  then show ?case by (subst bit_count.simps) simp
qed

lemma round_even_of_int [simp]: "round_even (of_int i) = i"
  by (simp add: round_even_def)

text \<open>Below \<open>2 ^ 53\<close> the conversion to \<open>float64\<close> is exact.\<close>

lemma float_value_exact: "v < 2 ^ 53 \<Longrightarrow> float_value v = int v"
  using bit_count_le [of v 53] round_even_of_int [of "int v"] by (simp add: float_value_def)

text \<open>A size just below a unit is shown as 1024 of the smaller one.\<close>

lemma format_rounds_up: "formatAdminBytes (1048575 :: 64 word) = ''1024.0 KiB''"
proof -
  have f: "float_value 1048575 = 1048575" by (simp add: float_value_exact)
  have fl: "\<lfloor>(5242875 / 512 :: rat)\<rfloor> = 10239" by (rule floor_unique) simp_all
  have "round_even (5242875 / 512) = 10240" by (simp add: round_even_def Let_def fl)
  then have d: "one_decimal (1048575 / 1024) = ''1024.0''"
    by (simp add: one_decimal_def Let_def nat_to_dec.simps go_simps)
  have "scale (length byte_units - 1) 0 1048575 = (1, 1048575 / 1024)"
    by (simp add: byte_units_def)
  then show ?thesis
    by (simp add: formatAdminBytes_def f d byte_units_def)
qed

end
