(* ===== verification/End_To_End.thy ===== *)
theory End_To_End
  imports Cmd_Tunnl Tunnel_Properties
begin

text \<open>
  The client's reconnect loop against the relay's handshake: which refusals end the client, and
  what reaches it when the relay's database fails.
\<close>

section \<open>Refusals end the loop\<close>

text \<open>A round in which the relay answered the hello with \<open>w\<close>.\<close>

definition answered :: "round \<Rightarrow> Welcome \<Rightarrow> bool" where
  "answered r w \<longleftrightarrow> rn_dial (ro_run r) = None \<and> rn_open (ro_run r) = None \<and> rn_send (ro_run r) = None
     \<and> rn_welcome (ro_run r) = Inr w \<and> \<not> ro_cancelled r"

lemma rejection_text: "is_rejection (''relay rejected tunnel: '' @ m)"
  unfolding is_rejection_def by (rule contains_prefix) (simp add: has_prefix_def)

lemma rejected_round:
  assumes "New c = Inr c" "answered r (refusal m)"
  shows "reconnect c (r # rs) delay f = (Some (Failed (''relay rejected tunnel: '' @ m)), [], f)"
  using assms rejection_text [of m]
  by (simp add: answered_def Run_def Let_def refusal_def)

text \<open>Every answer a handshake step sends is a refusal or the welcome of the registered session.\<close>

section \<open>Properties\<close>

text \<open>
  C28: a failing database turns clients away for good: when the statement that looks up a token
  fails, the relay answers a client whose token is not one of the static ones, issued or not, with
  the refusal \<open>authentication failed\<close>, and the client, which reconnects after every other failure,
  ends with that error without waiting for another attempt.
\<close>

theorem database_fault_ends_client:
  assumes "x_err e = Some m" "\<forall>t \<in> set (AuthTokens (cfg P)). \<not> constantTimeEqual P (h_token h) t"
    and "New c = Inr c" "answered r (refusal ''authentication failed'')"
  shows "w_sent (on_authenticate P conn h addr e w) = w_sent w @ [(conn, refusal ''authentication failed'')]
    \<and> w_db (on_authenticate P conn h addr e w) = w_db w
    \<and> reconnect c (r # rs) delay f
        = (Some (Failed ''relay rejected tunnel: authentication failed''), [], f)"
proof -
  have "fold (\<lambda>candidate valid. if constantTimeEqual P (h_token h) candidate then True else valid) ts False = False"
    if "\<forall>t \<in> set ts. \<not> constantTimeEqual P (h_token h) t" for ts
    using that by (induction ts) simp_all
  with assms(1,2) have "authenticate P e (h_token h) (w_db w) = (False, w_db w)"
    by (simp add: authenticate_def AuthenticateClientToken_def)
  then show ?thesis
    using rejected_round [OF assms(3,4), of rs delay f]
    by (simp add: on_authenticate_def act_defs)
qed

lemma example_answered:
  "answered (example_round None (Inr (refusal ''authentication failed''))) (refusal ''authentication failed'')"
  by (simp add: answered_def example_round_def)

theorem database_fault_ends_client_witness:
  "hashToken example_relay ''secret'' \<in> accepted (w_db connected_world)
   \<and> w_sent (on_authenticate example_relay 9 example_hello ''b'' (quiet_exec\<lparr>x_err := Some ''database is locked''\<rparr>)
       connected_world) = w_sent connected_world @ [(9, refusal ''authentication failed'')]
   \<and> fst (reconnect example_client [example_round None (Inr (refusal ''authentication failed''))] second Map.empty)
     = Some (Failed ''relay rejected tunnel: authentication failed'')"
proof -
  let ?e = "quiet_exec\<lparr>x_err := Some ''database is locked''\<rparr>"
  have "hashToken example_relay ''secret'' \<in> accepted (w_db connected_world)"
    by (simp add: example_hash accepted_def connected_world_def example_db2_def)
  moreover have "x_err ?e = Some ''database is locked''" by (simp add: quiet_exec_def)
  moreover have "\<forall>t \<in> set (AuthTokens (cfg example_relay)). \<not> constantTimeEqual example_relay (h_token example_hello) t"
    by (simp add: example_relay_def example_config_def)
  ultimately show ?thesis
    using database_fault_ends_client [OF _ _ example_client_ok example_answered, of ?e "''database is locked''"
      example_relay example_hello 9 "''b''" connected_world "[]" second Map.empty] by simp
qed

end
