(* ===== verification/Dns_Convergence.thy ===== *)
theory Dns_Convergence
  imports Cloudflare Http_Server
begin

text \<open>
  What a reconciliation does to the zone. \<^verbatim>\<open>internal/dns/cloudflare.go\<close> sees the service only
  through its answers; here the service is assumed to do what its documentation says of the three
  kinds of call the code makes, and the effect of \<open>upsertRecord\<close> and \<open>Reconcile\<close> on the records
  of the zone follows, also for calls whose answer is lost.
\<close>

section \<open>Paths name their zone and records\<close>

definition plus_decode :: "string \<Rightarrow> string" where
  "plus_decode s = map (\<lambda>c. if c = CHR ''+'' then CHR '' '' else c) s"

lemma percent_plain: "CHR ''+'' \<notin> set (percent c)" "CHR ''&'' \<notin> set (percent c)"
proof -
  have "list_all (\<lambda>d. d \<noteq> CHR ''+'' \<and> d \<noteq> CHR ''&'') ''0123456789ABCDEF''" by simp
  from list_all_nth_mod [OF this] have "n < 16 \<Longrightarrow>
      ''0123456789ABCDEF'' ! n \<noteq> CHR ''+'' \<and> ''0123456789ABCDEF'' ! n \<noteq> CHR ''&''" for n
    using nth_mem [of n "''0123456789ABCDEF''"] by auto
  from this [OF ord_div_16 [of c]] this [of "ord c mod 16"]
  show "CHR ''+'' \<notin> set (percent c)" "CHR ''&'' \<notin> set (percent c)"
    by (auto simp: percent_def simp del: nth_Cons_numeral)
qed

lemma query_escape_plain: "CHR ''&'' \<notin> set (query_escape s)"
  using percent_plain(2) by (auto simp: query_escape_def unreserved_char_def split: if_splits)

lemma plus_decode_percent: "plus_decode (percent c) = percent c"
  using percent_plain(1) [of c] unfolding plus_decode_def by (intro map_idI) auto

lemma query_unescape: "unescape (plus_decode (query_escape s)) = Some s"
proof (induction s)
  case Nil
  then show ?case by (simp add: query_escape_def plus_decode_def)
next
  case (Cons c s)
  have step: "plus_decode (query_escape (c # s)) =
      (if unreserved_char c \<or> c = CHR '' '' then [c] else percent c) @ plus_decode (query_escape s)"
    using plus_decode_percent [of c]
    by (auto simp: query_escape_def plus_decode_def unreserved_char_def)
  have "ord c \<noteq> 37" if "unreserved_char c \<or> c = CHR '' ''"
    using that by (auto simp: unreserved_char_def)
  with Cons show ?case unfolding step by (simp add: unescape_percent)
qed

lemma query_escape_inject: "query_escape a = query_escape b \<longleftrightarrow> a = b"
  by (metis query_unescape option.inject)

lemma path_escape_eq_iff: "path_escape a = path_escape b \<longleftrightarrow> a = b"
  by (metis unescape_escape option.inject)

lemma list_path_inject: "list_path zid ty name = list_path zid ty' name' \<longleftrightarrow> ty = ty' \<and> name = name'"
proof
  assume "list_path zid ty name = list_path zid ty' name'"
  then have e: "query_escape ty @ CHR ''&'' # ''name='' @ query_escape name
      = query_escape ty' @ CHR ''&'' # ''name='' @ query_escape name'"
    by (simp add: list_path_def)
  have "CHR ''&'' \<notin> set (query_escape t)" "CHR ''&'' \<notin> set (''name='' @ query_escape t)" for t
    using query_escape_plain [of t] by simp_all
  from e append_Cons_eq_iff [OF this] show "ty = ty' \<and> name = name'"
    by (simp add: query_escape_inject)
qed simp

section \<open>A service that does what it documents\<close>

definition record_key :: "string \<Rightarrow> string \<Rightarrow> dns_record \<Rightarrow> bool" where
  "record_key ty name r \<longleftrightarrow> dr_type r = ty \<and> dr_name r = name"

definition managed :: "dns_record \<Rightarrow> bool" where
  "managed r \<longleftrightarrow> dr_comment r = managedComment"

text \<open>The record a request body describes.\<close>

definition describes :: "record_body \<Rightarrow> dns_record \<Rightarrow> bool" where
  "describes b r \<longleftrightarrow> record_key (rb_type b) (rb_name b) r \<and> dr_content r = rb_content b
     \<and> dr_comment r = rb_comment b"

definition added :: "record_body \<Rightarrow> dns_record list \<Rightarrow> dns_record list \<Rightarrow> bool" where
  "added b rs rs' \<longleftrightarrow> (\<exists>r. describes b r \<and> dr_id r \<notin> dr_id ` set rs \<and> rs' = rs @ [r])"

definition replaced :: "string \<Rightarrow> record_body \<Rightarrow> dns_record list \<Rightarrow> dns_record list \<Rightarrow> bool" where
  "replaced i b rs rs' \<longleftrightarrow>
     (\<exists>r. describes b r \<and> dr_id r = i \<and> rs' = map (\<lambda>q. if dr_id q = i then r else q) rs)"

text \<open>
  \<open>recs\<close> reads the records of the zone off the service's state. A \<open>GET\<close> changes none of them; a
  good answer lists the zone or exactly the records of the asked type and name; a \<open>POST\<close> adds the
  described record under a new identifier and a \<open>PUT\<close> replaces the record it names, or the call
  has no effect and is not confirmed. A call that took effect need not be confirmed.
\<close>

definition documented_service :: "'s api \<Rightarrow> string \<Rightarrow> ('s \<Rightarrow> dns_record list) \<Rightarrow> bool" where
  "documented_service api zid recs \<longleftrightarrow>
     (\<forall>c s reply s'. api c s = (reply, s') \<longrightarrow>
        (ac_method c = ''GET'' \<longrightarrow> recs s' = recs s)
        \<and> (\<forall>z. ac_method c = ''GET'' \<longrightarrow> good_answer as_zones [z] reply \<longrightarrow> ze_id z = zid)
        \<and> (\<forall>ty name rs. ac_method c = ''GET'' \<longrightarrow> ac_path c = list_path zid ty name \<longrightarrow>
             good_answer as_records rs reply \<longrightarrow> rs = filter (record_key ty name) (recs s))
        \<and> (\<forall>b. ac_method c = ''POST'' \<longrightarrow> ac_path c = records_path zid \<longrightarrow> ac_body c = Some b \<longrightarrow>
             added b (recs s) (recs s') \<or> recs s' = recs s \<and> (\<forall>x. \<not> good_answer as_record x reply))
        \<and> (\<forall>b i. ac_method c = ''PUT'' \<longrightarrow> ac_path c = records_path zid @ ''/'' @ path_escape i \<longrightarrow>
             ac_body c = Some b \<longrightarrow>
             replaced i b (recs s) (recs s') \<or> recs s' = recs s \<and> (\<forall>x. \<not> good_answer as_record x reply)))"

lemma service_get:
  assumes "documented_service api zid recs"
    and "api \<lparr>ac_auth = a, ac_method = ''GET'', ac_path = p, ac_body = b\<rparr> s = (reply, s')"
  shows "recs s' = recs s" "good_answer as_zones [z] reply \<Longrightarrow> ze_id z = zid"
    "p = list_path zid ty name \<Longrightarrow> good_answer as_records rs reply
       \<Longrightarrow> rs = filter (record_key ty name) (recs s)"
  using assms by (fastforce simp: documented_service_def)+

lemma service_post:
  assumes "documented_service api zid recs"
    and "api \<lparr>ac_auth = a, ac_method = ''POST'', ac_path = records_path zid, ac_body = Some b\<rparr> s = (reply, s')"
  shows "added b (recs s) (recs s') \<or> recs s' = recs s \<and> (\<forall>x. \<not> good_answer as_record x reply)"
  using assms by (fastforce simp: documented_service_def)

lemma service_put:
  assumes "documented_service api zid recs"
    and "api \<lparr>ac_auth = a, ac_method = ''PUT'', ac_path = records_path zid @ ''/'' @ path_escape i,
           ac_body = Some b\<rparr> s = (reply, s')"
  shows "replaced i b (recs s) (recs s') \<or> recs s' = recs s \<and> (\<forall>x. \<not> good_answer as_record x reply)"
  using assms by (fastforce simp: documented_service_def)

section \<open>The effect of one upsert\<close>

inductive upserted :: "record_body \<Rightarrow> dns_record list \<Rightarrow> dns_record list \<Rightarrow> bool" where
  Created: "filter (record_key (rb_type b) (rb_name b)) rs = [] \<Longrightarrow> added b rs rs' \<Longrightarrow> upserted b rs rs'"
| Updated: "filter (record_key (rb_type b) (rb_name b)) rs = [r] \<Longrightarrow> managed r
     \<Longrightarrow> replaced (dr_id r) b rs rs' \<Longrightarrow> upserted b rs rs'"

inductive_cases upsertedE: "upserted b rs rs'"

text \<open>The records an upsert of this body may not touch.\<close>

definition foreign :: "record_body \<Rightarrow> dns_record \<Rightarrow> bool" where
  "foreign b r \<longleftrightarrow> \<not> record_key (rb_type b) (rb_name b) r \<or> \<not> managed r"

lemma filter_update:
  assumes "\<And>q. q \<in> set rs \<Longrightarrow> f q \<Longrightarrow> \<not> P q" "\<not> P r"
  shows "filter P (map (\<lambda>q. if f q then r else q) rs) = filter P rs"
  using assms by (induction rs) auto

lemma unique_id:
  "distinct (map dr_id rs) \<Longrightarrow> r \<in> set rs \<Longrightarrow> q \<in> set rs \<Longrightarrow> dr_id q = dr_id r \<Longrightarrow> q = r"
  by (metis distinct_map inj_onD)

lemma upserted_keeps:
  assumes "upserted b rs rs'" "distinct (map dr_id rs)" "rb_comment b = managedComment"
  shows "distinct (map dr_id rs')" "filter (foreign b) rs' = filter (foreign b) rs"
    "\<exists>r. filter (record_key (rb_type b) (rb_name b)) rs' = [r] \<and> describes b r"
proof -
  have own: "\<not> foreign b r \<and> record_key (rb_type b) (rb_name b) r" if "describes b r" for r
    using that assms(3) by (simp add: foreign_def describes_def managed_def)
  have "distinct (map dr_id rs') \<and> filter (foreign b) rs' = filter (foreign b) rs
    \<and> (\<exists>r. filter (record_key (rb_type b) (rb_name b)) rs' = [r] \<and> describes b r)"
    using assms(1)
  proof (cases rule: upserted.cases)
    case Created
    then show ?thesis using own assms(2) by (auto simp: added_def)
  next
    case (Updated q)
    then obtain r where r: "describes b r" "dr_id r = dr_id q"
      "rs' = map (\<lambda>x. if dr_id x = dr_id q then r else x) rs"
      by (auto simp: replaced_def)
    have q: "q \<in> set rs" "record_key (rb_type b) (rb_name b) q"
      using Updated(1) by (auto simp: filter_eq_Cons_iff)
    have only: "x = q" if "x \<in> set rs" "dr_id x = dr_id q" for x
      using unique_id [OF assms(2) q(1)] that by blast
    have "map dr_id rs' = map dr_id rs" using r(2,3) by (auto simp: o_def)
    moreover have "filter (foreign b) rs' = filter (foreign b) rs"
      unfolding r(3) using only q(2) Updated(2) own [OF r(1)]
      by (intro filter_update) (auto simp: foreign_def)
    moreover have "filter (record_key (rb_type b) (rb_name b)) rs' = [r]"
    proof -
      have "rs' = map (\<lambda>x. if x = q then r else x) rs"
        unfolding r(3) using only by (intro map_cong) auto
      moreover have "filter (record_key (rb_type b) (rb_name b)) (map (\<lambda>x. if x = q then r else x) xs)
          = map (\<lambda>x. if x = q then r else x) (filter (record_key (rb_type b) (rb_name b)) xs)" for xs
        using q(2) own [OF r(1)] by (induction xs) auto
      ultimately show ?thesis using Updated(1) by simp
    qed
    ultimately show ?thesis using assms(2) r(1) by simp
  qed
  then show "distinct (map dr_id rs')" "filter (foreign b) rs' = filter (foreign b) rs"
    "\<exists>r. filter (record_key (rb_type b) (rb_name b)) rs' = [r] \<and> describes b r" by blast+
qed

lemma filter_subset:
  assumes "filter P xs = filter P ys" "\<And>x. Q x \<Longrightarrow> P x"
  shows "filter Q xs = filter Q ys"
proof -
  have "filter Q zs = filter Q (filter P zs)" for zs
    using assms(2) by (induction zs) auto
  with assms(1) show ?thesis by metis
qed

lemma upsert_effect:
  assumes law: "documented_service api zid recs"
    and run: "upsertRecord api tk zid ty name target proxied st = (r, st')"
  shows "upserted (managed_body ty name target proxied) (recs (remote st)) (recs (remote st'))
    \<or> recs (remote st') = recs (remote st) \<and> \<not> is_ok r"
proof (rule call_api_cases [of as_records api tk "''GET''" "list_path zid ty name" None st])
  fix err reply r'
  assume "call_api api tk as_records ''GET'' (list_path zid ty name) None st = (Inl err, st\<lparr>remote := r',
      calls := calls st @ [(\<lparr>ac_auth = bearer tk, ac_method = ''GET'', ac_path = list_path zid ty name, ac_body = None\<rparr>, reply)]\<rparr>)"
    "api \<lparr>ac_auth = bearer tk, ac_method = ''GET'', ac_path = list_path zid ty name, ac_body = None\<rparr> (remote st) = (reply, r')"
  with run service_get(1) [OF law] show ?thesis by (auto simp: upsertRecord_def)
next
  fix listed and reply :: api_reply and r'
  let ?b = "managed_body ty name target proxied"
  let ?st1 = "st\<lparr>remote := r', calls := calls st @ [(\<lparr>ac_auth = bearer tk, ac_method = ''GET'',
      ac_path = list_path zid ty name, ac_body = None\<rparr>, reply)]\<rparr>"
  assume good: "good_answer as_records listed reply"
    and G: "call_api api tk as_records ''GET'' (list_path zid ty name) None st = (Inr listed, ?st1)"
    and A: "api \<lparr>ac_auth = bearer tk, ac_method = ''GET'', ac_path = list_path zid ty name, ac_body = None\<rparr> (remote st) = (reply, r')"
  note same = service_get(1) [OF law A]
  have listed: "listed = filter (record_key ty name) (recs (remote st))"
    by (rule service_get(3) [OF law A refl good])
  have key: "record_key (rb_type ?b) (rb_name ?b) = record_key ty name" by (simp add: managed_body_def)
  have written: "E (recs (remote st)) (recs (remote st')) \<or> recs (remote st') = recs (remote st) \<and> \<not> is_ok r"
    if w: "(case call_api api tk as_record m p (Some ?b) ?st1 of
            (Inl err, st2) \<Rightarrow> (Inl (Reconcile_Failed name err), st2) | (Inr _, st2) \<Rightarrow> (Inr (), st2)) = (r, st')"
      and law': "\<And>s reply s'. api \<lparr>ac_auth = bearer tk, ac_method = m, ac_path = p, ac_body = Some ?b\<rparr> s = (reply, s')
        \<Longrightarrow> E (recs s) (recs s') \<or> recs s' = recs s \<and> (\<forall>x. \<not> good_answer as_record x reply)" for E m p
    by (rule call_api_cases [of as_record api tk m p "Some ?b" ?st1])
      (use w in \<open>auto simp: same [symmetric] dest!: law'\<close>)
  consider (none) "listed = []" | (own) q where "listed = [q]" "managed q"
    | (refused) "\<exists>q qs. listed = q # qs \<and> (qs \<noteq> [] \<or> \<not> managed q)"
    by (cases listed; cases "tl listed") auto
  then show ?thesis
  proof cases
    case none
    with run G have "(case call_api api tk as_record ''POST'' (records_path zid) (Some ?b) ?st1 of
        (Inl err, st2) \<Rightarrow> (Inl (Reconcile_Failed name err), st2) | (Inr _, st2) \<Rightarrow> (Inr (), st2)) = (r, st')"
      by (simp add: upsertRecord_def Let_def)
    note w = written [where E = "added ?b", OF this service_post [OF law]]
    from w none listed key show ?thesis by (auto intro: upserted.Created)
  next
    case (own q)
    with run G have "(case call_api api tk as_record ''PUT'' (records_path zid @ ''/'' @ path_escape (dr_id q))
          (Some ?b) ?st1 of
        (Inl err, st2) \<Rightarrow> (Inl (Reconcile_Failed name err), st2) | (Inr _, st2) \<Rightarrow> (Inr (), st2)) = (r, st')"
      by (simp add: upsertRecord_def Let_def managed_def)
    note w = written [where E = "replaced (dr_id q) ?b", OF this service_put [OF law]]
    from w own listed key show ?thesis by (auto intro: upserted.Updated)
  next
    case refused
    with run G have "st' = ?st1 \<and> \<not> is_ok r"
      by (auto simp: upsertRecord_def Let_def managed_def split: list.splits)
    with same show ?thesis by simp
  qed
qed

section \<open>The effect of a reconciliation\<close>

text \<open>The records a reconciliation of this family and base domain may not touch.\<close>

definition elsewhere :: "string \<Rightarrow> string \<Rightarrow> dns_record \<Rightarrow> bool" where
  "elsewhere ty base r \<longleftrightarrow> \<not> managed r \<or> dr_type r \<noteq> ty \<or> dr_name r \<notin> fst ` set (relay_records base)"

lemma managed_foreign:
  "foreign (managed_body ty name target proxied) r \<longleftrightarrow> dr_type r \<noteq> ty \<or> dr_name r \<noteq> name \<or> \<not> managed r"
  by (auto simp: foreign_def record_key_def managed_body_def)

text \<open>One upsert of a relay record, seen from both names.\<close>

lemma relay_upsert:
  assumes "documented_service api zid recs" "distinct (map dr_id (recs (remote st)))"
    and "(name, proxied) \<in> set (relay_records base)"
    and "upsertRecord api tk zid ty name target proxied st = (r, st')"
  shows "distinct (map dr_id (recs (remote st')))"
    "filter (elsewhere ty base) (recs (remote st')) = filter (elsewhere ty base) (recs (remote st))"
    "name' \<noteq> name \<Longrightarrow> filter (record_key ty name') (recs (remote st')) = filter (record_key ty name') (recs (remote st))"
    "recs (remote st') = recs (remote st) \<and> \<not> is_ok r
     \<or> (\<exists>rec. filter (record_key ty name) (recs (remote st')) = [rec] \<and> dr_content rec = target \<and> managed rec)"
proof -
  let ?b = "managed_body ty name target proxied"
  from upsert_effect [OF assms(1,4)] consider
    (same) "recs (remote st') = recs (remote st)" "\<not> is_ok r"
    | (done_) "upserted ?b (recs (remote st)) (recs (remote st'))" by blast
  then have "distinct (map dr_id (recs (remote st')))
    \<and> filter (elsewhere ty base) (recs (remote st')) = filter (elsewhere ty base) (recs (remote st))
    \<and> (name' \<noteq> name \<longrightarrow> filter (record_key ty name') (recs (remote st')) = filter (record_key ty name') (recs (remote st)))
    \<and> (recs (remote st') = recs (remote st) \<and> \<not> is_ok r
       \<or> (\<exists>rec. filter (record_key ty name) (recs (remote st')) = [rec] \<and> dr_content rec = target \<and> managed rec))"
  proof cases
    case done_
    have c: "rb_comment ?b = managedComment" by (simp add: managed_body_def)
    note k = upserted_keeps [OF done_ assms(2) c]
    have "filter (elsewhere ty base) (recs (remote st')) = filter (elsewhere ty base) (recs (remote st))"
      using assms(3) by (intro filter_subset [OF k(2)]) (force simp: managed_foreign elsewhere_def)
    moreover have "filter (record_key ty name') (recs (remote st')) = filter (record_key ty name') (recs (remote st))"
      if "name' \<noteq> name"
      using that by (intro filter_subset [OF k(2)]) (simp add: managed_foreign record_key_def)
    moreover obtain rec where "filter (record_key ty name) (recs (remote st')) = [rec]"
        "dr_content rec = target" "managed rec"
      using k(3) by (auto simp: managed_body_def describes_def managed_def)
    ultimately show ?thesis using k(1) by blast
  qed (use assms(2) in simp)
  then show "distinct (map dr_id (recs (remote st')))"
    "filter (elsewhere ty base) (recs (remote st')) = filter (elsewhere ty base) (recs (remote st))"
    "name' \<noteq> name \<Longrightarrow> filter (record_key ty name') (recs (remote st')) = filter (record_key ty name') (recs (remote st))"
    "recs (remote st') = recs (remote st) \<and> \<not> is_ok r
     \<or> (\<exists>rec. filter (record_key ty name) (recs (remote st')) = [rec] \<and> dr_content rec = target \<and> managed rec)"
    by blast+
qed

lemma zone_effect:
  assumes "documented_service api zid recs" "zoneID sf api tk zone st = (z, st1)"
  shows "recs (remote st1) = recs (remote st)" "z = Inr i \<Longrightarrow> i = zid"
proof -
  let ?p = "''/zones?name='' @ query_escape zone"
  have "recs (remote st1) = recs (remote st) \<and> (z = Inr i \<longrightarrow> i = zid)"
  proof (rule call_api_cases [of as_zones api tk "''GET''" ?p None st])
    fix err reply r
    assume "call_api api tk as_zones ''GET'' ?p None st = (Inl err, st\<lparr>remote := r,
        calls := calls st @ [(\<lparr>ac_auth = bearer tk, ac_method = ''GET'', ac_path = ?p, ac_body = None\<rparr>, reply)]\<rparr>)"
      "api \<lparr>ac_auth = bearer tk, ac_method = ''GET'', ac_path = ?p, ac_body = None\<rparr> (remote st) = (reply, r)"
    with assms(2) service_get(1) [OF assms(1)] show ?thesis by (auto simp: zoneID_def)
  next
    fix zs and reply :: api_reply and r
    assume g: "good_answer as_zones zs reply"
      and c: "call_api api tk as_zones ''GET'' ?p None st = (Inr zs, st\<lparr>remote := r,
        calls := calls st @ [(\<lparr>ac_auth = bearer tk, ac_method = ''GET'', ac_path = ?p, ac_body = None\<rparr>, reply)]\<rparr>)"
      and a: "api \<lparr>ac_auth = bearer tk, ac_method = ''GET'', ac_path = ?p, ac_body = None\<rparr> (remote st) = (reply, r)"
    have "ze_id x = zid" if "zs = [x]" for x
      using service_get(2) [OF assms(1) a] g that by blast
    with assms(2) c service_get(1) [OF assms(1) a] show ?thesis
      by (auto simp: zoneID_def split: list.splits if_splits)
  qed
  then show "recs (remote st1) = recs (remote st)" "z = Inr i \<Longrightarrow> i = zid" by blast+
qed

definition settled :: "string \<Rightarrow> string \<Rightarrow> string \<Rightarrow> dns_record list \<Rightarrow> bool" where
  "settled ty name target rs \<longleftrightarrow>
     (\<exists>rec. filter (record_key ty name) rs = [rec] \<and> dr_content rec = target \<and> managed rec)"

text \<open>A reconciliation of an accepted target: nothing, the first upsert, or both.\<close>

lemma reconcile_effect:
  assumes law: "documented_service api zid recs" and ids: "distinct (map dr_id (recs (remote st)))"
    and ip: "ParseIP (trim_space target0) = Some ip"
    and run: "Reconcile ul sf api token zone0 base0 target0 st = (r, st')"
  defines "ty \<equiv> fst (record_target ip)" and "target \<equiv> snd (record_target ip)"
    and "base \<equiv> clean_domain ul base0"
  shows "recs (remote st') = recs (remote st) \<and> \<not> is_ok r
    \<or> (\<exists>sta u st2 v. recs (remote sta) = recs (remote st)
        \<and> upsertRecord api token zid ty (''*.'' @ base) target True sta = (u, st2)
        \<and> (if is_ok u then upsertRecord api token zid ty (''relay.'' @ base) target False st2 = (v, st') \<and> r = v
           else st' = st2 \<and> \<not> is_ok r))"
proof -
  let ?zone = "clean_domain ul zone0"
  have pair: "record_target ip = (ty, target)" by (simp add: ty_def target_def)
  obtain z st1 where Z: "zoneID sf api token ?zone st = (z, st1)" by fastforce
  note zone = zone_effect [OF law Z]
  show ?thesis
  proof (cases "token \<noteq> [] \<and> in_zone base ?zone")
    case False
    with run base_def show ?thesis by (cases "token = []") (auto simp: Reconcile_def)
  next
    case ok: True
    show ?thesis
    proof (cases z)
      case (Inl err)
      with ok run Z ip base_def zone(1) show ?thesis
        by (auto simp: Reconcile_def Let_def split: prod.splits)
    next
      case (Inr i)
      obtain u st2 where U: "upsertRecord api token zid ty (''*.'' @ base) target True st1 = (u, st2)" by fastforce
      with ok run Z ip base_def Inr zone(2) have "(case u of Inl err \<Rightarrow> (Inl err, st2)
          | Inr _ \<Rightarrow> upsertRecord api token zid ty (''relay.'' @ base) target False st2) = (r, st')"
        by (auto simp: Reconcile_def Let_def pair)
      with U zone(1) show ?thesis by (cases u) auto
    qed
  qed
qed

text \<open>A zone with a record of somebody else and a wildcard record of an earlier target.\<close>

definition service_answer :: "dns_record list \<Rightarrow> api_reply" where
  "service_answer rs = Answer 200 ''200 OK'' (Inr \<lparr>as_zones = Some [\<lparr>ze_id = ''z1'', ze_name = ''tunnl.at''\<rparr>],
     as_records = Some rs, as_record = Some \<lparr>dr_id = ''x'', dr_type = ''A'', dr_name = ''n'',
       dr_content = ''c'', dr_comment = managedComment\<rparr>, en_success = True, en_errors = []\<rparr>)"

definition record_of :: "string \<Rightarrow> record_body \<Rightarrow> dns_record" where
  "record_of i b = \<lparr>dr_id = i, dr_type = rb_type b, dr_name = rb_name b, dr_content = rb_content b,
     dr_comment = rb_comment b\<rparr>"

definition example_service :: "dns_record list api" where
  "example_service c s =
     (if ac_method c = ''GET''
      then (service_answer (filter (\<lambda>r. list_path ''z1'' (dr_type r) (dr_name r) = ac_path c) s), s)
      else case ac_body c of
        None \<Rightarrow> (No_Response ''EOF'', s)
      | Some b \<Rightarrow>
          (if ac_method c = ''POST'' \<and> ac_path c = records_path ''z1''
           then (service_answer [], s @ [record_of (CHR ''x'' # concat (map dr_id s)) b])
           else (service_answer [], map (\<lambda>q. if ac_path c = records_path ''z1'' @ ''/'' @ path_escape (dr_id q)
                                             then record_of (dr_id q) b else q) s)))"

lemma fresh_id: "CHR ''x'' # concat (map dr_id s) \<notin> dr_id ` set s"
proof
  assume "CHR ''x'' # concat (map dr_id s) \<in> dr_id ` set s"
  then obtain r where "r \<in> set s" "dr_id r = CHR ''x'' # concat (map dr_id s)" by auto
  moreover from this(1) have "length (dr_id r) \<le> length (concat (map dr_id s))"
    by (induction s) auto
  ultimately show False by simp
qed

lemma example_service_documented: "documented_service example_service ''z1'' id"
proof -
  have "replaced i b s (map (\<lambda>q. if path_escape i = path_escape (dr_id q) then record_of (dr_id q) b else q) s)"
    for i b and s :: "dns_record list"
    by (auto simp: replaced_def describes_def record_key_def record_of_def path_escape_eq_iff
        intro!: exI [of _ "record_of i b"])
  moreover have "added b s (s @ [record_of (CHR ''x'' # concat (map dr_id s)) b])" for b s
    using fresh_id [of s] by (simp add: added_def describes_def record_key_def record_of_def)
  moreover have "record_key ty name = (\<lambda>r. dr_type r = ty \<and> dr_name r = name)" for ty name
    by (simp add: fun_eq_iff record_key_def)
  ultimately show ?thesis
    by (auto simp: documented_service_def example_service_def service_answer_def good_answer_def
        list_path_inject split: option.splits if_splits)
qed

definition example_zone :: "dns_record list" where
  "example_zone =
     [\<lparr>dr_id = ''r1'', dr_type = ''A'', dr_name = ''www.tunnl.at'', dr_content = ''198.51.100.7'', dr_comment = []\<rparr>,
      \<lparr>dr_id = ''r2'', dr_type = ''A'', dr_name = ''*.tunnl.at'', dr_content = ''198.51.100.8'', dr_comment = managedComment\<rparr>]"

section \<open>Properties\<close>

text \<open>
  C24: reconciliation against a service that does what it documents, for a target that parses:
  whatever calls fail or lose their answer, records of others (unmanaged, of another type or of
  another name) are exactly as before and neither relay record is ever duplicated; and when it
  reports success, the zone holds exactly one record of the target's family for the wildcard and
  one for the relay name, both managed and both pointing at the target.
\<close>

theorem reconcile_converges:
  assumes "documented_service api zid recs" "distinct (map dr_id (recs (remote st)))"
    and "ParseIP (trim_space target0) = Some ip"
    and "Reconcile ul sf api token zone0 base0 target0 st = (r, st')"
  shows "filter (elsewhere (fst (record_target ip)) (clean_domain ul base0)) (recs (remote st'))
      = filter (elsewhere (fst (record_target ip)) (clean_domain ul base0)) (recs (remote st))
    \<and> (\<forall>name \<in> {''*.'' @ clean_domain ul base0, ''relay.'' @ clean_domain ul base0}.
        length (filter (record_key (fst (record_target ip)) name) (recs (remote st')))
          \<le> max 1 (length (filter (record_key (fst (record_target ip)) name) (recs (remote st))))
        \<and> (is_ok r \<longrightarrow> settled (fst (record_target ip)) name (snd (record_target ip)) (recs (remote st'))))"
proof -
  let ?ty = "fst (record_target ip)" and ?target = "snd (record_target ip)" and ?base = "clean_domain ul base0"
  have names: "(''*.'' @ ?base, True) \<in> set (relay_records ?base)"
    "(''relay.'' @ ?base, False) \<in> set (relay_records ?base)" "''relay.'' @ ?base \<noteq> ''*.'' @ ?base"
    by (simp_all add: relay_records_def)
  from reconcile_effect [OF assms] show ?thesis
  proof (elim disjE exE conjE)
    fix sta u st2 v
    assume same: "recs (remote sta) = recs (remote st)"
      and U: "upsertRecord api token zid ?ty (''*.'' @ ?base) ?target True sta = (u, st2)"
      and rest: "if is_ok u then upsertRecord api token zid ?ty (''relay.'' @ ?base) ?target False st2 = (v, st') \<and> r = v
           else st' = st2 \<and> \<not> is_ok r"
    have ids: "distinct (map dr_id (recs (remote sta)))" using assms(2) same by simp
    note one = relay_upsert [OF assms(1) ids names(1) U]
    show ?thesis
    proof (cases "is_ok u")
      case False
      with rest one(2,4) one(3) [OF names(3)] show ?thesis by (auto simp: same)
    next
      case True
      with rest have V: "upsertRecord api token zid ?ty (''relay.'' @ ?base) ?target False st2 = (r, st')" by simp
      note two = relay_upsert [OF assms(1) one(1) names(2) V]
      have first: "settled ?ty (''*.'' @ ?base) ?target (recs (remote st'))"
        using one(4) True two(3) [OF names(3) [symmetric]] by (simp add: settled_def)
      then have "length (filter (record_key ?ty (''*.'' @ ?base)) (recs (remote st'))) = 1"
        by (auto simp: settled_def)
      moreover have "length (filter (record_key ?ty (''relay.'' @ ?base)) (recs (remote st')))
          \<le> max 1 (length (filter (record_key ?ty (''relay.'' @ ?base)) (recs (remote st))))
        \<and> (is_ok r \<longrightarrow> settled ?ty (''relay.'' @ ?base) ?target (recs (remote st')))"
        using two(4) one(3) [OF names(3)] by (auto simp: settled_def same)
      ultimately show ?thesis using first one(2) two(2) by (simp add: same)
    qed
  qed simp
qed

theorem reconcile_converges_witness:
  "\<exists>st'. Reconcile id id example_service ''t'' ''tunnl.at'' ''tunnl.at'' ''192.0.2.1''
       \<lparr>remote = example_zone, calls = []\<rparr> = (Inr (), st')
     \<and> filter (elsewhere ''A'' ''tunnl.at'') (remote st') = [hd example_zone]
     \<and> settled ''A'' ''*.tunnl.at'' ''192.0.2.1'' (remote st')"
proof -
  let ?st = "\<lparr>remote = example_zone, calls = []\<rparr>"
  have "\<exists>st'. Reconcile id id example_service ''t'' ''tunnl.at'' ''tunnl.at'' ''192.0.2.1'' ?st = (Inr (), st')"
    by (simp add: Reconcile_def example_domain example_target in_zone_def record_target_def To4_def
        zoneID_def call_api_def example_service_def service_answer_def example_zone_def equal_fold_def
        upsertRecord_def Let_def list_path_inject managed_body_def record_of_def)
  then obtain st' where R: "Reconcile id id example_service ''t'' ''tunnl.at'' ''tunnl.at'' ''192.0.2.1'' ?st
      = (Inr (), st')" ..
  have ids: "distinct (map dr_id (id (remote ?st)))" by (simp add: example_zone_def)
  have t: "record_target (replicate 10 0 @ [255, 255, 192, 0, 2, 1]) = (''A'', ''192.0.2.1'')"
    by (simp add: record_target_def To4_def v4_string_def nat_to_dec.simps char_of_def bit_Suc_0_iff)
  from reconcile_converges [OF example_service_documented ids example_target R]
  have "filter (elsewhere ''A'' ''tunnl.at'') (remote st') = filter (elsewhere ''A'' ''tunnl.at'') example_zone
      \<and> settled ''A'' ''*.tunnl.at'' ''192.0.2.1'' (remote st')"
    unfolding t by (simp add: example_domain)
  moreover have "filter (elsewhere ''A'' ''tunnl.at'') example_zone = [hd example_zone]"
    by (simp add: example_zone_def elsewhere_def managed_def managedComment_def relay_records_def)
  ultimately show ?thesis using R by auto
qed

end
