(* ===== verification/Visit.thy ===== *)
theory Visit
  imports Proxy Client_Properties
begin




section \<open>What travels\<close>




section \<open>The whole way\<close>





section \<open>Properties\<close>




end
