(* ===== verification/Proxy_Streams.thy ===== *)
theory Proxy_Streams
  imports Proxy
begin

text \<open>
  The goroutines of one \<open>proxy\<close> call in \<^verbatim>\<open>internal/server/server.go\<close>, from the moment it holds a
  stream: the handler, which reads the response, copies it and runs \<open>finishRequestWrite\<close>; the
  writer, which sends the request and its body; and the watcher, which cancels the stream when the
  request's context is done. A step is one blocking operation that returns, or one action of the visitor or of
  the client behind the tunnel. The counters are those this call changes.
\<close>

section \<open>Goroutines\<close>

datatype handler_pc =
  H_Read
| H_Copy response
| H_Finish bool
| H_Close_Body bool
| H_Await bool
| H_Leave
| H_Returned

datatype writer_pc = W_Body | W_Stream | W_Done

record exchange_state =
  xs_handler :: handler_pc
  xs_writer :: writer_pc
  xs_watching :: bool
  xs_channel :: bool
  xs_finished :: bool
  xs_read_cancelled :: bool
  xs_write_cancelled :: bool
  xs_body_closed :: bool
  xs_stream_closed :: bool
  xs_visitor_gone :: bool
  xs_response :: "response option"
  xs_metrics :: metrics

definition exchange_start :: "metrics \<Rightarrow> exchange_state" where
  "exchange_start m =
     \<lparr>xs_handler = H_Read, xs_writer = W_Stream, xs_watching = True, xs_channel = False,
      xs_finished = False, xs_read_cancelled = False, xs_write_cancelled = False,
      xs_body_closed = False, xs_stream_closed = False, xs_visitor_gone = False,
      xs_response = None, xs_metrics = count_request m\<rparr>"

text \<open>
  \<open>Visitor_Leaves\<close>: the request's context is done, in HTTP terms because the visitor is gone. The
  writer alternates between waiting for the visitor's body and for the stream. \<open>Write_Ends\<close> is
  its return by itself, \<open>Write_Aborts\<close> its return because the stream was cancelled or the body ended;
  likewise for the reader. \<open>Copied n failed\<close> is the return of \<open>io.Copy\<close> after \<open>n\<close> bytes.
\<close>

datatype exchange_event =
  Visitor_Leaves
| Visitor_Sends
| Tunnel_Takes
| Write_Ends
| Write_Aborts
| Watch_Cancels
| Watch_Ends
| Reply "response option"
| Read_Aborts
| Copied nat bool
| Copy_Aborts nat
| Select
| Close_Body
| Receive
| Leave

section \<open>Steps of the goroutines\<close>

definition end_write :: "exchange_state \<Rightarrow> exchange_state" where
  "end_write s = s\<lparr>xs_writer := W_Done, xs_channel := True\<rparr>"

definition on_reply :: "response option \<Rightarrow> exchange_state \<Rightarrow> exchange_state" where
  "on_reply reply s =
     (case reply of
        None \<Rightarrow> s\<lparr>xs_metrics := count_failure (xs_metrics s), xs_handler := H_Finish True\<rparr>
      | Some resp \<Rightarrow> s\<lparr>xs_handler := H_Copy resp\<rparr>)"

definition on_copied :: "response \<Rightarrow> nat \<Rightarrow> bool \<Rightarrow> exchange_state \<Rightarrow> exchange_state" where
  "on_copied resp n failed s =
     (let m = count_bytes n (xs_metrics s);
          x = \<lparr>ex_stream = True, ex_reply = Some resp, ex_written = n, ex_copy_failed = failed\<rparr>
      in s\<lparr>xs_metrics := (if failed then count_failure m else m),
           xs_response := Some (relay_response x resp), xs_handler := H_Finish False\<rparr>)"

text \<open>\<open>finishRequestWrite\<close>: the poll of the channel, the two cancellations, the final receive.\<close>

definition on_select :: "bool \<Rightarrow> exchange_state \<Rightarrow> exchange_state" where
  "on_select failed s =
     (if xs_channel s then s\<lparr>xs_channel := False, xs_handler := H_Leave,
        xs_response := (if failed then Some (http_error [] ''tunnel response failed'' 502) else xs_response s)\<rparr>
      else s\<lparr>xs_write_cancelled := True, xs_handler := H_Close_Body failed\<rparr>)"

definition on_receive :: "bool \<Rightarrow> exchange_state \<Rightarrow> exchange_state" where
  "on_receive failed s = s\<lparr>xs_channel := False, xs_handler := H_Leave,
     xs_response := (if failed then Some (http_error [] ''tunnel response failed'' 502) else xs_response s)\<rparr>"

definition on_leave :: "exchange_state \<Rightarrow> exchange_state" where
  "on_leave s = s\<lparr>xs_finished := True, xs_stream_closed := True, xs_handler := H_Returned\<rparr>"

text \<open>
  \<open>duplex\<close> says whether \<open>Body.Close\<close> can return while the writer waits in a read of the body, as
  the body of an HTTP/2 request does; the body of an HTTP/1 request holds its lock during a read.
\<close>

inductive xstep :: "bool \<Rightarrow> exchange_state \<Rightarrow> exchange_event \<Rightarrow> exchange_state \<Rightarrow> bool"
  for duplex :: bool where
  Leaves: "\<not> xs_visitor_gone s \<Longrightarrow> xstep duplex s Visitor_Leaves (s\<lparr>xs_visitor_gone := True\<rparr>)"
| Sends: "xs_writer s = W_Body \<Longrightarrow> \<not> xs_visitor_gone s \<Longrightarrow> \<not> xs_body_closed s \<Longrightarrow>
     xstep duplex s Visitor_Sends (s\<lparr>xs_writer := W_Stream\<rparr>)"
| Takes: "xs_writer s = W_Stream \<Longrightarrow> \<not> xs_write_cancelled s \<Longrightarrow>
     xstep duplex s Tunnel_Takes (s\<lparr>xs_writer := W_Body\<rparr>)"
| Ends: "xs_writer s \<noteq> W_Done \<Longrightarrow> xstep duplex s Write_Ends (end_write s)"
| Aborts: "xs_writer s = W_Stream \<and> xs_write_cancelled s
       \<or> xs_writer s = W_Body \<and> (xs_body_closed s \<or> xs_visitor_gone s) \<Longrightarrow>
     xstep duplex s Write_Aborts (end_write s)"
| Cancels: "xs_watching s \<Longrightarrow> xs_visitor_gone s \<Longrightarrow>
     xstep duplex s Watch_Cancels (s\<lparr>xs_watching := False, xs_read_cancelled := True, xs_write_cancelled := True\<rparr>)"
| Watched: "xs_watching s \<Longrightarrow> xs_finished s \<Longrightarrow> xstep duplex s Watch_Ends (s\<lparr>xs_watching := False\<rparr>)"
| Replies: "xs_handler s = H_Read \<Longrightarrow> xstep duplex s (Reply reply) (on_reply reply s)"
| Reads: "xs_handler s = H_Read \<Longrightarrow> xs_read_cancelled s \<Longrightarrow> xstep duplex s Read_Aborts (on_reply None s)"
| Copies: "xs_handler s = H_Copy resp \<Longrightarrow> n \<le> length (rs_body resp) \<Longrightarrow>
     failed \<or> n = length (rs_body resp) \<Longrightarrow> xstep duplex s (Copied n failed) (on_copied resp n failed s)"
| Stops: "xs_handler s = H_Copy resp \<Longrightarrow> xs_read_cancelled s \<Longrightarrow> n \<le> length (rs_body resp) \<Longrightarrow>
     xstep duplex s (Copy_Aborts n) (on_copied resp n True s)"
| Selects: "xs_handler s = H_Finish failed \<Longrightarrow> xstep duplex s Select (on_select failed s)"
| Closes: "xs_handler s = H_Close_Body failed \<Longrightarrow> duplex \<or> xs_writer s \<noteq> W_Body \<Longrightarrow>
     xstep duplex s Close_Body (s\<lparr>xs_body_closed := True, xs_handler := H_Await failed\<rparr>)"
| Receives: "xs_handler s = H_Await failed \<Longrightarrow> xs_channel s \<Longrightarrow> xstep duplex s Receive (on_receive failed s)"
| Returns: "xs_handler s = H_Leave \<Longrightarrow> xstep duplex s Leave (on_leave s)"

inductive_cases xstepE: "xstep duplex s e s'"

inductive xsteps :: "bool \<Rightarrow> exchange_state \<Rightarrow> exchange_event list \<Rightarrow> exchange_state \<Rightarrow> bool"
  for duplex :: bool where
  None: "xsteps duplex s [] s"
| Step: "xstep duplex s e s' \<Longrightarrow> xsteps duplex s' es s'' \<Longrightarrow> xsteps duplex s (e # es) s''"

section \<open>Invariant\<close>

definition exchange_outcome :: "exchange \<Rightarrow> metrics \<Rightarrow> response \<times> metrics" where
  "exchange_outcome x m =
     (case ex_reply x of
        None \<Rightarrow> (http_error [] ''tunnel response failed'' 502, count_failure (count_request m))
      | Some reply \<Rightarrow>
          (relay_response x reply,
           let m' = count_bytes (ex_written x) (count_request m) in if ex_copy_failed x then count_failure m' else m'))"

text \<open>What the handler has written and counted at each point.\<close>

definition exchange_answered :: "metrics \<Rightarrow> bool \<Rightarrow> response option \<Rightarrow> metrics \<Rightarrow> bool" where
  "exchange_answered m failed w k \<longleftrightarrow> (if failed then k = count_failure (count_request m)
     else \<exists>x. ex_stream x \<and> ex_reply x \<noteq> None \<and> w = Some (fst (exchange_outcome x m)) \<and> k = snd (exchange_outcome x m))"

definition exchange_settled :: "metrics \<Rightarrow> response option \<Rightarrow> metrics \<Rightarrow> bool" where
  "exchange_settled m w k \<longleftrightarrow> (\<exists>x. ex_stream x \<and> w = Some (fst (exchange_outcome x m)) \<and> k = snd (exchange_outcome x m))"

fun progress :: "metrics \<Rightarrow> handler_pc \<Rightarrow> response option \<Rightarrow> metrics \<Rightarrow> bool" where
  "progress m H_Read w k \<longleftrightarrow> k = count_request m"
| "progress m (H_Copy resp) w k \<longleftrightarrow> k = count_request m"
| "progress m (H_Finish failed) w k \<longleftrightarrow> exchange_answered m failed w k"
| "progress m (H_Close_Body failed) w k \<longleftrightarrow> exchange_answered m failed w k"
| "progress m (H_Await failed) w k \<longleftrightarrow> exchange_answered m failed w k"
| "progress m H_Leave w k \<longleftrightarrow> exchange_settled m w k"
| "progress m H_Returned w k \<longleftrightarrow> exchange_settled m w k"

definition past_finish :: "handler_pc \<Rightarrow> bool" where
  "past_finish h \<longleftrightarrow> h = H_Leave \<or> h = H_Returned"

definition xinv :: "metrics \<Rightarrow> exchange_state \<Rightarrow> bool" where
  "xinv m s \<longleftrightarrow>
     (xs_writer s = W_Done \<longleftrightarrow> xs_channel s \<or> past_finish (xs_handler s))
     \<and> \<not> (xs_channel s \<and> past_finish (xs_handler s))
     \<and> (xs_finished s \<longleftrightarrow> xs_handler s = H_Returned) \<and> (xs_stream_closed s \<longleftrightarrow> xs_handler s = H_Returned)
     \<and> (\<forall>f. xs_handler s = H_Close_Body f \<longrightarrow> xs_write_cancelled s)
     \<and> (\<forall>f. xs_handler s = H_Await f \<longrightarrow> xs_write_cancelled s \<and> xs_body_closed s)
     \<and> (xs_watching s \<or> xs_finished s \<or> xs_read_cancelled s \<and> xs_write_cancelled s)
     \<and> progress m (xs_handler s) (xs_response s) (xs_metrics s)"

lemmas exchange_steps = end_write_def on_reply_def on_copied_def on_select_def on_receive_def on_leave_def
  past_finish_def

lemma xinv_start: "xinv m (exchange_start m)"
  by (simp add: xinv_def exchange_start_def past_finish_def)

lemma copied_progress:
  "exchange_answered m False (xs_response (on_copied resp n failed s)) (xs_metrics (on_copied resp n failed s))"
  if "xs_metrics s = count_request m"
proof -
  let ?x = "\<lparr>ex_stream = True, ex_reply = Some resp, ex_written = n, ex_copy_failed = failed\<rparr>"
  have "xs_response (on_copied resp n failed s) = Some (fst (exchange_outcome ?x m))
    \<and> xs_metrics (on_copied resp n failed s) = snd (exchange_outcome ?x m)"
    using that by (simp add: on_copied_def exchange_outcome_def Let_def)
  then show ?thesis by (auto simp: exchange_answered_def intro: exI [of _ ?x])
qed

lemma finish_progress:
  assumes "exchange_answered m failed w k"
  shows "exchange_settled m (if failed then Some (http_error [] ''tunnel response failed'' 502) else w) k"
proof (cases failed)
  case True
  let ?x = "\<lparr>ex_stream = True, ex_reply = None, ex_written = 0, ex_copy_failed = False\<rparr>"
  have "fst (exchange_outcome ?x m) = http_error [] ''tunnel response failed'' 502
    \<and> snd (exchange_outcome ?x m) = count_failure (count_request m)"
    by (simp add: exchange_outcome_def)
  with True assms show ?thesis by (auto simp: exchange_answered_def exchange_settled_def intro: exI [of _ ?x])
qed (use assms in \<open>auto simp: exchange_answered_def exchange_settled_def\<close>)

lemma xinv_step:
  assumes "xstep duplex s e s'" "xinv m s"
  shows "xinv m s'"
  using assms
proof (cases rule: xstep.cases)
  case (Copies resp n failed)
  with assms(2) show ?thesis
    using copied_progress [of s m resp n failed] by (auto simp: xinv_def on_copied_def past_finish_def Let_def)
next
  case (Stops resp n)
  with assms(2) show ?thesis
    using copied_progress [of s m resp n True] by (auto simp: xinv_def on_copied_def past_finish_def Let_def)
next
  case (Selects failed)
  with assms(2) show ?thesis
    using finish_progress [of m failed "xs_response s" "xs_metrics s"]
    by (auto simp: xinv_def on_select_def past_finish_def)
next
  case (Receives failed)
  with assms(2) show ?thesis
    using finish_progress [of m failed "xs_response s" "xs_metrics s"]
    by (auto simp: xinv_def on_receive_def past_finish_def)
qed (auto simp: xinv_def exchange_steps exchange_answered_def split: option.splits)

lemma xsteps_inv: "xsteps duplex s es s' \<Longrightarrow> xinv m s \<Longrightarrow> xinv m s'"
  by (induction rule: xsteps.induct) (auto intro: xinv_step)

lemma reachable_inv: "xsteps duplex (exchange_start m) es s \<Longrightarrow> xinv m s"
  using xsteps_inv xinv_start by blast

section \<open>Runs end\<close>

fun handler_rank :: "handler_pc \<Rightarrow> nat" where
  "handler_rank H_Read = 6"
| "handler_rank (H_Copy resp) = 5"
| "handler_rank (H_Finish failed) = 4"
| "handler_rank (H_Close_Body failed) = 3"
| "handler_rank (H_Await failed) = 2"
| "handler_rank H_Leave = 1"
| "handler_rank H_Returned = 0"

fun writer_rank :: "writer_pc \<Rightarrow> nat" where
  "writer_rank W_Stream = 2"
| "writer_rank W_Body = 1"
| "writer_rank W_Done = 0"

definition work_left :: "exchange_state \<Rightarrow> nat" where
  "work_left s = handler_rank (xs_handler s) + writer_rank (xs_writer s) + (if xs_watching s then 1 else 0)"

lemma work_bound: "work_left s \<le> 9"
proof -
  have "handler_rank h \<le> 6" "writer_rank w \<le> 2" for h w by (cases h; simp) (cases w; simp)
  then show ?thesis by (simp add: work_left_def add_mono [of _ 8 _ 1, simplified] add_mono [of _ 6 _ 2, simplified])
qed

lemma writer_rank_pos: "0 < writer_rank w \<longleftrightarrow> w \<noteq> W_Done"
  by (cases w) auto

lemma gone_step:
  "xstep duplex s e s' \<Longrightarrow> xs_visitor_gone s \<Longrightarrow> xs_visitor_gone s' \<and> work_left s' < work_left s"
  by (cases rule: xstep.cases, assumption)
    (auto simp: work_left_def end_write_def on_reply_def on_copied_def on_select_def on_receive_def on_leave_def
      Let_def writer_rank_pos split: option.split)

lemma gone_run: "xsteps duplex s es s' \<Longrightarrow> xs_visitor_gone s \<Longrightarrow> xs_visitor_gone s' \<and> length es + work_left s' \<le> work_left s"
proof (induction rule: xsteps.induct)
  case (Step s e s' es s'')
  with gone_step [OF Step(1)] show ?case by auto
qed simp

text \<open>The events that need neither the visitor nor the client behind the tunnel.\<close>

definition own_event :: "exchange_event \<Rightarrow> bool" where
  "own_event e \<longleftrightarrow> e \<in> {Write_Aborts, Watch_Cancels, Watch_Ends, Read_Aborts, Copy_Aborts 0, Select, Close_Body,
     Receive, Leave}"

definition at_rest :: "bool \<Rightarrow> exchange_state \<Rightarrow> bool" where
  "at_rest duplex s \<longleftrightarrow> (\<forall>e s'. own_event e \<longrightarrow> \<not> xstep duplex s e s')"

lemma at_restD: "at_rest duplex s \<Longrightarrow> own_event e \<Longrightarrow> xstep duplex s e s' \<Longrightarrow> False"
  by (auto simp: at_rest_def)

text \<open>Where the goroutines can rest: only after the handler has returned, once the visitor is gone.\<close>

lemma rest_returned:
  assumes rest: "at_rest duplex s" and gone: "xs_visitor_gone s" and inv: "xinv m s"
  shows "xs_handler s = H_Returned \<and> xs_writer s = W_Done \<and> \<not> xs_watching s"
proof -
  note no = at_restD [OF rest]
  have watch: "\<not> xs_watching s"
    using no [OF _ xstep.Cancels] gone by (auto simp: own_event_def)
  have body: "xs_writer s \<noteq> W_Body"
    using no [OF _ xstep.Aborts] gone by (auto simp: own_event_def)
  have stream: "xs_writer s = W_Stream \<Longrightarrow> \<not> xs_write_cancelled s"
    using no [OF _ xstep.Aborts] by (auto simp: own_event_def)
  have "xs_handler s = H_Returned"
  proof (cases "xs_handler s")
    case H_Read
    with inv watch have "xs_read_cancelled s" by (auto simp: xinv_def)
    with H_Read show ?thesis using no [OF _ xstep.Reads] by (auto simp: own_event_def)
  next
    case (H_Copy resp)
    with inv watch have "xs_read_cancelled s" by (auto simp: xinv_def)
    with H_Copy show ?thesis using no [OF _ xstep.Stops [of s resp 0]] by (auto simp: own_event_def)
  next
    case (H_Finish f)
    then show ?thesis using no [OF _ xstep.Selects] by (auto simp: own_event_def)
  next
    case (H_Close_Body f)
    then show ?thesis using no [OF _ xstep.Closes] body by (auto simp: own_event_def)
  next
    case (H_Await f)
    with inv stream body have "xs_writer s = W_Done" by (cases "xs_writer s") (auto simp: xinv_def)
    with inv H_Await have "xs_channel s" by (auto simp: xinv_def past_finish_def)
    with H_Await show ?thesis using no [OF _ xstep.Receives] by (auto simp: own_event_def)
  next
    case H_Leave
    then show ?thesis using no [OF _ xstep.Returns] by (auto simp: own_event_def)
  qed simp
  with inv watch show ?thesis by (auto simp: xinv_def past_finish_def)
qed

section \<open>Properties\<close>

text \<open>
  C11: the goroutines implement the function: whenever the concurrent exchange of a request that was
  given a stream ends, after whatever interleaving, the visitor has got exactly the answer, and the
  counters have exactly the values, of the sequential \<open>proxy\<close> for some outcome of the exchange.
\<close>

theorem proxy_goroutines_refine:
  assumes "xsteps duplex (exchange_start m) es s" "xs_handler s = H_Returned"
    and "ex_stream x0" "pr_sent (proxy ul c reg x0 r m) \<noteq> None"
  shows "\<exists>x. ex_stream x \<and> xs_response s = Some (pr_response (proxy ul c reg x r m))
    \<and> xs_metrics s = pr_metrics (proxy ul c reg x r m)"
proof -
  from reachable_inv [OF assms(1)] assms(2) obtain x where x: "ex_stream x"
    "xs_response s = Some (fst (exchange_outcome x m))" "xs_metrics s = snd (exchange_outcome x m)"
    by (auto simp: xinv_def exchange_settled_def)
  have "exchange_outcome x m = (pr_response (proxy ul c reg x r m), pr_metrics (proxy ul c reg x r m))"
    using assms(3,4) x(1)
    by (auto simp: proxy_def Let_def proxy_fail_def exchange_outcome_def split: option.splits if_splits)
  with x show ?thesis by auto
qed

text \<open>
  C12: nothing outlives the handler: when it returns, the goroutine that writes the request has
  ended, its result was received, the stream is closed and an answer was written, so the request's
  body is never read after the handler has returned.
\<close>

theorem returned_exchange_is_clean:
  assumes "xsteps duplex (exchange_start m) es s" "xs_handler s = H_Returned"
  shows "xs_writer s = W_Done \<and> \<not> xs_channel s \<and> xs_stream_closed s \<and> xs_finished s \<and> xs_response s \<noteq> None
    \<and> (\<forall>e s'. xstep duplex s e s' \<longrightarrow> e \<in> {Visitor_Leaves, Watch_Cancels, Watch_Ends})"
proof -
  have i: "xinv m s" by (rule reachable_inv [OF assms(1)])
  then have w: "xs_writer s = W_Done" using assms(2) by (simp add: xinv_def past_finish_def)
  have "e \<in> {Visitor_Leaves, Watch_Cancels, Watch_Ends}" if "xstep duplex s e s'" for e s'
    using that by (cases rule: xstep.cases) (use w assms(2) in auto)
  with i w assms(2) show ?thesis by (auto simp: xinv_def past_finish_def exchange_settled_def)
qed

text \<open>
  C13: an abandoned request ends: once the request's context is done, at most nine more steps
  happen, whatever the tunnel's client and the visitor do or fail to do, and as long as the handler
  has not returned and both goroutines have not ended, one of them can go on without either.
\<close>

theorem abandoned_exchange_ends:
  assumes "xsteps duplex (exchange_start m) es s" "xs_visitor_gone s" "xsteps duplex s es' s'"
  shows "length es' \<le> 9
    \<and> (at_rest duplex s' \<longrightarrow> xs_handler s' = H_Returned \<and> xs_writer s' = W_Done \<and> \<not> xs_watching s')"
proof -
  have "xinv m s'" using xsteps_inv [OF assms(3) reachable_inv [OF assms(1)]] .
  moreover have "xs_visitor_gone s'" "length es' \<le> 9"
    using gone_run [OF assms(3,2)] work_bound [of s] by auto
  ultimately show ?thesis using rest_returned by blast
qed

section \<open>Concrete runs\<close>

text \<open>The relation as an executable function.\<close>

fun try_event :: "bool \<Rightarrow> exchange_event \<Rightarrow> exchange_state \<Rightarrow> exchange_state option" where
  "try_event duplex Visitor_Leaves s = (if \<not> xs_visitor_gone s then Some (s\<lparr>xs_visitor_gone := True\<rparr>) else None)"
| "try_event duplex Visitor_Sends s =
     (if xs_writer s = W_Body \<and> \<not> xs_visitor_gone s \<and> \<not> xs_body_closed s
      then Some (s\<lparr>xs_writer := W_Stream\<rparr>) else None)"
| "try_event duplex Tunnel_Takes s =
     (if xs_writer s = W_Stream \<and> \<not> xs_write_cancelled s then Some (s\<lparr>xs_writer := W_Body\<rparr>) else None)"
| "try_event duplex Write_Ends s = (if xs_writer s \<noteq> W_Done then Some (end_write s) else None)"
| "try_event duplex Write_Aborts s =
     (if xs_writer s = W_Stream \<and> xs_write_cancelled s
         \<or> xs_writer s = W_Body \<and> (xs_body_closed s \<or> xs_visitor_gone s) then Some (end_write s) else None)"
| "try_event duplex Watch_Cancels s =
     (if xs_watching s \<and> xs_visitor_gone s
      then Some (s\<lparr>xs_watching := False, xs_read_cancelled := True, xs_write_cancelled := True\<rparr>) else None)"
| "try_event duplex Watch_Ends s =
     (if xs_watching s \<and> xs_finished s then Some (s\<lparr>xs_watching := False\<rparr>) else None)"
| "try_event duplex (Reply reply) s = (if xs_handler s = H_Read then Some (on_reply reply s) else None)"
| "try_event duplex Read_Aborts s =
     (if xs_handler s = H_Read \<and> xs_read_cancelled s then Some (on_reply None s) else None)"
| "try_event duplex (Copied n failed) s =
     (case xs_handler s of
        H_Copy resp \<Rightarrow> if n \<le> length (rs_body resp) \<and> (failed \<or> n = length (rs_body resp))
                      then Some (on_copied resp n failed s) else None
      | _ \<Rightarrow> None)"
| "try_event duplex (Copy_Aborts n) s =
     (case xs_handler s of
        H_Copy resp \<Rightarrow> if xs_read_cancelled s \<and> n \<le> length (rs_body resp)
                      then Some (on_copied resp n True s) else None
      | _ \<Rightarrow> None)"
| "try_event duplex Select s = (case xs_handler s of H_Finish failed \<Rightarrow> Some (on_select failed s) | _ \<Rightarrow> None)"
| "try_event duplex Close_Body s =
     (case xs_handler s of
        H_Close_Body failed \<Rightarrow> if duplex \<or> xs_writer s \<noteq> W_Body
          then Some (s\<lparr>xs_body_closed := True, xs_handler := H_Await failed\<rparr>) else None
      | _ \<Rightarrow> None)"
| "try_event duplex Receive s =
     (case xs_handler s of
        H_Await failed \<Rightarrow> if xs_channel s then Some (on_receive failed s) else None
      | _ \<Rightarrow> None)"
| "try_event duplex Leave s = (if xs_handler s = H_Leave then Some (on_leave s) else None)"

lemma xstep_iff: "xstep duplex s e s' \<longleftrightarrow> try_event duplex e s = Some s'"
  by (cases e) (auto simp: xstep.simps split: handler_pc.splits)

fun try_events :: "bool \<Rightarrow> exchange_event list \<Rightarrow> exchange_state \<Rightarrow> exchange_state option" where
  "try_events duplex [] s = Some s"
| "try_events duplex (e # es) s = Option.bind (try_event duplex e s) (try_events duplex es)"

lemma xsteps_try: "try_events duplex es s = Some s' \<Longrightarrow> xsteps duplex s es s'"
  by (induction es arbitrary: s) (auto simp: xstep_iff intro: xsteps.intros split: bind_splits)

text \<open>A whole exchange, and one whose visitor leaves while the tunnel's client does nothing.\<close>

definition finished_run :: "exchange_event list" where
  "finished_run = [Tunnel_Takes, Reply (Some example_reply), Copied 5 False, Write_Ends, Select, Leave]"

lemma finished_exchange:
  "\<exists>s. xsteps False (exchange_start (newMetrics 0)) finished_run s \<and> xs_handler s = H_Returned
     \<and> xs_response s = Some (relay_response example_exchange example_reply) \<and> xs_watching s"
  by (intro exI conjI, rule xsteps_try,
      simp add: finished_run_def exchange_start_def exchange_steps example_reply_def example_exchange_def Let_def)
    (simp_all add: example_reply_def example_exchange_def)

theorem proxy_goroutines_refine_witness:
  "\<exists>x s. xsteps False (exchange_start (newMetrics 0)) finished_run s \<and> xs_response s
     = Some (pr_response (proxy id example_config [(''demo'', sample_session ''demo'' ''h'' 7)] x example_request (newMetrics 0)))"
proof -
  obtain s where s: "xsteps False (exchange_start (newMetrics 0)) finished_run s" "xs_handler s = H_Returned"
    using finished_exchange by blast
  have "pr_sent (proxy id example_config [(''demo'', sample_session ''demo'' ''h'' 7)] example_exchange example_request
      (newMetrics 0)) \<noteq> None"
    using tunnel_host(2) [of "''tunnl.at''" "''demo''" id "''Demo.tunnl.at:80''"]
      example_base example_name example_host
    by (subst proxy_routed [of _ _ "''demo''"])
      (auto simp: example_config_def example_request_def example_exchange_def header_get_def header_values_def
        canonical_names open_conn_def sample_session_def)
  from proxy_goroutines_refine [OF s _ this] s show ?thesis by (auto simp: example_exchange_def)
qed

theorem returned_exchange_is_clean_witness:
  "\<exists>s. xsteps False (exchange_start (newMetrics 0)) finished_run s \<and> xs_writer s = W_Done \<and> xs_stream_closed s"
proof -
  obtain s where s: "xsteps False (exchange_start (newMetrics 0)) finished_run s" "xs_handler s = H_Returned"
    using finished_exchange by blast
  from returned_exchange_is_clean [OF s] s show ?thesis by blast
qed

lemma abandoned_exchange:
  "\<exists>s. xsteps False (exchange_start (newMetrics 0)) [Visitor_Leaves] s \<and> xs_visitor_gone s
     \<and> (\<exists>s'. xsteps False s [Watch_Cancels, Read_Aborts, Select, Write_Aborts, Close_Body, Receive, Leave] s'
           \<and> at_rest False s')"
  by (intro exI conjI, rule xsteps_try, simp add: exchange_start_def, simp add: exchange_start_def, rule xsteps_try,
      simp add: exchange_start_def exchange_steps)
    (simp add: at_rest_def xstep_iff own_event_def)

theorem abandoned_exchange_ends_witness:
  "\<exists>s s'. xsteps False (exchange_start (newMetrics 0)) [Visitor_Leaves] s
     \<and> xsteps False s [Watch_Cancels, Read_Aborts, Select, Write_Aborts, Close_Body, Receive, Leave] s'
     \<and> xs_handler s' = H_Returned"
proof -
  obtain s s' where s: "xsteps False (exchange_start (newMetrics 0)) [Visitor_Leaves] s" "xs_visitor_gone s"
    "xsteps False s [Watch_Cancels, Read_Aborts, Select, Write_Aborts, Close_Body, Receive, Leave] s'" "at_rest False s'"
    using abandoned_exchange by blast
  from abandoned_exchange_ends [OF s(1-3)] s show ?thesis by blast
qed

text \<open>
  While the visitor stays but sends no more of the body, an HTTP/1 exchange that is answered waits in
  \<open>Body.Close\<close>: no goroutine can go on by itself, and the stream stays open.
\<close>

lemma stalled_upload_waits:
  "\<exists>s. xsteps False (exchange_start m) [Tunnel_Takes, Reply (Some example_reply), Copied 5 False, Select] s
     \<and> at_rest False s \<and> \<not> xs_stream_closed s \<and> xs_response s \<noteq> None"
  by (intro exI conjI, rule xsteps_try, simp add: exchange_start_def exchange_steps example_reply_def Let_def)
    (simp_all add: at_rest_def xstep_iff own_event_def)

end
