(* ===== verification/Server_Run.thy ===== *)
theory Server_Run
  imports Server_Start
begin

text \<open>
  \<open>Server.Run\<close> in \<^verbatim>\<open>internal/server/server.go\<close> as a system of goroutines: the main one, which waits
  for the context or the first goroutine that ends and then shuts down; the accept loop; one per HTTP
  server; one per \<open>Shutdown\<close> call; and the sampler. They share the context, the buffered channel of
  errors and the listeners. Serving itself is not a step: a step is a goroutine that starts or ends
  something the others can observe.
\<close>

section \<open>Starting\<close>

text \<open>What \<open>quic.ListenAddr\<close> gets.\<close>

record listen_options =
  lo_addr :: string
  lo_tls :: tls_config
  lo_handshake_idle :: duration
  lo_max_idle :: duration
  lo_keep_alive :: duration
  lo_max_streams :: nat

definition listen_options_of :: "config \<Rightarrow> source \<Rightarrow> listen_options" where
  "listen_options_of c src =
     \<lparr>lo_addr = QUICAddr c, lo_tls = TLSConfig src VersionTLS13 [ALPN], lo_handshake_idle = 10 * second,
      lo_max_idle = 45 * second, lo_keep_alive = 15 * second, lo_max_streams = 10\<rparr>"

datatype run_failure = Certificate_Failed tls_error | Listen_Failed string

datatype run_message = Quiet | Failed string | Server_Closed

datatype run_pc =
  P_Select
| P_Closing "run_message option"
| P_Waiting "run_message option"
| P_Returned "string option"

record run_state =
  ru_pc :: run_pc
  ru_cancelled :: bool
  ru_accepting :: bool
  ru_serving :: "nat list"
  ru_channel :: "run_message list"
  ru_closed :: "nat list"
  ru_shutting :: "nat list"
  ru_listener_closed :: bool
  ru_sampling :: bool
  ru_stop_sampling :: bool
  ru_source_closed :: bool

definition launched :: "nat \<Rightarrow> run_state" where
  "launched n = \<lparr>ru_pc = P_Select, ru_cancelled = False, ru_accepting = True, ru_serving = [0..<n],
     ru_channel = [], ru_closed = [], ru_shutting = [], ru_listener_closed = False,
     ru_sampling = True, ru_stop_sampling = False, ru_source_closed = False\<rparr>"

text \<open>
  Up to the launch of the goroutines: the certificate source, a first sample of the metrics, the QUIC
  listener (\<open>listen\<close> is its error on these options) and the list of HTTP servers.
\<close>

definition start_run ::
  "relay_server \<Rightarrow> tls_error + source \<Rightarrow> time \<Rightarrow> runtime_snapshot \<Rightarrow> (listen_options \<Rightarrow> string option)
     \<Rightarrow> (run_failure + http_server list \<times> run_state) \<times> relay_server" where
  "start_run srv made now rt listen =
     (case made of
        Inl e \<Rightarrow> (Inl (Certificate_Failed e), srv)
      | Inr src \<Rightarrow>
          (let srv' = srv\<lparr>rs_metrics := snd (record_sample now (int (count (rs_registry srv))) rt (rs_metrics srv))\<rparr> in
           case listen (listen_options_of (rs_config srv) src) of
             Some m \<Rightarrow> (Inl (Listen_Failed m), srv')
           | None \<Rightarrow> (let servers = http_servers srv src in (Inr (servers, launched (length servers)), srv'))))"

section \<open>Steps\<close>

text \<open>
  \<open>Accept_Fails\<close> and \<open>Serve_Fails\<close> happen by themselves, \<open>Accept_Stops\<close> and \<open>Serve_Stops\<close> because the
  context is done or the listener or server was closed. \<open>Shut_Down\<close> is the begin of a \<open>Shutdown\<close> call,
  which closes the server's listener; \<open>Drained\<close> is its end, after the open requests or the timeout.
\<close>

datatype run_event =
  Cancel
| Accept_Fails string
| Accept_Stops
| Serve_Fails nat string
| Serve_Stops nat
| Context_Chosen
| Message_Chosen
| Shut_Down nat
| Drained nat
| Close_Listener
| Wait_Over
| Sampler_Ends

definition begin_shutdown :: "nat \<Rightarrow> run_message option \<Rightarrow> run_state \<Rightarrow> run_state" where
  "begin_shutdown n stop s = s\<lparr>ru_pc := P_Closing stop, ru_shutting := [0..<n]\<rparr>"

text \<open>What \<open>Run\<close> returns, in the terms of \<open>run_result\<close>.\<close>

definition final_result :: "run_message option \<Rightarrow> bool \<Rightarrow> string option" where
  "final_result stop cancelled =
     run_result (case stop of
        None \<Rightarrow> Context_Over
      | Some Quiet \<Rightarrow> Served None False
      | Some (Failed e) \<Rightarrow> Served (Some e) False
      | Some Server_Closed \<Rightarrow> Served (Some ''http: Server closed'') True) cancelled"

inductive rstep :: "nat \<Rightarrow> run_state \<Rightarrow> run_event \<Rightarrow> run_state \<Rightarrow> bool" for n :: nat where
  Cancel: "\<not> ru_cancelled s \<Longrightarrow> rstep n s Cancel (s\<lparr>ru_cancelled := True\<rparr>)"
| Accept_Fails: "ru_accepting s \<Longrightarrow> \<not> ru_cancelled s \<Longrightarrow> \<not> ru_listener_closed s \<Longrightarrow> length (ru_channel s) < n + 1 \<Longrightarrow>
     rstep n s (Accept_Fails e) (s\<lparr>ru_accepting := False, ru_channel := ru_channel s @ [Failed e]\<rparr>)"
| Accept_Stops: "ru_accepting s \<Longrightarrow> ru_cancelled s \<or> ru_listener_closed s \<Longrightarrow> length (ru_channel s) < n + 1 \<Longrightarrow>
     rstep n s Accept_Stops (s\<lparr>ru_accepting := False,
       ru_channel := ru_channel s @ [if ru_cancelled s then Quiet else Failed ''quic: server closed'']\<rparr>)"
| Serve_Fails: "i \<in> set (ru_serving s) \<Longrightarrow> i \<notin> set (ru_closed s) \<Longrightarrow> length (ru_channel s) < n + 1 \<Longrightarrow>
     rstep n s (Serve_Fails i e) (s\<lparr>ru_serving := remove1 i (ru_serving s), ru_channel := ru_channel s @ [Failed e]\<rparr>)"
| Serve_Stops: "i \<in> set (ru_serving s) \<Longrightarrow> i \<in> set (ru_closed s) \<Longrightarrow> length (ru_channel s) < n + 1 \<Longrightarrow>
     rstep n s (Serve_Stops i) (s\<lparr>ru_serving := remove1 i (ru_serving s), ru_channel := ru_channel s @ [Server_Closed]\<rparr>)"
| Context_Chosen: "ru_pc s = P_Select \<Longrightarrow> ru_cancelled s \<Longrightarrow> rstep n s Context_Chosen (begin_shutdown n None s)"
| Message_Chosen: "ru_pc s = P_Select \<Longrightarrow> ru_channel s = m # ms \<Longrightarrow>
     rstep n s Message_Chosen (begin_shutdown n (Some m) (s\<lparr>ru_channel := ms\<rparr>))"
| Shut_Down: "i \<in> set (ru_shutting s) \<Longrightarrow> i \<notin> set (ru_closed s) \<Longrightarrow>
     rstep n s (Shut_Down i) (s\<lparr>ru_closed := i # ru_closed s\<rparr>)"
| Drained: "i \<in> set (ru_shutting s) \<Longrightarrow> i \<in> set (ru_closed s) \<Longrightarrow>
     rstep n s (Drained i) (s\<lparr>ru_shutting := remove1 i (ru_shutting s)\<rparr>)"
| Close_Listener: "ru_pc s = P_Closing stop \<Longrightarrow>
     rstep n s Close_Listener (s\<lparr>ru_pc := P_Waiting stop, ru_listener_closed := True\<rparr>)"
| Wait_Over: "ru_pc s = P_Waiting stop \<Longrightarrow> ru_shutting s = [] \<Longrightarrow>
     rstep n s Wait_Over (s\<lparr>ru_pc := P_Returned (final_result stop (ru_cancelled s)),
       ru_stop_sampling := True, ru_source_closed := True\<rparr>)"
| Sampler_Ends: "ru_sampling s \<Longrightarrow> ru_cancelled s \<or> ru_stop_sampling s \<Longrightarrow>
     rstep n s Sampler_Ends (s\<lparr>ru_sampling := False\<rparr>)"

inductive running :: "nat \<Rightarrow> run_event list \<Rightarrow> run_state \<Rightarrow> bool" for n :: nat where
  Launched: "running n [] (launched n)"
| Next: "running n es s \<Longrightarrow> rstep n s e s' \<Longrightarrow> running n (es @ [e]) s'"

section \<open>Invariant\<close>

definition rinv :: "nat \<Rightarrow> run_state \<Rightarrow> bool" where
  "rinv n s \<longleftrightarrow>
     length (ru_channel s) + (if ru_accepting s then 1 else 0) + length (ru_serving s) \<le> n + 1
     \<and> distinct (ru_serving s) \<and> set (ru_serving s) \<subseteq> {..<n}
     \<and> distinct (ru_shutting s) \<and> set (ru_shutting s) \<subseteq> {..<n}
     \<and> distinct (ru_closed s) \<and> set (ru_closed s) \<subseteq> {..<n}
     \<and> (ru_pc s = P_Select \<longrightarrow> ru_shutting s = [] \<and> ru_closed s = [] \<and> \<not> ru_stop_sampling s)
     \<and> (ru_listener_closed s \<longleftrightarrow> (\<exists>stop r. ru_pc s = P_Waiting stop \<or> ru_pc s = P_Returned r))
     \<and> (ru_pc s \<noteq> P_Select \<longrightarrow> {..<n} \<subseteq> set (ru_closed s) \<union> set (ru_shutting s))
     \<and> (\<forall>r. ru_pc s = P_Returned r \<longrightarrow> ru_shutting s = [] \<and> ru_stop_sampling s \<and> ru_source_closed s)"

lemma length_remove1_mem: "x \<in> set xs \<Longrightarrow> Suc (length (remove1 x xs)) = length xs"
  by (induction xs) auto

lemma rinv_launched: "rinv n (launched n)"
  by (auto simp: rinv_def launched_def)

lemma rinv_step: "rstep n s e s' \<Longrightarrow> rinv n s \<Longrightarrow> rinv n s'"
  by (cases rule: rstep.cases, assumption)
    (auto simp: rinv_def begin_shutdown_def length_remove1_mem distinct_remove1 dest!: in_set_remove1 [THEN iffD1, rotated]
      dest: notin_set_remove1 length_remove1_mem)

lemma running_inv: "running n es s \<Longrightarrow> rinv n s"
  by (induction rule: running.induct) (auto intro: rinv_launched rinv_step)

section \<open>Runs are bounded\<close>

fun run_rank :: "run_pc \<Rightarrow> nat" where
  "run_rank P_Select = 3"
| "run_rank (P_Closing stop) = 2"
| "run_rank (P_Waiting stop) = 1"
| "run_rank (P_Returned r) = 0"

definition run_left :: "nat \<Rightarrow> run_state \<Rightarrow> nat" where
  "run_left n s = run_rank (ru_pc s) + (if ru_cancelled s then 0 else 1) + (if ru_accepting s then 1 else 0)
     + length (ru_serving s) + (if ru_sampling s then 1 else 0)
     + (n - length (ru_closed s)) + (if ru_pc s = P_Select then n else length (ru_shutting s))"

lemma closed_room: "rinv n s \<Longrightarrow> i \<in> set (ru_shutting s) \<Longrightarrow> i \<notin> set (ru_closed s) \<Longrightarrow> length (ru_closed s) < n"
proof -
  assume i: "rinv n s" "i \<in> set (ru_shutting s)" "i \<notin> set (ru_closed s)"
  then have "set (ru_closed s) \<subset> {..<n}" by (auto simp: rinv_def)
  then have "card (set (ru_closed s)) < card {..<n}" by (intro psubset_card_mono) auto
  then show ?thesis using i(1) by (simp add: rinv_def distinct_card)
qed

lemma run_left_step:
  assumes "rstep n s e s'" "rinv n s"
  shows "run_left n s' < run_left n s"
  using assms
proof (cases rule: rstep.cases)
  case (Shut_Down i)
  then have "ru_pc s \<noteq> P_Select" using assms(2) by (auto simp: rinv_def)
  with closed_room [OF assms(2) Shut_Down(3,4)] show ?thesis using Shut_Down by (simp add: run_left_def)
next
  case (Drained i)
  then have "ru_pc s \<noteq> P_Select" using assms(2) by (auto simp: rinv_def)
  with length_remove1_mem [OF Drained(3)] show ?thesis using Drained by (simp add: run_left_def)
next
  case (Serve_Fails i e)
  with length_remove1_mem [OF Serve_Fails(3)] show ?thesis by (simp add: run_left_def)
next
  case (Serve_Stops i)
  with length_remove1_mem [OF Serve_Stops(3)] show ?thesis by (simp add: run_left_def)
qed (use assms(2) in \<open>auto simp: run_left_def begin_shutdown_def rinv_def\<close>)

lemma run_length: "running n es s \<Longrightarrow> length es + run_left n s \<le> 3 * n + 6"
proof (induction rule: running.induct)
  case Launched
  then show ?case by (simp add: run_left_def launched_def)
next
  case (Next es s e s')
  with run_left_step [OF Next(2) running_inv [OF Next(1)]] show ?case by simp
qed

section \<open>The first failure\<close>

fun first_failure :: "run_event list \<Rightarrow> string option" where
  "first_failure [] = None"
| "first_failure (Accept_Fails e # es) = Some e"
| "first_failure (Serve_Fails i e # es) = Some e"
| "first_failure (ev # es) = first_failure es"

lemma first_failure_append:
  "first_failure (es @ es') = (case first_failure es of Some e \<Rightarrow> Some e | None \<Rightarrow> first_failure es')"
  by (induction es rule: first_failure.induct) auto

text \<open>
  What the channel and the main goroutine hold: the messages of the goroutines that ended, in order;
  \<open>Quiet\<close> only from a done context, a closed server only after the shutdown began.
\<close>

definition told :: "run_event list \<Rightarrow> bool \<Rightarrow> run_message \<Rightarrow> bool" where
  "told es cancelled m \<longleftrightarrow> (case m of Quiet \<Rightarrow> cancelled | Failed e \<Rightarrow> first_failure es = Some e | Server_Closed \<Rightarrow> False)"

fun channel_told :: "run_event list \<Rightarrow> bool \<Rightarrow> run_message list \<Rightarrow> bool" where
  "channel_told es cancelled [] \<longleftrightarrow> first_failure es = None"
| "channel_told es cancelled (m # ms) \<longleftrightarrow> told es cancelled m"

definition hinv :: "run_event list \<Rightarrow> run_state \<Rightarrow> bool" where
  "hinv es s \<longleftrightarrow> (ru_cancelled s \<longleftrightarrow> Cancel \<in> set es)
     \<and> (case ru_pc s of
          P_Select \<Rightarrow> channel_told es (ru_cancelled s) (ru_channel s)
        | P_Closing stop \<Rightarrow> (case stop of None \<Rightarrow> ru_cancelled s | Some m \<Rightarrow> told es (ru_cancelled s) m)
        | P_Waiting stop \<Rightarrow> (case stop of None \<Rightarrow> ru_cancelled s | Some m \<Rightarrow> told es (ru_cancelled s) m)
        | P_Returned r \<Rightarrow> (case r of None \<Rightarrow> ru_cancelled s | Some e \<Rightarrow> first_failure es = Some e))"

lemma told_more: "told es cancelled m \<Longrightarrow> told (es @ es') (cancelled \<or> b) m"
  by (auto simp: told_def first_failure_append split: run_message.splits)

lemma channel_told_skip [simp]:
  "channel_told (es @ [Shut_Down i]) c ms = channel_told es c ms"
  "channel_told (es @ [Drained i]) c ms = channel_told es c ms"
  "channel_told (es @ [Sampler_Ends]) c ms = channel_told es c ms"
  by (cases ms; auto simp: told_def first_failure_append split: option.splits run_message.splits)+

lemma hinv_step:
  assumes "rstep n s e s'" "rinv n s" "hinv es s"
  shows "hinv (es @ [e]) s'"
  using assms
proof (cases rule: rstep.cases)
  case (Accept_Fails e)
  with assms(3) show ?thesis
    by (cases "ru_channel s")
      (auto simp: hinv_def told_def first_failure_append split: run_pc.splits option.splits run_message.splits)
next
  case Accept_Stops
  with assms(2,3) show ?thesis
    by (cases "ru_channel s")
      (auto simp: hinv_def rinv_def told_def first_failure_append split: run_pc.splits option.splits run_message.splits)
next
  case (Serve_Fails i e)
  with assms(3) show ?thesis
    by (cases "ru_channel s")
      (auto simp: hinv_def told_def first_failure_append split: run_pc.splits option.splits run_message.splits)
next
  case (Serve_Stops i)
  with assms(2,3) show ?thesis
    by (cases "ru_channel s")
      (auto simp: hinv_def rinv_def told_def first_failure_append split: run_pc.splits option.splits run_message.splits)
next
  case (Wait_Over stop)
  with assms(3) show ?thesis
    by (auto simp: hinv_def told_def final_result_def run_result_def first_failure_append
        split: option.splits run_message.splits)
next
  case Cancel
  with assms(3) show ?thesis
    by (cases "ru_channel s")
      (auto simp: hinv_def told_def first_failure_append split: run_pc.splits option.splits run_message.splits)
qed (auto simp: hinv_def told_def first_failure_append begin_shutdown_def
      split: run_pc.splits option.splits run_message.splits)

lemma running_history: "running n es s \<Longrightarrow> hinv es s"
proof (induction rule: running.induct)
  case Launched
  then show ?case by (simp add: hinv_def launched_def)
next
  case (Next es s e s')
  then show ?case using hinv_step running_inv by blast
qed

section \<open>Where runs rest\<close>

text \<open>The events that need no failure from outside and no cancellation.\<close>

definition own_run_event :: "run_event \<Rightarrow> bool" where
  "own_run_event e \<longleftrightarrow> (case e of Cancel \<Rightarrow> False | Accept_Fails _ \<Rightarrow> False | Serve_Fails _ _ \<Rightarrow> False | _ \<Rightarrow> True)"

definition run_rests :: "nat \<Rightarrow> run_state \<Rightarrow> bool" where
  "run_rests n s \<longleftrightarrow> (\<forall>e s'. own_run_event e \<longrightarrow> \<not> rstep n s e s')"

lemma run_restsD: "run_rests n s \<Longrightarrow> rstep n s e s' \<Longrightarrow> own_run_event e \<Longrightarrow> False"
  by (auto simp: run_rests_def)

lemma channel_room:
  "rinv n s \<Longrightarrow> ru_accepting s \<or> ru_serving s \<noteq> [] \<Longrightarrow> length (ru_channel s) < n + 1"
  by (cases "ru_serving s") (auto simp: rinv_def split: if_splits)

lemma rest_is_end:
  assumes rest: "run_rests n s" and inv: "rinv n s" and told: "hinv es s"
    and began: "Cancel \<in> set es \<or> first_failure es \<noteq> None"
  shows "(\<exists>r. ru_pc s = P_Returned r) \<and> \<not> ru_accepting s \<and> ru_serving s = [] \<and> ru_shutting s = [] \<and> \<not> ru_sampling s
    \<and> ru_listener_closed s \<and> ru_source_closed s"
proof -
  note no = run_restsD [OF rest]
  have pc: "ru_pc s \<noteq> P_Select"
  proof
    assume p: "ru_pc s = P_Select"
    then have c: "\<not> ru_cancelled s" using no [OF rstep.Context_Chosen] by (auto simp: own_run_event_def)
    have "ru_channel s = []"
      using p no [OF rstep.Message_Chosen] by (cases "ru_channel s") (auto simp: own_run_event_def)
    with p c told began show False by (auto simp: hinv_def)
  qed
  have "ru_shutting s = []"
  proof (rule ccontr)
    assume "ru_shutting s \<noteq> []"
    then obtain i where i: "i \<in> set (ru_shutting s)" by (cases "ru_shutting s") auto
    show False
      using i no [OF rstep.Shut_Down [OF i]] no [OF rstep.Drained [OF i]]
      by (cases "i \<in> set (ru_closed s)") (auto simp: own_run_event_def)
  qed
  moreover from this obtain r where r: "ru_pc s = P_Returned r"
    using pc no [OF rstep.Close_Listener] no [OF rstep.Wait_Over]
    by (cases "ru_pc s") (auto simp: own_run_event_def)
  moreover have closed: "ru_listener_closed s" "ru_stop_sampling s" "ru_source_closed s" "{..<n} \<subseteq> set (ru_closed s)"
    using inv r by (auto simp: rinv_def)
  moreover have "\<not> ru_sampling s"
    using closed(2) no [OF rstep.Sampler_Ends] by (auto simp: own_run_event_def)
  moreover have "\<not> ru_accepting s"
    using closed(1) channel_room [OF inv] no [OF rstep.Accept_Stops] by (auto simp: own_run_event_def)
  moreover have "ru_serving s = []"
  proof (rule ccontr)
    assume ne: "ru_serving s \<noteq> []"
    then obtain i where i: "i \<in> set (ru_serving s)" by (cases "ru_serving s") auto
    with inv closed(4) have "i \<in> set (ru_closed s)" by (auto simp: rinv_def)
    with i ne channel_room [OF inv] show False
      using no [OF rstep.Serve_Stops] by (auto simp: own_run_event_def)
  qed
  ultimately show ?thesis by blast
qed

section \<open>Properties\<close>

text \<open>
  C15: what \<open>Run\<close> returns: in every interleaving it returns without an error only when its context was
  cancelled, and an error it returns is that of the first goroutine, accept loop or HTTP server, that
  failed.
\<close>

theorem run_returns_first_failure:
  assumes "running n es s" "ru_pc s = P_Returned r"
  shows "(r = None \<longrightarrow> Cancel \<in> set es) \<and> (\<forall>e. r = Some e \<longrightarrow> first_failure es = Some e)"
  using running_history [OF assms(1)] assms(2) by (auto simp: hinv_def split: option.splits)

text \<open>
  C14: a relay that is told to stop, or whose accept loop or HTTP server fails, stops: no
  goroutine ever waits to send its error, with \<open>n\<close> HTTP servers at most \<open>3 n + 6\<close> steps happen in all,
  and when no goroutine can go on by itself, \<open>Run\<close> has returned, the accept loop, every server,
  every \<open>Shutdown\<close> call and the sampler have ended, and the listener and the certificate source are closed.
\<close>

theorem stopped_relay_ends:
  assumes "running n es s"
  shows "length es \<le> 3 * n + 6
    \<and> (ru_accepting s \<or> ru_serving s \<noteq> [] \<longrightarrow> length (ru_channel s) < n + 1)
    \<and> (run_rests n s \<and> (Cancel \<in> set es \<or> first_failure es \<noteq> None) \<longrightarrow>
        (\<exists>r. ru_pc s = P_Returned r) \<and> \<not> ru_accepting s \<and> ru_serving s = [] \<and> ru_shutting s = [] \<and> \<not> ru_sampling s
        \<and> ru_listener_closed s \<and> ru_source_closed s)"
  using run_length [OF assms] channel_room [OF running_inv [OF assms]]
    rest_is_end [OF _ running_inv [OF assms] running_history [OF assms]] by simp

section \<open>A concrete run\<close>

text \<open>The relation as an executable function.\<close>

fun try_run :: "nat \<Rightarrow> run_event \<Rightarrow> run_state \<Rightarrow> run_state option" where
  "try_run n Cancel s = (if ru_cancelled s then None else Some (s\<lparr>ru_cancelled := True\<rparr>))"
| "try_run n (Accept_Fails e) s =
     (if ru_accepting s \<and> \<not> ru_cancelled s \<and> \<not> ru_listener_closed s \<and> length (ru_channel s) < n + 1
      then Some (s\<lparr>ru_accepting := False, ru_channel := ru_channel s @ [Failed e]\<rparr>) else None)"
| "try_run n Accept_Stops s =
     (if ru_accepting s \<and> (ru_cancelled s \<or> ru_listener_closed s) \<and> length (ru_channel s) < n + 1
      then Some (s\<lparr>ru_accepting := False,
        ru_channel := ru_channel s @ [if ru_cancelled s then Quiet else Failed ''quic: server closed'']\<rparr>) else None)"
| "try_run n (Serve_Fails i e) s =
     (if i \<in> set (ru_serving s) \<and> i \<notin> set (ru_closed s) \<and> length (ru_channel s) < n + 1
      then Some (s\<lparr>ru_serving := remove1 i (ru_serving s), ru_channel := ru_channel s @ [Failed e]\<rparr>) else None)"
| "try_run n (Serve_Stops i) s =
     (if i \<in> set (ru_serving s) \<and> i \<in> set (ru_closed s) \<and> length (ru_channel s) < n + 1
      then Some (s\<lparr>ru_serving := remove1 i (ru_serving s), ru_channel := ru_channel s @ [Server_Closed]\<rparr>) else None)"
| "try_run n Context_Chosen s =
     (if ru_pc s = P_Select \<and> ru_cancelled s then Some (begin_shutdown n None s) else None)"
| "try_run n Message_Chosen s =
     (case ru_channel s of
        m # ms \<Rightarrow> if ru_pc s = P_Select then Some (begin_shutdown n (Some m) (s\<lparr>ru_channel := ms\<rparr>)) else None
      | [] \<Rightarrow> None)"
| "try_run n (Shut_Down i) s =
     (if i \<in> set (ru_shutting s) \<and> i \<notin> set (ru_closed s) then Some (s\<lparr>ru_closed := i # ru_closed s\<rparr>) else None)"
| "try_run n (Drained i) s =
     (if i \<in> set (ru_shutting s) \<and> i \<in> set (ru_closed s)
      then Some (s\<lparr>ru_shutting := remove1 i (ru_shutting s)\<rparr>) else None)"
| "try_run n Close_Listener s =
     (case ru_pc s of
        P_Closing stop \<Rightarrow> Some (s\<lparr>ru_pc := P_Waiting stop, ru_listener_closed := True\<rparr>)
      | _ \<Rightarrow> None)"
| "try_run n Wait_Over s =
     (case ru_pc s of
        P_Waiting stop \<Rightarrow>
          if ru_shutting s = []
          then Some (s\<lparr>ru_pc := P_Returned (final_result stop (ru_cancelled s)),
                 ru_stop_sampling := True, ru_source_closed := True\<rparr>)
          else None
      | _ \<Rightarrow> None)"
| "try_run n Sampler_Ends s =
     (if ru_sampling s \<and> (ru_cancelled s \<or> ru_stop_sampling s) then Some (s\<lparr>ru_sampling := False\<rparr>) else None)"

lemma rstep_iff: "rstep n s e s' \<longleftrightarrow> try_run n e s = Some s'"
  by (cases e) (auto simp: rstep.simps split: run_pc.splits list.splits)

fun try_runs :: "nat \<Rightarrow> run_event list \<Rightarrow> run_state \<Rightarrow> run_state option" where
  "try_runs n [] s = Some s"
| "try_runs n (e # es) s = Option.bind (try_run n e s) (try_runs n es)"

lemma running_try: "try_runs n es' s = Some s' \<Longrightarrow> running n es s \<Longrightarrow> running n (es @ es') s'"
proof (induction es' arbitrary: es s)
  case (Cons e es')
  then obtain s1 where s1: "try_run n e s = Some s1" "try_runs n es' s1 = Some s'"
    by (auto split: bind_splits)
  then have "running n (es @ [e]) s1" using Cons.prems(2) by (auto simp: rstep_iff intro: running.Next)
  from Cons.IH [OF s1(2) this] show ?case by simp
qed simp

text \<open>One HTTP server, whose address is in use.\<close>

definition failed_run :: "run_event list" where
  "failed_run = [Serve_Fails 0 ''address already in use'', Message_Chosen, Shut_Down 0, Drained 0, Close_Listener,
     Accept_Stops, Wait_Over, Sampler_Ends]"

lemma failed_running:
  "\<exists>s. running 1 failed_run s \<and> ru_pc s = P_Returned (Some ''address already in use'') \<and> run_rests 1 s"
proof -
  obtain s where s: "try_runs 1 failed_run (launched 1) = Some s"
    "ru_pc s = P_Returned (Some ''address already in use'')" "ru_shutting s = []" "\<not> ru_accepting s"
    "ru_serving s = []" "\<not> ru_sampling s"
    by (simp add: failed_run_def launched_def begin_shutdown_def final_result_def run_result_def)
  then have "run_rests 1 s"
    by (auto simp: run_rests_def rstep_iff own_run_event_def split: run_event.splits list.splits)
  with s running_try [OF s(1) running.Launched] show ?thesis by auto
qed

theorem run_returns_first_failure_witness:
  "\<exists>s. running 1 failed_run s \<and> ru_pc s = P_Returned (Some ''address already in use'')
     \<and> first_failure failed_run = Some ''address already in use''"
proof -
  obtain s where s: "running 1 failed_run s" "ru_pc s = P_Returned (Some ''address already in use'')"
    using failed_running by blast
  from run_returns_first_failure [OF s] s show ?thesis by blast
qed

theorem stopped_relay_ends_witness:
  "\<exists>s. running 1 failed_run s \<and> \<not> ru_accepting s \<and> ru_listener_closed s \<and> ru_source_closed s"
proof -
  obtain s where s: "running 1 failed_run s" "run_rests 1 s" using failed_running by blast
  have "first_failure failed_run \<noteq> None" by (simp add: failed_run_def)
  with stopped_relay_ends [OF s(1)] s show ?thesis by blast
qed

end
