(* ===== verification/Store_Open.thy ===== *)
theory Store_Open
  imports Store Http
begin

text \<open>
  \<open>Open\<close> of \<^verbatim>\<open>internal/store/store.go\<close>: the directory, the connection, its pragmas and the three tables.
  The arguments say which of these steps fail and what the file held before; SQLite's
  \<open>CREATE TABLE IF NOT EXISTS\<close> leaves tables that exist alone.
\<close>

text \<open>\<open>filepath.Dir\<close> on a Unix system: the path up to its last slash, cleaned.\<close>

definition filepath_dir :: "string \<Rightarrow> string" where
  "filepath_dir p = path_clean (rev (dropWhile (\<lambda>c. c \<noteq> CHR ''/'') (rev p)))"

definition pragmas :: "string list" where
  "pragmas = [''PRAGMA journal_mode=WAL'', ''PRAGMA synchronous=FULL'', ''PRAGMA busy_timeout=5000'',
     ''PRAGMA foreign_keys=ON'']"

text \<open>The first statement that fails ends the loop; the statements run are logged.\<close>

fun run_statements :: "(string \<Rightarrow> string option) \<Rightarrow> string list \<Rightarrow> string option \<times> string list" where
  "run_statements exec [] = (None, [])"
| "run_statements exec (p # ps) =
     (case exec p of
        Some m \<Rightarrow> (Some m, [p])
      | None \<Rightarrow> (case run_statements exec ps of (r, log) \<Rightarrow> (r, p # log)))"

definition migrate :: "db option \<Rightarrow> db" where
  "migrate file = (case file of None \<Rightarrow> empty_db | Some s \<Rightarrow> s)"

text \<open>The result and whether a connection is left open.\<close>

definition Open ::
  "(string \<Rightarrow> string option) \<Rightarrow> string option \<Rightarrow> (string \<Rightarrow> string option) \<Rightarrow> string option \<Rightarrow> db option
     \<Rightarrow> string \<Rightarrow> (string + db) \<times> bool" where
  "Open mkdir connect exec schema file path =
     (case mkdir (filepath_dir path) of
        Some m \<Rightarrow> (Inl (''create database directory: '' @ m), False)
      | None \<Rightarrow>
          (case connect of
             Some m \<Rightarrow> (Inl (''open sqlite: '' @ m), False)
           | None \<Rightarrow>
               (case run_statements exec pragmas of
                  (Some m, _) \<Rightarrow> (Inl (''configure sqlite: '' @ m), False)
                | (None, _) \<Rightarrow>
                    (case schema of
                       Some m \<Rightarrow> (Inl (''migrate sqlite: '' @ m), False)
                     | None \<Rightarrow> (Inr (migrate file), True)))))"

lemma run_statements_ok: "run_statements exec ps = (None, log) \<Longrightarrow> log = ps \<and> (\<forall>p \<in> set ps. exec p = None)"
  by (induction ps arbitrary: log) (auto split: option.splits prod.splits)

text \<open>
  A connection is open exactly when a store is returned; then every pragma has been accepted, and the
  store is the one the file held.
\<close>

lemma Open_result:
  assumes "Open mkdir connect exec schema file path = (r, handle)"
  shows "handle = is_ok r" "r = Inr s \<Longrightarrow> s = migrate file \<and> (\<forall>p \<in> set pragmas. exec p = None)"
proof -
  obtain e log where "run_statements exec pragmas = (e, log)" by fastforce
  with assms run_statements_ok [of exec pragmas log]
  show "handle = is_ok r" "r = Inr s \<Longrightarrow> s = migrate file \<and> (\<forall>p \<in> set pragmas. exec p = None)"
    by (cases e; auto simp: Open_def split: option.splits)+
qed

end
