(* ===== verification/Relay_Main.thy ===== *)
theory Relay_Main
  imports Cmd_Tunnld Server_Run Store_Open Tunnel_Properties
begin

text \<open>
  \<open>run\<close> of \<^verbatim>\<open>cmd/tunnld/main.go\<close> for the relay itself: the parsed flags, \<open>server.New\<close> with
  \<open>store.Open\<close>, and the start of \<open>Server.Run\<close>. The record holds what the machine answers on the way.
\<close>

section \<open>The relay process\<close>

record machine =
  ma_sha :: "string \<Rightarrow> 8 word list"
  ma_fold :: "rune \<Rightarrow> rune"
  ma_moved :: nat
  ma_mkdir :: "string \<Rightarrow> string option"
  ma_connect :: "string option"
  ma_exec :: "string \<Rightarrow> string option"
  ma_schema :: "string option"
  ma_file :: "string \<Rightarrow> db option"
  ma_count :: "string option"
  ma_now :: time
  ma_runtime :: runtime_snapshot
  ma_source :: "config \<Rightarrow> tls_error + source"
  ma_listen :: "listen_options \<Rightarrow> string option"

datatype main_failure = Flag_Failed string | Start_Failed start_error | Run_Failed run_failure

datatype main_result = Version_Printed | Launched_With relay_server "http_server list" run_state

definition open_store :: "machine \<Rightarrow> string \<Rightarrow> string + db" where
  "open_store M path = fst (Open (ma_mkdir M) (ma_connect M) (ma_exec M) (ma_schema M) (ma_file M path) path)"

definition relay_main :: "machine \<Rightarrow> relay_flags \<Rightarrow> main_failure + main_result" where
  "relay_main M t =
     (if rf_version t then Inr Version_Printed
      else
        (case relay_config t of
           Inl m \<Rightarrow> Inl (Flag_Failed m)
         | Inr c \<Rightarrow>
             (case New_server (ma_sha M) (ma_fold M) (ma_moved M) (open_store M (Database c)) (ma_count M) (ma_now M) c of
                Inl e \<Rightarrow> Inl (Start_Failed e)
              | Inr srv \<Rightarrow>
                  (case start_run srv (ma_source M (rs_config srv)) (ma_now M) (ma_runtime M) (ma_listen M) of
                     (Inl e, _) \<Rightarrow> Inl (Run_Failed e)
                   | (Inr (servers, st), srv') \<Rightarrow> Inr (Launched_With srv' servers st)))))"

section \<open>What a start leaves\<close>

lemma New_server_fields:
  "New_server sha fold_table moved opened q now c = Inr srv \<Longrightarrow>
     opened = Inr (rs_db srv) \<and> rs_registry srv = newRegistry \<and> rs_config srv = with_defaults c"
  by (auto simp: New_server_def Let_def split: sum.splits if_splits)

lemma started:
  assumes "relay_main M t = Inr (Launched_With srv servers st)"
  obtains c srv0 src where "relay_config t = Inr c" "ma_source M (rs_config srv0) = Inr src"
    "New_server (ma_sha M) (ma_fold M) (ma_moved M) (open_store M (Database c)) (ma_count M) (ma_now M) c = Inr srv0"
    "servers = http_servers srv0 src" "st = launched (length servers)"
    "rs_db srv = rs_db srv0" "rs_registry srv = rs_registry srv0" "rs_admin srv = rs_admin srv0"
  using assms
  by (auto simp: relay_main_def start_run_def Let_def split: if_splits sum.splits prod.splits option.splits)

text \<open>A relay that starts begins with the store its database file held, and with no tunnels.\<close>

lemma started_store:
  assumes "relay_main M t = Inr (Launched_With srv servers st)" "relay_config t = Inr c"
  shows "rs_db srv = migrate (ma_file M (Database c))" "rs_registry srv = newRegistry"
proof -
  from assms(1) obtain srv0 where
    n: "New_server (ma_sha M) (ma_fold M) (ma_moved M) (open_store M (Database c)) (ma_count M) (ma_now M) c = Inr srv0"
    "rs_db srv = rs_db srv0" "rs_registry srv = rs_registry srv0"
    by (rule started) (use assms(2) in auto)
  obtain handle where "Open (ma_mkdir M) (ma_connect M) (ma_exec M) (ma_schema M) (ma_file M (Database c)) (Database c)
      = (open_store M (Database c), handle)"
    by (cases "Open (ma_mkdir M) (ma_connect M) (ma_exec M) (ma_schema M) (ma_file M (Database c)) (Database c)")
      (auto simp: open_store_def)
  from Open_result(2) [OF this] New_server_fields [OF n(1)] n(2,3)
  show "rs_db srv = migrate (ma_file M (Database c))" "rs_registry srv = newRegistry" by auto
qed

section \<open>Properties\<close>

text \<open>
  C2: names survive restarts: when a relay stops with a tunnel on a name and a relay, with any
  configuration and any tokens, is started on the same database file, then no client with another
  token serves that name in any later run of it, and the name stays reserved for the old one.
\<close>

theorem names_survive_restart:
  assumes "reachable P w" "map_of (w_registry w) d = Some v"
    and "relay_main M t = Inr (Launched_With srv servers st)"
    and "relay_config t = Inr c" "ma_file M (Database c) = Some (w_db w)"
    and "steps P' (start (rs_db srv) now) evs w'" "map_of (w_registry w') d = Some v'"
  shows "s_token_hash v' = s_token_hash v \<and> owners (w_db w') d = Some (s_token_hash v)"
proof -
  have ok: "world_ok w" by (rule reachable_ok [OF assms(1)])
  have s: "rs_db srv = w_db w" using started_store(1) [OF assms(3,4)] assms(5) by (simp add: migrate_def)
  have db: "db_ok (w_db w)" using ok by (simp add: world_ok_def)
  then have "reachable P' w'" using assms(6) s unfolding reachable_def by auto
  then have "owners (w_db w') d = Some (s_token_hash v')"
    using registered_session(3) [OF reachable_ok assms(7)] by blast
  moreover have "owners (w_db w') d = Some (s_token_hash v)"
    using registered_session(3) [OF ok assms(2)] owners_mono [OF steps_owners [OF assms(6)]] s
    by (simp add: start_def)
  ultimately show ?thesis by simp
qed

text \<open>A restart in which the client connects again.\<close>

definition example_machine :: machine where
  "example_machine = \<lparr>ma_sha = map of_char, ma_fold = id, ma_moved = 307, ma_mkdir = (\<lambda>_. None), ma_connect = None,
     ma_exec = (\<lambda>_. None), ma_schema = None, ma_file = (\<lambda>_. Some example_db2), ma_count = None, ma_now = 0,
     ma_runtime = \<lparr>total_cpu = 0, idle_cpu = 0, heap_bytes = 0, system_bytes = 0, goroutines = 1, gc_cycles = 0\<rparr>,
     ma_source = (\<lambda>c. Inr (acme_source (source_options c))), ma_listen = (\<lambda>_. None)\<rparr>"

definition example_flags :: relay_flags where
  "example_flags = \<lparr>rf_config = guarded_config, rf_auth_token = ''other'', rf_auth_tokens = [], rf_version = False\<rparr>"

lemma example_flags_config: "relay_config example_flags = Inr (guarded_config\<lparr>AuthTokens := [''other'']\<rparr>)"
  by (simp add: relay_config_def relay_tokens_def example_flags_def splitTokens_def trim_space_ascii)

lemma example_main: "\<exists>srv servers st. relay_main example_machine example_flags = Inr (Launched_With srv servers st)"
proof -
  have "check_config (guarded_config\<lparr>AuthTokens := [''other'']\<rparr>) = Inr ()"
    by (simp add: check_config_def guarded_config_def example_config_def acme_check_def admin_check_def
        loopback_host_def SplitHostPort_def last_index_of_def split_finish_def)
  then have "\<exists>srv. New_server (map of_char) id 307 (Inr example_db2) None 0 (guarded_config\<lparr>AuthTokens := [''other'']\<rparr>) = Inr srv"
    by (simp add: New_server_def Let_def CountClientTokens_def with_defaults_def guarded_config_def
        example_config_def NewHandler_def second_def)
  moreover have "open_store example_machine path = Inr example_db2" for path
    by (simp add: open_store_def example_machine_def Open_def pragmas_def migrate_def)
  moreover have "\<not> rf_version example_flags" by (simp add: example_flags_def)
  ultimately show ?thesis
    by (auto simp: relay_main_def example_flags_config example_machine_def start_run_def Let_def)
qed

lemma reconnects:
  "\<exists>w. steps example_relay (start example_db2 0) (connect_events 8) w
     \<and> map_of (w_registry w) ''demo'' = Some (example_session 8)"
proof -
  let ?w = "start example_db2 0"
  have auth: "authenticate example_relay quiet_exec ''secret'' example_db2 = (True, example_db2)"
    by (simp add: authenticate_def example_hash)
      (simp add: example_relay_def example_config_def AuthenticateClientToken_def update_last_used_def
        quiet_exec_def example_db2_def)
  have res: "Reserve (attempt_env quiet_attempt) ''demo'' ''06'' example_db2 = (Inr (), example_db2)"
    by (simp add: Reserve_def quiet_attempt_def select_owner_def update_last_seen_def commit_def example_db2_def)
  have "Normalize id ''demo'' = Inr ''demo''" by (rule tunnel_name_fixed [OF example_name])
  moreover have "lower_table example_relay = id" by (simp add: example_relay_def)
  ultimately have h: "do_events example_relay (handshake_events 8) ?w
      = Some (?w\<lparr>w_phase := (\<lambda>_. Idle)(8 := Claimed ''demo'' ''06'' ''a'')\<rparr>)"
    by (simp add: handshake_events_def start_def act_defs world_defs example_hello_def Version_def
        auth res example_hash)
  have "\<exists>w. do_events example_relay (connect_events 8) ?w = Some w \<and> map_of (w_registry w) ''demo'' = Some (example_session 8)"
    unfolding connect_events_def do_events_append h option.case
    by (subst registered_steps) (simp_all add: start_def newRegistry_def)
  then show ?thesis using do_events_steps by blast
qed

theorem names_survive_restart_witness:
  "\<exists>srv servers st w. relay_main example_machine example_flags = Inr (Launched_With srv servers st)
     \<and> steps example_relay (start (rs_db srv) 0) (connect_events 8) w
     \<and> map_of (w_registry w) ''demo'' = Some (example_session 8) \<and> owners (w_db w) ''demo'' = Some ''06''"
proof -
  obtain srv servers st where m: "relay_main example_machine example_flags = Inr (Launched_With srv servers st)"
    using example_main by blast
  have db: "w_db connected_world = example_db2" by (simp add: connected_world_def)
  have f: "ma_file example_machine path = Some (w_db connected_world)" for path
    by (simp add: example_machine_def db)
  have s: "rs_db srv = example_db2" using started_store(1) [OF m example_flags_config] by (simp add: f db migrate_def)
  obtain w where w: "steps example_relay (start (rs_db srv) 0) (connect_events 8) w"
    "map_of (w_registry w) ''demo'' = Some (example_session 8)"
    using reconnects s by auto
  from names_survive_restart [OF connected_reachable connected_demo(1) m example_flags_config f w]
  have "owners (w_db w) ''demo'' = Some ''06''" by (simp add: example_session_def)
  with m w show ?thesis by blast
qed

end
