(* ===== verification/Admin_Report.thy ===== *)
theory Admin_Report
  imports Cmd_Tunnld
begin

text \<open>
  What \<^verbatim>\<open>cmd/tunnld/admin.go\<close> prints for the result of an admin command. The time zone is an argument:
  \<open>local\<close> writes a time as \<open>Local().Format(time.RFC3339)\<close> does; so is the indented JSON of a value.
\<close>

section \<open>Formatting\<close>

text \<open>\<open>String()\<close> of a duration of whole seconds.\<close>

definition seconds_text :: "int \<Rightarrow> string" where
  "seconds_text s =
     (let a = \<bar>s\<bar>; h = a div 3600; m = a div 60 mod 60; sec = a mod 60 in
      (if s < 0 then ''-'' else [])
      @ (if h > 0 then itoa h @ ''h'' else [])
      @ (if a \<ge> 60 then itoa m @ ''m'' else [])
      @ itoa sec @ ''s'')"

text \<open>\<open>%.2f\<close> of a value that is not negative.\<close>

definition two_decimals :: "rat \<Rightarrow> string" where
  "two_decimals x =
     (let t = nat (round_even (x * 100)) in nat_to_dec (t div 100) @ ''.'' @ nat_to_dec (t div 10 mod 10) @ nat_to_dec (t mod 10))"

definition formatAdminTime :: "(time \<Rightarrow> string) \<Rightarrow> time option \<Rightarrow> string" where
  "formatAdminTime local v =
     (case v of None \<Rightarrow> ''unavailable'' | Some t \<Rightarrow> if t = zero_time then ''unavailable'' else local t)"

definition newline :: string where
  "newline = [CHR 0x0A]"

definition text_lines :: "string list \<Rightarrow> string" where
  "text_lines ls = concat (map (\<lambda>l. l @ newline) ls)"

text \<open>
  \<open>text/tabwriter\<close> with padding 2 and no minimal width: every cell but the last of a line is padded
  to the widest of its column and two blanks, in code points.
\<close>

definition cell_width :: "string \<Rightarrow> nat" where
  "cell_width s = length (runes s)"

definition column_width :: "nat \<Rightarrow> string list list \<Rightarrow> nat" where
  "column_width j rows = fold max (map (\<lambda>row. cell_width (row ! j)) rows) 0 + 2"

definition pad_cell :: "nat \<Rightarrow> string \<Rightarrow> string" where
  "pad_cell w s = s @ replicate (w - cell_width s) CHR '' ''"

definition tabulate :: "string list list \<Rightarrow> string list" where
  "tabulate rows =
     map (\<lambda>row. concat (map (\<lambda>j. pad_cell (column_width j rows) (row ! j)) [0..<length row - 1]) @ last row) rows"

section \<open>Reports\<close>

definition status_report :: "(time \<Rightarrow> string) \<Rightarrow> admin_status \<Rightarrow> string list" where
  "status_report local st =
     (let sy = as_system st; ce = as_certificate st in
      [''tunnld '' @ as_version st,
       ''status: operational'',
       ''uptime: '' @ seconds_text (as_uptime_seconds st),
       ''active tunnels: '' @ nat_to_dec (as_active_tunnels st),
       ''reservations: '' @ nat_to_dec (as_reservations st),
       ''requests: '' @ nat_to_dec (unat (as_total_requests st)) @ '' ('' @ nat_to_dec (unat (as_failed_requests st)) @ '' failed)'',
       ''process: '' @ one_decimal (sy_cpu_percent sy) @ ''% CPU, '' @ formatAdminBytes (sy_heap_bytes sy) @ '' heap, ''
         @ itoa (sy_goroutines sy) @ '' goroutines'',
       ''storage: '' @ formatAdminBytes (word_of_int (sy_database_bytes sy)) @ '' database, ''
         @ formatAdminBytes (sy_disk_free sy) @ '' free'',
       ''certificate: '' @ ce_state ce @ '' ('' @ ce_mode ce @ ''), expires '' @ formatAdminTime local (ce_not_after ce)
         @ '', renewal window '' @ formatAdminTime local (ce_renewal_window_start ce)]
      @ map (\<lambda>t. ''  '' @ i_domain t @ ''.'' @ as_base_domain st @ ''  '' @ i_remote t @ ''  connected ''
               @ local (i_connected_at t)) (as_tunnels st))"

definition metrics_report :: "metrics_view \<Rightarrow> string list" where
  "metrics_report mv =
     (if mv_samples mv = [] then [''no metric samples collected yet'']
      else
        (let newest = last (mv_samples mv) in
         [''window: '' @ seconds_text (mv_window_seconds mv) @ '' ('' @ nat_to_dec (length (mv_samples mv)) @ '' samples)'',
          ''requests: '' @ two_decimals (ms_requests_per_second newest) @ ''/s'',
          ''failures: '' @ two_decimals (ms_failures_per_second newest) @ ''/s'',
          ''response traffic: '' @ formatAdminBytes (word_of_int \<lfloor>ms_bytes_per_second newest\<rfloor>) @ ''/s'',
          ''active tunnels: '' @ itoa (ms_active_tunnels newest),
          ''process CPU: '' @ one_decimal (ms_cpu_percent newest) @ ''%'',
          ''heap: '' @ formatAdminBytes (ms_heap_bytes newest),
          ''goroutines: '' @ itoa (ms_goroutines newest)]))"

definition ellipsis :: string where
  "ellipsis = [CHR 0xE2, CHR 0x80, CHR 0xA6]"

definition token_row :: "(time \<Rightarrow> string) \<Rightarrow> admin_token \<Rightarrow> string list" where
  "token_row local t =
     [tk_id t, tk_label t, tk_prefix t @ ellipsis, local (tk_created_at t),
      (case tk_last_used_at t of None \<Rightarrow> ''never'' | Some u \<Rightarrow> local u)]"

definition tokens_report :: "(time \<Rightarrow> string) \<Rightarrow> admin_token list \<Rightarrow> string list" where
  "tokens_report local ts =
     tabulate ([''ID'', ''LABEL'', ''PREFIX'', ''CREATED'', ''LAST USED''] # map (token_row local) ts)"

definition created_report :: "created_token \<Rightarrow> string list" where
  "created_report cr =
     [''created token '' @ tk_label (cr_token cr) @ '' ('' @ tk_id (cr_token cr) @ '')'', cr_secret cr, [],
      ''Store this secret now; it cannot be retrieved again.'']"

definition dns_report :: "dns_view \<Rightarrow> string list" where
  "dns_report v =
     [''provider: '' @ dv_provider v, ''zone: '' @ dv_zone v, ''target: '' @ dv_target v,
      ''Cloudflare credential available: '' @ (if dv_credential v then ''true'' else ''false'')]"

text \<open>What a successful call prints; a revocation has no value and no JSON.\<close>

definition print_reply ::
  "(time \<Rightarrow> string) \<Rightarrow> (reply \<Rightarrow> string) \<Rightarrow> bool \<Rightarrow> backend_call \<Rightarrow> reply option \<Rightarrow> string" where
  "print_reply local json jsonOutput call r =
     (case r of
        None \<Rightarrow> text_lines [''token revoked'']
      | Some v \<Rightarrow>
          if jsonOutput then json v
          else text_lines
            (case v of
               Status_Reply st \<Rightarrow> status_report local st
             | Metrics_Reply mv \<Rightarrow> metrics_report mv
             | Tokens_Reply ts \<Rightarrow> tokens_report local ts
             | Created_Reply cr \<Rightarrow> created_report cr
             | Revoked_Reply \<Rightarrow> [''token revoked'']
             | Dns_Reply d \<Rightarrow> (case call of Call_SetDNS _ \<Rightarrow> [''DNS settings saved''] | _ \<Rightarrow> dns_report d)
             | Message_Reply m \<Rightarrow> [m]))"

section \<open>The table of tokens\<close>

lemma fold_max_start: "a \<le> fold max xs (a :: nat)"
proof (induction xs arbitrary: a)
  case (Cons y ys)
  from Cons.IH [of "max y a"] show ?case by simp
qed simp

lemma fold_max_ge: "x \<in> set xs \<Longrightarrow> x \<le> fold max xs (a :: nat)"
proof (induction xs arbitrary: a)
  case (Cons y ys)
  then show ?case using fold_max_start [of "max y a" ys] by (cases "x = y") auto
qed simp

text \<open>Every cell but the last is followed by two blanks at least, and cells of one column are equally wide.\<close>

lemma column_fits: "row \<in> set rows \<Longrightarrow> cell_width (row ! j) + 2 \<le> column_width j rows"
  unfolding column_width_def by (simp add: fold_max_ge)

end
