(* ===== verification/Spec2Isabelle.thy ===== *)
theory Spec2Isabelle
  imports Store_Runs Proxy Tunnel_Properties Admin_Client Client_Properties Cmd_Tunnld End_To_End
    Dns_Convergence Visit Proxy_Streams Relay_Main Admin_Report
begin

text \<open>
  Verification of tunnl, a relay (\<^verbatim>\<open>cmd/tunnld\<close>) that publishes local HTTP services under
  subdomains, its client (\<^verbatim>\<open>cmd/tunnl\<close>) and its admin panel. All paths are below \<^verbatim>\<open>src/\<close>.

  \<^bold>\<open>The program.\<close> A client opens a QUIC connection to the relay, says hello with a token and an
  optional name, and is welcomed with a name and a public URL. The relay authenticates the token
  against its static tokens and its database, reserves the name for the token's hash, and enters the
  connection into an in-memory registry. A public request is routed by its host to the registered
  connection; the client passes it to the local service. The admin panel creates and revokes tokens,
  shows status and metrics, and reconciles DNS records at Cloudflare. The parts share the database
  (transactions), the registry (a map behind a mutex), counters, and nothing else.

  \<^bold>\<open>Conventions.\<close> A Go string is a \<open>string\<close> of bytes, a Go map an association list in the order a
  \<open>range\<close> loop visits it, \<open>(T, error)\<close> is a sum with the error on the left, counters are \<open>64 word\<close>,
  times are nanoseconds. A JSON message is the value it encodes. What the source does not decide is
  an argument: the clock, random bytes, SHA-256, Unicode tables beyond ASCII, failures of system
  calls and SQL statements, the answers of remote services. Nothing is assumed of SHA-256 unless a
  property says so.

  \<^bold>\<open>Theories and code.\<close>

  \<^item> \<open>Prelude\<close>, \<open>Go_Strings\<close>, \<open>Go_Net\<close>, \<open>Go_Encoding\<close>, \<open>Http\<close>, \<open>Http_Server\<close>: the standard library
    as far as it is used (UTF-8, trimming, IP parsing, base64, escaping, headers, cookies, \<open>path.Clean\<close>,
    \<open>ServeMux\<close> matching, redirects), with the lemmas about them.
  \<^item> \<open>Names\<close> is \<^verbatim>\<open>internal/names/names.go\<close>: \<open>Normalize\<close> against the specification \<open>tunnel_name\<close>.
  \<^item> \<open>Store\<close>, \<open>Store_Runs\<close> are \<^verbatim>\<open>internal/store/store.go\<close>: the three tables, one function per SQL
    statement, one definition per Go function with its transaction and every way it can fail;
    sequences of operations; the locales \<open>name_book\<close> and \<open>credential_book\<close> and their interpretations.
    \<open>Store_Open\<close> is its \<open>Open\<close> with the migration.
  \<^item> \<open>Registry\<close> and \<open>Metrics\<close> are \<^verbatim>\<open>registry.go\<close> and \<^verbatim>\<open>metrics.go\<close> of \<^verbatim>\<open>internal/server\<close>; the locale
    \<open>routing_table\<close> is what proxy and handlers rely on.
  \<^item> \<open>Server_Config\<close>, \<open>Server_Start\<close>, \<open>Proxy\<close> are \<open>New\<close>, the listeners and result of \<open>Run\<close>, and the
    public side (\<open>routes\<close>, \<open>health\<close>, \<open>proxy\<close> and their helpers) of \<^verbatim>\<open>internal/server/server.go\<close>.
    \<open>Proxy_Streams\<close> refines one call of \<open>proxy\<close> to the steps of its goroutines; \<open>Server_Run\<close> is
    \<open>Run\<close> with the goroutines it starts, waits for and stops.
  \<^item> \<open>Protocol\<close> is \<^verbatim>\<open>internal/protocol/protocol.go\<close>. \<open>Tunnel\<close> is the concurrent part of
    \<^verbatim>\<open>server.go\<close> and \<open>RevokeToken\<close>: each connection handler and each revocation is an activity with a
    program counter, one step is the code between two points where others can interleave, and \<open>step\<close> is
    the relation of all of them over the shared world. \<open>Tunnel_Safety\<close> holds the invariant of reachable
    worlds, \<open>Revocation\<close> the argument about revoked tokens, \<open>Tunnel_Properties\<close> the results.
  \<^item> \<open>Cloudflare\<close> is \<^verbatim>\<open>internal/dns/cloudflare.go\<close> against an arbitrary API;
    \<open>Dns_Convergence\<close> its effect on the zone of a service that does what it documents; \<open>Tls_Source\<close> is
    \<^verbatim>\<open>internal/tlsutil/tls.go\<close>.
  \<^item> \<open>Server_Admin\<close> is \<^verbatim>\<open>internal/server/admin.go\<close> with \<^verbatim>\<open>storage.go\<close> and \<^verbatim>\<open>storage_unix.go\<close>;
    \<open>Admin_Properties\<close> its results. \<open>Admin_Handler\<close> is \<^verbatim>\<open>internal/admin/handler.go\<close>, \<open>Admin_Panel\<close> its
    results and the contract \<open>panel_backend\<close> of the Go interface \<open>Backend\<close>, interpreted on the
    server's own operations; \<open>Admin_Client\<close> is \<^verbatim>\<open>internal/admin/client.go\<close> and its composition with
    handler and server.
  \<^item> \<open>Client\<close>, \<open>Client_Properties\<close> are \<^verbatim>\<open>internal/client/client.go\<close> and \<^verbatim>\<open>state.go\<close>; \<open>Cmd_Tunnl\<close> is
    \<^verbatim>\<open>cmd/tunnl/main.go\<close> with its reconnect loop; \<open>Cmd_Tunnld\<close> is \<^verbatim>\<open>cmd/tunnld/main.go\<close> and
    \<^verbatim>\<open>admin.go\<close>, \<open>Admin_Report\<close> what the admin command prints.
  \<^item> Compositions: \<open>End_To_End\<close> runs the client's loop against the relay's handshake, \<open>Visit\<close> takes a
    public request through relay and client to the local service, \<open>Relay_Main\<close> is the relay process
    on a machine whose database file outlives it.

  \<^bold>\<open>What is shown.\<close> Names: what is accepted as a name, that a reserved name never changes its owner,
  that the reservation transaction refines the atomic claim of a free name, what allocation returns
  and when it gives up. Tunnels: only authenticated clients are registered, every live tunnel is
  reserved for its own token, no name is taken over, the announced URL routes to the announced
  session, handlers that lost their name are closed, late deregistration removes nobody else, every
  handler can finish, a completed revocation has closed the token's tunnels, with the one race that
  breaks it. Requests: which connection gets a request, which headers and answers pass, how they are
  counted, where below the target they arrive, and that a visitor's request reaches the local service
  and its answer the visitor; the goroutines of one exchange refine the sequential model, and an
  abandoned exchange ends. Relay: \<open>Run\<close> returns the first failure, a stopped relay ends, and reserved
  names survive a restart. Panel: no data and no effect without credentials,
  where sessions come from and when they end, headers of every answer, well typed stored data,
  working tokens, DNS settings that reconcile, writes to the managed records only,
  a zone that converges to the configured target, and the equality
  of a call through command line client, HTTP and handler with the call on the server. Client: state
  files survive failed saves, a client gets its name back, the delays of its reconnect loop.

  \<^bold>\<open>Bounds.\<close> No definition needs fuel: the 32 attempts of \<open>Allocate\<close> are the code's own bound, the
  reconnect loop recurs over the rounds seen so far, and the event loops of the server are steps of a
  relation, so that properties hold after any number of them. Two runs are bounded by measures: an exchange
  whose visitor has gone ends within 9 steps, and \<open>Run\<close> with \<open>n\<close> HTTP servers takes at most \<open>3 * n + 6\<close>
  steps in all.

  \<^bold>\<open>Not modelled.\<close> The transport itself (QUIC, TLS, \<open>net/http\<close> connections, timeouts; body
  streams are finished values, copied in one step), SQLite below the level of statements, certificate
  management inside certmagic and parsing inside \<open>crypto/x509\<close>, flag parsing, logging, HTML
  templates, disk space on systems other than Unix (a stub that returns zeros), and the version
  strings. Requests to the
  panel are served one at a time; the tunnel server and revocations interleave.
\<close>

end
